(* ===== verification/Prelude.thy ===== *)
theory Prelude
  imports
    Main
    "HOL-Library.Word"
    "HOL-Library.Char_ord"
    "HOL-Library.List_Lexorder"
    "HOL-Library.Product_Lexorder"
    "HOL-Library.Option_ord"
    "HOL-Library.Sublist"
begin

text \<open>
  Shared vocabulary of the development: the Rust standard-library types and functions the
  sources use (\<open>Ordering\<close>, \<open>Result\<close>, integer widths, decimal text, \<open>str::split\<close>,
  \<open>slice::sort_by\<close>, \<open>BTreeMap\<close>) as executable HOL functions, with the generic lemmas the
  component theories build on.

  Strings are \<^typ>\<open>string\<close>, a list of bytes, so the lexicographic order of
  \<open>HOL-Library.List_Lexorder\<close> is the byte order of Rust's \<open>str\<close>; tuples and options are
  ordered as Rust derives it (\<open>Product_Lexorder\<close>, \<open>Option_ord\<close>).
\<close>

named_theorems btree_simps \<open>lookup laws of the ordered-map model\<close>
named_theorems ordering_simps \<open>rewriting of comparison results\<close>

section \<open>Results\<close>

type_synonym ('e, 'a) result = "'e + 'a"

definition rbind :: "('e, 'a) result \<Rightarrow> ('a \<Rightarrow> ('e, 'b) result) \<Rightarrow> ('e, 'b) result" where
  "rbind m f = (case m of Inl e \<Rightarrow> Inl e | Inr x \<Rightarrow> f x)"

fun ok_or :: "'e \<Rightarrow> 'a option \<Rightarrow> ('e, 'a) result" where
  "ok_or e None = Inl e"
| "ok_or e (Some x) = Inr x"

definition is_ok :: "('e, 'a) result \<Rightarrow> bool" where
  "is_ok r = (case r of Inl _ \<Rightarrow> False | Inr _ \<Rightarrow> True)"

text \<open>\<open>iter().map(f).collect::<Result<Vec<_>, _>>()\<close>: stops at the first error.\<close>

fun try_map :: "('a \<Rightarrow> ('e, 'b) result) \<Rightarrow> 'a list \<Rightarrow> ('e, 'b list) result" where
  "try_map f [] = Inr []"
| "try_map f (x # xs) = rbind (f x) (\<lambda>y. rbind (try_map f xs) (\<lambda>ys. Inr (y # ys)))"

text \<open>A \<open>for\<close> loop whose body returns early on an error.\<close>

fun try_each :: "('a \<Rightarrow> ('e, unit) result) \<Rightarrow> 'a list \<Rightarrow> ('e, unit) result" where
  "try_each f [] = Inr ()"
| "try_each f (x # xs) = rbind (f x) (\<lambda>_. try_each f xs)"

text \<open>A \<open>for\<close> loop that threads mutable state and returns early on an error.\<close>

fun try_fold :: "('a \<Rightarrow> 's \<Rightarrow> ('e, 's) result) \<Rightarrow> 'a list \<Rightarrow> 's \<Rightarrow> ('e, 's) result" where
  "try_fold f [] s = Inr s"
| "try_fold f (x # xs) s = rbind (f x s) (try_fold f xs)"

section \<open>Ordering\<close>

datatype ordering = Less | Equal | Greater

definition ord_cmp :: "'a::linorder \<Rightarrow> 'a \<Rightarrow> ordering" where
  "ord_cmp a b = (if a < b then Less else if a = b then Equal else Greater)"

fun ord_reverse :: "ordering \<Rightarrow> ordering" where
  "ord_reverse Less = Greater"
| "ord_reverse Equal = Equal"
| "ord_reverse Greater = Less"

text \<open>\<open>Ordering::then\<close> and \<open>then_with\<close>: the second comparison breaks ties of the first.\<close>

fun ord_then :: "ordering \<Rightarrow> ordering \<Rightarrow> ordering" where
  "ord_then Equal o2 = o2"
| "ord_then o1 o2 = o1"

fun is_ge :: "ordering \<Rightarrow> bool" where
  "is_ge Less = False" | "is_ge _ = True"

fun is_le :: "ordering \<Rightarrow> bool" where
  "is_le Greater = False" | "is_le _ = True"

fun is_gt :: "ordering \<Rightarrow> bool" where
  "is_gt Greater = True" | "is_gt _ = False"

fun is_lt :: "ordering \<Rightarrow> bool" where
  "is_lt Less = True" | "is_lt _ = False"

section \<open>Sorting by a comparison function\<close>

text \<open>
  \<open>slice::sort_by\<close> is a stable sort; stable insertion computes the same list whenever the
  comparison is a total order, which is what the library requires of its argument.
\<close>

fun insert_by :: "('a \<Rightarrow> 'a \<Rightarrow> ordering) \<Rightarrow> 'a \<Rightarrow> 'a list \<Rightarrow> 'a list" where
  "insert_by cmp x [] = [x]"
| "insert_by cmp x (y # ys) =
     (if is_le (cmp x y) then x # y # ys else y # insert_by cmp x ys)"

fun sort_by :: "('a \<Rightarrow> 'a \<Rightarrow> ordering) \<Rightarrow> 'a list \<Rightarrow> 'a list" where
  "sort_by cmp [] = []"
| "sort_by cmp (x # xs) = insert_by cmp x (sort_by cmp xs)"

text \<open>\<open>Vec::dedup\<close> drops every element equal to its predecessor.\<close>

fun dedup :: "'a list \<Rightarrow> 'a list" where
  "dedup [] = []"
| "dedup [x] = [x]"
| "dedup (x # y # ys) = (if x = y then dedup (y # ys) else x # dedup (y # ys))"

text \<open>\<open>Iterator::position\<close>.\<close>

fun position_of :: "('a \<Rightarrow> bool) \<Rightarrow> 'a list \<Rightarrow> nat option" where
  "position_of P [] = None"
| "position_of P (x # xs) = (if P x then Some 0 else map_option Suc (position_of P xs))"

text \<open>\<open>Iterator::max_by\<close> returns the last of several maximal elements.\<close>

fun max_by_from :: "('a \<Rightarrow> 'a \<Rightarrow> ordering) \<Rightarrow> 'a \<Rightarrow> 'a list \<Rightarrow> 'a" where
  "max_by_from cmp m [] = m"
| "max_by_from cmp m (x # xs) =
     (if is_gt (cmp m x) then max_by_from cmp m xs else max_by_from cmp x xs)"

fun max_by :: "('a \<Rightarrow> 'a \<Rightarrow> ordering) \<Rightarrow> 'a list \<Rightarrow> 'a option" where
  "max_by cmp [] = None"
| "max_by cmp (x # xs) = Some (max_by_from cmp x xs)"

section \<open>Machine integers and decimal text\<close>

type_synonym u8 = "8 word"
type_synonym u64 = "64 word"
type_synonym i64 = "64 word"

definition u64_max :: u64 where
  "u64_max = - 1"

definition checked_add :: "u64 \<Rightarrow> u64 \<Rightarrow> u64 option" where
  "checked_add a b = (if unat a + unat b < 2 ^ 64 then Some (a + b) else None)"

definition saturating_sub :: "u64 \<Rightarrow> u64 \<Rightarrow> u64" where
  "saturating_sub a b = (if a < b then 0 else a - b)"

definition saturating_mul :: "u64 \<Rightarrow> u64 \<Rightarrow> u64" where
  "saturating_mul a b = (if unat a * unat b < 2 ^ 64 then a * b else u64_max)"

definition digit_char :: "nat \<Rightarrow> char" where
  "digit_char d = char_of (48 + d)"

fun nat_to_string :: "nat \<Rightarrow> string" where
  "nat_to_string n =
     (if n < 10 then [digit_char n] else nat_to_string (n div 10) @ [digit_char (n mod 10)])"

definition u64_to_string :: "u64 \<Rightarrow> string" where
  "u64_to_string w = nat_to_string (unat w)"

definition digit_value :: "char \<Rightarrow> nat option" where
  "digit_value c =
     (let n = of_char c in if 48 \<le> n \<and> n \<le> (57::nat) then Some (n - 48) else None)"

fun parse_digits :: "nat \<Rightarrow> string \<Rightarrow> nat option" where
  "parse_digits acc [] = Some acc"
| "parse_digits acc (c # cs) =
     (case digit_value c of None \<Rightarrow> None | Some d \<Rightarrow> parse_digits (10 * acc + d) cs)"

text \<open>
  \<open>u64::from_str\<close>: an optional \<open>+\<close>, then at least one decimal digit, with a value that
  fits 64 bits.
\<close>

definition parse_u64 :: "string \<Rightarrow> u64 option" where
  "parse_u64 s =
     (let ds = (case s of c # cs \<Rightarrow> if c = CHR ''+'' then cs else s | [] \<Rightarrow> s)
      in if ds = [] then None
         else case parse_digits 0 ds of
                None \<Rightarrow> None
              | Some n \<Rightarrow> if n < 2 ^ 64 then Some (of_nat n) else None)"

section \<open>Strings\<close>

definition starts_with :: "string \<Rightarrow> string \<Rightarrow> bool" where
  "starts_with s p = (take (length p) s = p)"

text \<open>\<open>str::split(c)\<close>: always at least one (possibly empty) piece.\<close>

fun split_on :: "char \<Rightarrow> string \<Rightarrow> string list" where
  "split_on c [] = [[]]"
| "split_on c (x # xs) =
     (if x = c then [] # split_on c xs
      else case split_on c xs of [] \<Rightarrow> [[x]] | p # ps \<Rightarrow> (x # p) # ps)"

fun join_on :: "char \<Rightarrow> string list \<Rightarrow> string" where
  "join_on c [] = []"
| "join_on c [p] = p"
| "join_on c (p # ps) = p @ c # join_on c ps"

text \<open>\<open>str::split_once(c)\<close>.\<close>

fun split_once :: "char \<Rightarrow> string \<Rightarrow> (string \<times> string) option" where
  "split_once c [] = None"
| "split_once c (x # xs) =
     (if x = c then Some ([], xs)
      else map_option (\<lambda>(a, b). (x # a, b)) (split_once c xs))"

abbreviation slash :: char where
  "slash \<equiv> CHR ''/''"

section \<open>Ordered maps\<close>

text \<open>
  \<open>BTreeMap\<close> as the list of its entries in key order: lookup, insertion that replaces,
  removal, and the entry view \<open>or_default\<close>/\<open>get_mut\<close> through lookup and insertion.
\<close>

type_synonym ('k, 'v) btree = "('k \<times> 'v) list"

definition bt_get :: "('k, 'v) btree \<Rightarrow> 'k \<Rightarrow> 'v option" where
  "bt_get m = map_of m"

fun bt_insert :: "'k::linorder \<Rightarrow> 'v \<Rightarrow> ('k, 'v) btree \<Rightarrow> ('k, 'v) btree" where
  "bt_insert k v [] = [(k, v)]"
| "bt_insert k v ((k', v') # m) =
     (if k < k' then (k, v) # (k', v') # m
      else if k = k' then (k, v) # m
      else (k', v') # bt_insert k v m)"

definition bt_remove :: "'k \<Rightarrow> ('k, 'v) btree \<Rightarrow> ('k, 'v) btree" where
  "bt_remove k m = filter (\<lambda>(k', _). k' \<noteq> k) m"

definition bt_get_or :: "'v \<Rightarrow> ('k, 'v) btree \<Rightarrow> 'k \<Rightarrow> 'v" where
  "bt_get_or d m k = (case bt_get m k of None \<Rightarrow> d | Some v \<Rightarrow> v)"

definition bt_contains :: "('k, 'v) btree \<Rightarrow> 'k \<Rightarrow> bool" where
  "bt_contains m k = (bt_get m k \<noteq> None)"

definition bt_sorted :: "('k::linorder, 'v) btree \<Rightarrow> bool" where
  "bt_sorted m = sorted_wrt (<) (map fst m)"

definition bt_from :: "('k::linorder \<times> 'v) list \<Rightarrow> ('k, 'v) btree" where
  "bt_from kvs = foldl (\<lambda>m (k, v). bt_insert k v m) [] kvs"

text \<open>\<open>BTreeSet\<close> as the ascending list of its elements.\<close>

type_synonym 'a bset = "'a list"

definition bs_insert :: "'a::linorder \<Rightarrow> 'a bset \<Rightarrow> 'a bset" where
  "bs_insert x s = insort_insert x s"

definition bs_remove :: "'a \<Rightarrow> 'a bset \<Rightarrow> 'a bset" where
  "bs_remove x s = filter (\<lambda>y. y \<noteq> x) s"

definition bs_from :: "'a::linorder list \<Rightarrow> 'a bset" where
  "bs_from xs = foldl (\<lambda>s x. bs_insert x s) [] xs"

definition bs_sorted :: "'a::linorder bset \<Rightarrow> bool" where
  "bs_sorted s = (sorted s \<and> distinct s)"

section \<open>Lemmas on results\<close>

lemma rbind_simps [simp]:
  "rbind (Inl e) f = Inl e"
  "rbind (Inr x) f = f x"
  by (simp_all add: rbind_def)

lemma rbind_Inr_iff: "rbind m f = Inr y \<longleftrightarrow> (\<exists>x. m = Inr x \<and> f x = Inr y)"
  by (cases m) auto

lemma rbind_Inl_iff: "rbind m f = Inl e \<longleftrightarrow> m = Inl e \<or> (\<exists>x. m = Inr x \<and> f x = Inl e)"
  by (cases m) auto

lemma is_ok_simps [simp]: "is_ok (Inl e) = False" "is_ok (Inr x) = True"
  by (simp_all add: is_ok_def)

lemma is_ok_iff: "is_ok r \<longleftrightarrow> (\<exists>x. r = Inr x)"
  by (cases r) auto

lemma is_ok_unit_iff: "is_ok (r :: ('e, unit) result) \<longleftrightarrow> r = Inr ()"
  by (cases r) auto

lemma ok_or_Inr_iff [simp]: "ok_or e m = Inr x \<longleftrightarrow> m = Some x"
  by (cases m) auto

lemma try_map_Inr_iff:
  "try_map f xs = Inr ys \<longleftrightarrow> list_all2 (\<lambda>x y. f x = Inr y) xs ys"
  by (induction xs arbitrary: ys) (auto simp: rbind_Inr_iff list_all2_Cons1)

lemma try_each_Inr_iff: "try_each f xs = Inr u \<longleftrightarrow> (\<forall>x \<in> set xs. is_ok (f x))"
proof (induction xs)
  case Nil
  then show ?case by (simp add: old.unit.exhaust)
next
  case (Cons x xs)
  then show ?case by (cases "f x") auto
qed

lemma try_each_Inl_in: "try_each f xs = Inl e \<Longrightarrow> \<exists>x \<in> set xs. f x = Inl e"
  by (induction xs) (auto simp: rbind_Inl_iff)

lemma try_fold_append: "try_fold f (xs @ ys) s = rbind (try_fold f xs s) (try_fold f ys)"
proof (induction xs arbitrary: s)
  case Nil
  then show ?case by simp
next
  case (Cons x xs)
  then show ?case by (cases "f x s") auto
qed

lemma try_fold_invariant:
  assumes "try_fold f xs s = Inr s'" and "P s"
    and "\<And>x s s'. x \<in> set xs \<Longrightarrow> f x s = Inr s' \<Longrightarrow> P s \<Longrightarrow> P s'"
  shows "P s'"
  using assms
proof (induction xs arbitrary: s)
  case Nil
  then show ?case by simp
next
  case (Cons x xs)
  from Cons.prems(1) obtain s1 where s1: "f x s = Inr s1" "try_fold f xs s1 = Inr s'"
    by (auto simp: rbind_Inr_iff)
  have "P s1" using Cons.prems(3) [OF _ s1(1) Cons.prems(2)] by simp
  show ?case
    by (rule Cons.IH [OF s1(2) \<open>P s1\<close>]) (rule Cons.prems(3), auto)
qed

lemma try_fold_each:
  "try_fold f xs s = Inr s' \<Longrightarrow> x \<in> set xs \<Longrightarrow> \<exists>u u'. f x u = Inr u'"
  by (induction xs arbitrary: s) (auto simp: rbind_Inr_iff)

lemma try_each_cong [fundef_cong]:
  "xs = ys \<Longrightarrow> (\<And>x. x \<in> set ys \<Longrightarrow> f x = g x) \<Longrightarrow> try_each f xs = try_each g ys"
  by (induction ys arbitrary: xs) auto

lemma try_map_cong [fundef_cong]:
  "xs = ys \<Longrightarrow> (\<And>x. x \<in> set ys \<Longrightarrow> f x = g x) \<Longrightarrow> try_map f xs = try_map g ys"
  by (induction ys arbitrary: xs) auto

lemma try_fold_cong [fundef_cong]:
  "xs = ys \<Longrightarrow> s = t \<Longrightarrow> (\<And>x u. x \<in> set ys \<Longrightarrow> f x u = g x u) \<Longrightarrow> try_fold f xs s = try_fold g ys t"
proof (induction ys arbitrary: xs s t)
  case (Cons y ys)
  have "try_fold f ys u = try_fold g ys u" for u
    using Cons.IH [of ys u u] Cons.prems(3) by simp
  moreover have "f y t = g y t" using Cons.prems(3) by simp
  ultimately show ?case using Cons.prems(1,2) by (cases "g y t") auto
qed simp

section \<open>Lemmas on orderings\<close>

lemma ord_cmp_simps [ordering_simps]:
  "ord_cmp a b = Less \<longleftrightarrow> a < b"
  "ord_cmp a b = Equal \<longleftrightarrow> a = b"
  "ord_cmp a b = Greater \<longleftrightarrow> b < a"
  by (auto simp: ord_cmp_def)

lemma ord_cmp_refl [simp]: "ord_cmp a a = Equal"
  by (simp add: ord_cmp_def)

lemma ord_cmp_reverse [simp]: "ord_reverse (ord_cmp a b) = ord_cmp b a"
  by (auto simp: ord_cmp_def)

lemma ord_then_iff [ordering_simps]:
  "ord_then a b = Less \<longleftrightarrow> a = Less \<or> a = Equal \<and> b = Less"
  "ord_then a b = Equal \<longleftrightarrow> a = Equal \<and> b = Equal"
  "ord_then a b = Greater \<longleftrightarrow> a = Greater \<or> a = Equal \<and> b = Greater"
  by (cases a; simp)+

lemma ord_reverse_then: "ord_reverse (ord_then a b) = ord_then (ord_reverse a) (ord_reverse b)"
  by (cases a) simp_all

lemma ord_reverse_reverse [simp]: "ord_reverse (ord_reverse a) = a"
  by (cases a) simp_all

lemma ord_reverse_iff [ordering_simps]:
  "ord_reverse a = Less \<longleftrightarrow> a = Greater"
  "ord_reverse a = Equal \<longleftrightarrow> a = Equal"
  "ord_reverse a = Greater \<longleftrightarrow> a = Less"
  by (cases a; simp)+

lemma ordering_test_iff [ordering_simps]:
  "is_ge a \<longleftrightarrow> a \<noteq> Less" "is_le a \<longleftrightarrow> a \<noteq> Greater"
  "is_gt a \<longleftrightarrow> a = Greater" "is_lt a \<longleftrightarrow> a = Less"
  by (cases a; simp)+

section \<open>The contract of a comparison function\<close>

text \<open>
  What \<open>sort_by\<close> and \<open>max_by\<close> demand of their argument on a set of elements: it is the
  comparison of a total order. The lemmas of the locale say what the two functions then
  compute; every comparison function of the program is shown to satisfy it where it is used.
\<close>

locale comparison =
  fixes cmp :: "'a \<Rightarrow> 'a \<Rightarrow> ordering" and C :: "'a set"
  assumes cmp_antisym: "\<lbrakk>x \<in> C; y \<in> C\<rbrakk> \<Longrightarrow> cmp y x = ord_reverse (cmp x y)"
    and cmp_trans: "\<lbrakk>x \<in> C; y \<in> C; z \<in> C; is_le (cmp x y); is_le (cmp y z)\<rbrakk> \<Longrightarrow> is_le (cmp x z)"
begin

lemma cmp_refl: "x \<in> C \<Longrightarrow> cmp x x = Equal"
  using cmp_antisym [of x x] by (cases "cmp x x") auto

lemma cmp_total: "\<lbrakk>x \<in> C; y \<in> C\<rbrakk> \<Longrightarrow> is_le (cmp x y) \<or> is_le (cmp y x)"
  using cmp_antisym [of x y] by (cases "cmp x y") auto

lemma sorted_insert_by:
  "\<lbrakk>x \<in> C; set ys \<subseteq> C; sorted_wrt (\<lambda>a b. is_le (cmp a b)) ys\<rbrakk>
    \<Longrightarrow> sorted_wrt (\<lambda>a b. is_le (cmp a b)) (insert_by cmp x ys)"
proof (induction ys)
  case Nil
  then show ?case by simp
next
  case (Cons y ys)
  have set_ins: "set (insert_by cmp x zs) = insert x (set zs)" for zs
    by (induction zs) auto
  show ?case
  proof (cases "is_le (cmp x y)")
    case True
    have "is_le (cmp x z)" if "z \<in> set ys" for z
      using cmp_trans [of x y z] Cons.prems that True by auto
    with True Cons.prems show ?thesis by auto
  next
    case False
    then have "is_le (cmp y x)" using cmp_total [of x y] Cons.prems by auto
    with False Cons show ?thesis by (auto simp: set_ins)
  qed
qed

end

lemma set_insert_by [simp]: "set (insert_by cmp x ys) = insert x (set ys)"
  by (induction ys) auto

lemma set_sort_by [simp]: "set (sort_by cmp xs) = set xs"
  by (induction xs) auto

lemma length_insert_by [simp]: "length (insert_by cmp x ys) = Suc (length ys)"
  by (induction ys) auto

lemma length_sort_by [simp]: "length (sort_by cmp xs) = length xs"
  by (induction xs) auto

lemma distinct_map_insert_by:
  "distinct (map f (insert_by cmp x ys)) \<longleftrightarrow> f x \<notin> f ` set ys \<and> distinct (map f ys)"
  by (induction ys) auto

lemma distinct_map_sort_by [simp]: "distinct (map f (sort_by cmp xs)) \<longleftrightarrow> distinct (map f xs)"
  by (induction xs) (auto simp: distinct_map_insert_by)

context comparison
begin

lemma sorted_sort_by:
  "set xs \<subseteq> C \<Longrightarrow> sorted_wrt (\<lambda>a b. is_le (cmp a b)) (sort_by cmp xs)"
proof (induction xs)
  case Nil
  then show ?case by simp
next
  case (Cons x xs)
  then show ?case using sorted_insert_by [of x "sort_by cmp xs"] by simp
qed

text \<open>The maximum dominates every candidate.\<close>

lemma max_by_from_in: "max_by_from cmp m xs \<in> insert m (set xs)"
  by (induction xs arbitrary: m) auto

lemma max_by_from_ge:
  "\<lbrakk>m \<in> C; set xs \<subseteq> C; x \<in> insert m (set xs)\<rbrakk> \<Longrightarrow> is_le (cmp x (max_by_from cmp m xs))"
proof (induction xs arbitrary: m x)
  case Nil
  then show ?case by (simp add: cmp_refl)
next
  case (Cons y ys)
  let ?m' = "if is_gt (cmp m y) then m else y"
  have m': "?m' \<in> C" and rest: "set ys \<subseteq> C" using Cons.prems by auto
  have step: "max_by_from cmp m (y # ys) = max_by_from cmp ?m' ys" by simp
  have below: "is_le (cmp x ?m')" if "x = m \<or> x = y"
    using that Cons.prems cmp_refl [of m] cmp_refl [of y] cmp_antisym [of m y]
    by (cases "cmp m y") auto
  show ?case
  proof (cases "x \<in> set ys")
    case True
    then show ?thesis using Cons.IH [OF m' rest, of x] step by simp
  next
    case False
    then have "is_le (cmp x ?m')" using below Cons.prems by auto
    moreover have "is_le (cmp ?m' (max_by_from cmp ?m' ys))"
      using Cons.IH [OF m' rest, of ?m'] by simp
    moreover have "max_by_from cmp ?m' ys \<in> C"
      using max_by_from_in [of ?m' ys] m' rest by auto
    ultimately show ?thesis
      using cmp_trans [of x ?m' "max_by_from cmp ?m' ys"] Cons.prems m' step False by auto
  qed
qed

end

text \<open>Sorted lists without ties are determined by their elements.\<close>

lemma sorted_wrt_strict_unique:
  assumes "\<And>x y. R x y \<Longrightarrow> R y x \<Longrightarrow> x = y"
    and "sorted_wrt R xs" and "sorted_wrt R ys" and "set xs = set ys"
    and "distinct xs" and "distinct ys"
  shows "xs = ys"
  using assms(2-)
proof (induction xs arbitrary: ys)
  case Nil
  then show ?case by simp
next
  case (Cons x xs)
  then obtain y ys' where ys: "ys = y # ys'" by (cases ys) auto
  have "x = y"
  proof (rule ccontr)
    assume "x \<noteq> y"
    then have "x \<in> set ys'" "y \<in> set xs" using Cons.prems(3) ys by auto
    then have "R y x" "R x y" using Cons.prems(1,2) ys by auto
    with assms(1) \<open>x \<noteq> y\<close> show False by blast
  qed
  moreover have "set xs = set ys'"
    using Cons.prems(3-5) ys \<open>x = y\<close> by auto
  ultimately show ?case using Cons.IH [of ys'] Cons.prems ys by auto
qed

section \<open>Lemmas on sorting and deduplication\<close>

lemma set_dedup [simp]: "set (dedup xs) = set xs"
  by (induction xs rule: dedup.induct) auto

lemma sorted_dedup: "sorted xs \<Longrightarrow> sorted (dedup xs) \<and> distinct (dedup xs)"
proof (induction xs rule: dedup.induct)
  case (3 x y ys)
  then show ?case by (auto simp: order.strict_iff_order)
qed auto

lemma dedup_sort_eq_iff:
  "dedup (sort xs) = dedup (sort ys) \<longleftrightarrow> set xs = set (ys :: 'a::linorder list)"
proof
  assume "dedup (sort xs) = dedup (sort ys)"
  then have "set (dedup (sort xs)) = set (dedup (sort ys))" by simp
  then show "set xs = set ys" by simp
next
  assume eq: "set xs = set ys"
  have "sorted (dedup (sort zs)) \<and> distinct (dedup (sort zs))" for zs :: "'a list"
    by (rule sorted_dedup) simp
  then show "dedup (sort xs) = dedup (sort ys)"
    using sorted_distinct_set_unique eq by (metis set_dedup set_sort)
qed

lemma position_of_Some:
  "position_of P xs = Some i \<longleftrightarrow> i < length xs \<and> P (xs ! i) \<and> (\<forall>j < i. \<not> P (xs ! j))"
proof (induction xs arbitrary: i)
  case Nil
  then show ?case by simp
next
  case (Cons x xs)
  then show ?case
    by (cases i) (auto simp: less_Suc_eq_0_disj nth_Cons split: nat.splits)
qed

lemma position_of_None: "position_of P xs = None \<longleftrightarrow> (\<forall>x \<in> set xs. \<not> P x)"
  by (induction xs) auto

section \<open>Lemmas on decimal text\<close>

declare nat_to_string.simps [simp del]

lemma digit_value_char [simp]: "d < 10 \<Longrightarrow> digit_value (digit_char d) = Some d"
  by (simp add: digit_value_def digit_char_def of_char_of)

lemma nat_to_string_nonempty [simp]: "nat_to_string n \<noteq> []"
  by (subst nat_to_string.simps) simp

lemma parse_digits_append:
  "parse_digits acc (xs @ ys) = (case parse_digits acc xs of None \<Rightarrow> None | Some a \<Rightarrow> parse_digits a ys)"
  by (induction xs arbitrary: acc) (auto split: option.splits)

lemma parse_digits_nat_to_string: "parse_digits 0 (nat_to_string n) = Some n"
proof (induction n rule: nat_to_string.induct)
  case (1 n)
  show ?case
  proof (cases "n < 10")
    case True
    then show ?thesis by (subst nat_to_string.simps) simp
  next
    case False
    with 1 have IH: "parse_digits 0 (nat_to_string (n div 10)) = Some (n div 10)" by simp
    have "parse_digits 0 (nat_to_string n) =
        parse_digits 0 (nat_to_string (n div 10) @ [digit_char (n mod 10)])"
      using False by (simp add: nat_to_string.simps [of n])
    also have "\<dots> = Some n" by (simp add: parse_digits_append IH)
    finally show ?thesis .
  qed
qed

lemma nat_to_string_no_plus: "hd (nat_to_string n) \<noteq> CHR ''+''"
proof (induction n rule: nat_to_string.induct)
  case (1 n)
  show ?case
  proof (cases "n < 10")
    case True
    have "of_char (digit_char n) \<noteq> (43 :: nat)"
      using True by (simp add: digit_char_def of_char_of)
    then have "digit_char n \<noteq> CHR ''+''" by auto
    with True show ?thesis by (simp add: nat_to_string.simps [of n])
  next
    case False
    with 1 show ?thesis by (simp add: nat_to_string.simps [of n])
  qed
qed

lemma nat_to_string_inject [simp]: "nat_to_string m = nat_to_string n \<longleftrightarrow> m = n"
  using parse_digits_nat_to_string by (metis option.inject)

lemma u64_to_string_inject [simp]: "u64_to_string a = u64_to_string b \<longleftrightarrow> a = b"
  by (simp add: u64_to_string_def word_unat_eq_iff)

lemma unat_lt_64: "unat (w :: u64) < 2 ^ 64"
  using unsigned_less [of w] by simp

lemma unat_u64_max: "unat u64_max = 2 ^ 64 - 1"
  by (simp add: u64_max_def unsigned_minus_1_eq_mask mask_eq_exp_minus_1)

lemma parse_u64_to_string [simp]: "parse_u64 (u64_to_string w) = Some w"
proof -
  obtain c cs where s: "nat_to_string (unat w) = c # cs" and "c \<noteq> CHR ''+''"
    using nat_to_string_no_plus [of "unat w"] nat_to_string_nonempty [of "unat w"]
    by (metis list.exhaust_sel)
  then show ?thesis
    using parse_digits_nat_to_string [of "unat w"] unat_lt_64 [of w]
    by (simp add: parse_u64_def u64_to_string_def Let_def)
qed

text \<open>Executable forms of the range tests, on integers.\<close>

lemma range_test: "n < 2 ^ 64 \<longleftrightarrow> int n < 2 ^ 64"
  by (metis of_nat_less_iff of_nat_numeral of_nat_power)

lemma checked_add_code [code]:
  "checked_add a b = (if uint a + uint b < 2 ^ 64 then Some (a + b) else None)"
  unfolding checked_add_def range_test by (simp only: of_nat_add of_nat_unat)

lemma saturating_mul_code [code]:
  "saturating_mul a b = (if uint a * uint b < 2 ^ 64 then a * b else u64_max)"
  unfolding saturating_mul_def range_test by (simp only: of_nat_mult of_nat_unat)

lemma parse_u64_code [code]:
  "parse_u64 s =
     (let ds = (case s of c # cs \<Rightarrow> if c = CHR ''+'' then cs else s | [] \<Rightarrow> s)
      in if ds = [] then None
         else case parse_digits 0 ds of
                None \<Rightarrow> None
              | Some n \<Rightarrow> if int n < 2 ^ 64 then Some (of_nat n) else None)"
  unfolding parse_u64_def range_test ..

lemma checked_add_Some:
  "checked_add a b = Some c \<Longrightarrow> unat c = unat a + unat b"
  by (auto simp: checked_add_def unat_word_ariths split: if_splits)

lemma checked_add_one: "checked_add a 1 = (if a = u64_max then None else Some (a + 1))"
proof -
  have "unat a + 1 < 2 ^ 64 \<longleftrightarrow> a \<noteq> u64_max"
  proof
    assume "unat a + 1 < 2 ^ 64"
    then show "a \<noteq> u64_max" using unat_u64_max by auto
  next
    assume ne: "a \<noteq> u64_max"
    then have "unat a \<noteq> 2 ^ 64 - 1" by (simp add: word_unat_eq_iff unat_u64_max)
    with unat_lt_64 [of a] show "unat a + 1 < 2 ^ 64" by simp
  qed
  then show ?thesis by (simp add: checked_add_def)
qed

section \<open>Lemmas on strings\<close>

lemma starts_with_iff: "starts_with s p \<longleftrightarrow> (\<exists>t. s = p @ t)"
proof
  assume "starts_with s p"
  then have "s = p @ drop (length p) s"
    by (metis starts_with_def append_take_drop_id)
  then show "\<exists>t. s = p @ t" by blast
qed (auto simp: starts_with_def)

lemma split_on_nonempty [simp]: "split_on c s \<noteq> []"
  by (induction s) (auto split: list.splits)

lemma split_on_no_sep: "c \<notin> set s \<Longrightarrow> split_on c s = [s]"
  by (induction s) auto

lemma split_on_append_sep: "split_on c (a @ c # b) = split_on c a @ split_on c b"
proof (induction a)
  case Nil
  then show ?case by simp
next
  case (Cons x a)
  then show ?case by (cases "split_on c a") auto
qed

lemma split_on_parts: "p \<in> set (split_on c s) \<Longrightarrow> c \<notin> set p"
proof (induction s arbitrary: p)
  case Nil
  then show ?case by simp
next
  case (Cons x s)
  show ?case
  proof (cases "x = c")
    case True
    with Cons show ?thesis by auto
  next
    case False
    obtain q qs where q: "split_on c s = q # qs" by (cases "split_on c s") auto
    with Cons.prems False have "p = x # q \<or> p \<in> set qs" by auto
    with Cons.IH q False show ?thesis by auto
  qed
qed

lemma join_split [simp]: "join_on c (split_on c s) = s"
proof (induction s)
  case Nil
  then show ?case by simp
next
  case (Cons x s)
  obtain q qs where q: "split_on c s = q # qs" by (cases "split_on c s") auto
  with Cons show ?case by (cases qs) auto
qed

lemma split_join:
  "ps \<noteq> [] \<Longrightarrow> (\<And>p. p \<in> set ps \<Longrightarrow> c \<notin> set p) \<Longrightarrow> split_on c (join_on c ps) = ps"
proof (induction ps rule: join_on.induct)
  case (3 c p q ps)
  then have "split_on c (join_on c (q # ps)) = q # ps" by simp
  moreover have "split_on c p = [p]" using 3 by (simp add: split_on_no_sep)
  ultimately show ?case by (simp add: split_on_append_sep)
qed (auto simp: split_on_no_sep)

lemma join_on_Cons: "join_on c (p # ps) = (if ps = [] then p else p @ c # join_on c ps)"
  by (cases ps) auto

lemma join_on_snoc: "join_on c (ps @ [p]) = (if ps = [] then p else join_on c ps @ c # p)"
  by (induction ps) (auto simp: join_on_Cons)

lemma join_on_eq_Nil: "[] \<notin> set ps \<Longrightarrow> join_on c ps = [] \<longleftrightarrow> ps = []"
  by (cases ps) (auto simp: join_on_Cons)

lemma split_on_inject [simp]: "split_on c s = split_on c t \<longleftrightarrow> s = t"
  by (metis join_split)

lemma split_once_Some:
  "split_once c s = Some (a, b) \<longleftrightarrow> s = a @ c # b \<and> c \<notin> set a"
proof (induction s arbitrary: a)
  case Nil
  then show ?case by simp
next
  case (Cons x s)
  then show ?case by (cases a) auto
qed

lemma split_once_None: "split_once c s = None \<longleftrightarrow> c \<notin> set s"
  by (induction s) auto

section \<open>Laws of the ordered-map model\<close>

lemma bt_get_Nil [simp, btree_simps]: "bt_get [] k = None"
  by (simp add: bt_get_def)

lemma bt_get_Cons: "bt_get ((k', v) # m) k = (if k' = k then Some v else bt_get m k)"
  by (simp add: bt_get_def)

lemma bt_get_insert [btree_simps]:
  "bt_get (bt_insert k v m) k' = (if k' = k then Some v else bt_get m k')"
  by (induction k v m rule: bt_insert.induct) (auto simp: bt_get_def)

lemma bt_get_remove [btree_simps]:
  "bt_get (bt_remove k m) k' = (if k' = k then None else bt_get m k')"
  by (induction m) (auto simp: bt_get_def bt_remove_def)

lemma set_keys_insert: "set (map fst (bt_insert k v m)) = insert k (set (map fst m))"
  by (induction k v m rule: bt_insert.induct) auto

lemma bt_sorted_Nil [simp]: "bt_sorted []"
  by (simp add: bt_sorted_def)

lemma bt_sorted_insert [simp]: "bt_sorted m \<Longrightarrow> bt_sorted (bt_insert k v m)"
proof (induction k v m rule: bt_insert.induct)
  case (2 k v k' v' m)
  then show ?case
    using set_keys_insert [of k v m] by (auto simp: bt_sorted_def)
qed (simp add: bt_sorted_def)

lemma bt_sorted_remove [simp]: "bt_sorted m \<Longrightarrow> bt_sorted (bt_remove k m)"
  by (induction m) (auto simp: bt_sorted_def bt_remove_def)

lemma bt_sorted_distinct: "bt_sorted m \<Longrightarrow> distinct (map fst m)"
  unfolding bt_sorted_def by (simp add: strict_sorted_iff)

lemma bt_get_iff_in: "bt_sorted m \<Longrightarrow> bt_get m k = Some v \<longleftrightarrow> (k, v) \<in> set m"
  by (simp add: bt_get_def bt_sorted_distinct)

lemma bt_get_SomeD: "bt_get m k = Some v \<Longrightarrow> (k, v) \<in> set m"
  by (simp add: bt_get_def map_of_SomeD)

lemma bt_get_None_iff: "bt_get m k = None \<longleftrightarrow> k \<notin> set (map fst m)"
  by (simp add: bt_get_def map_of_eq_None_iff)

lemma bt_sorted_ext:
  assumes "bt_sorted m" and "bt_sorted n" and "\<And>k. bt_get m k = bt_get n k"
  shows "m = n"
proof -
  have dm: "distinct (map fst m)" and dn: "distinct (map fst n)"
    using assms(1,2) by (auto dest: bt_sorted_distinct)
  have sets: "set m = set n"
    using assms(3) map_of_inject_set [OF dm dn] by (auto simp: bt_get_def)
  then have "map fst m = map fst n"
    using assms(1,2) unfolding bt_sorted_def
    by (intro strict_sorted_equal) auto
  then have keys: "map (\<lambda>k. (k, the (bt_get m k))) (map fst m) =
      map (\<lambda>k. (k, the (bt_get n k))) (map fst n)"
    using assms(3) by simp
  have entries: "map (\<lambda>k. (k, the (bt_get l k))) (map fst l) = l"
    if "distinct (map fst l)" for l :: "('a, 'b) btree"
    using that by (auto simp: bt_get_def intro!: map_idI)
  show ?thesis using keys entries [OF dm] entries [OF dn] by simp
qed

lemma bs_sorted_Nil [simp]: "bs_sorted []"
  by (simp add: bs_sorted_def)

lemma bs_sorted_insert [simp]: "bs_sorted s \<Longrightarrow> bs_sorted (bs_insert x s)"
  by (simp add: bs_sorted_def bs_insert_def sorted_insort_insert distinct_insort_insert)

lemma bs_sorted_remove [simp]: "bs_sorted s \<Longrightarrow> bs_sorted (bs_remove x s)"
  by (simp add: bs_sorted_def bs_remove_def sorted_wrt_filter)

lemma set_bs_insert [simp]: "set (bs_insert x s) = insert x (set s)"
  by (simp add: bs_insert_def set_insort_insert)

lemma set_bs_remove [simp]: "set (bs_remove x s) = set s - {x}"
  by (auto simp: bs_remove_def)

lemma bs_from_aux:
  "bs_sorted s \<Longrightarrow> bs_sorted (foldl (\<lambda>s x. bs_insert x s) s xs)
     \<and> set (foldl (\<lambda>s x. bs_insert x s) s xs) = set s \<union> set xs"
  by (induction xs arbitrary: s) auto

lemma bs_sorted_from [simp]: "bs_sorted (bs_from xs)"
  using bs_from_aux [of "[]" xs] by (simp add: bs_from_def)

lemma set_bs_from [simp]: "set (bs_from xs) = set xs"
  using bs_from_aux [of "[]" xs] by (simp add: bs_from_def)

lemma bs_sorted_unique: "bs_sorted s \<Longrightarrow> bs_sorted t \<Longrightarrow> set s = set t \<Longrightarrow> s = t"
  by (auto simp: bs_sorted_def intro: sorted_distinct_set_unique)

section \<open>Sequences of keyed updates\<close>

text \<open>
  The contract of a fallible operation that, when it succeeds, changes what is stored under one
  key and nothing else. A loop of such operations changes exactly the keys it names.
\<close>

locale keyed_update =
  fixes look :: "'s \<Rightarrow> 'k \<Rightarrow> 'v option"
    and step :: "'a \<Rightarrow> 's \<Rightarrow> ('e, 's) result"
    and key :: "'a \<Rightarrow> 'k"
    and stored :: "'a \<Rightarrow> 'v option"
  assumes step_look: "step x s = Inr s' \<Longrightarrow> look s' k = (if k = key x then stored x else look s k)"
begin

lemma loop_untouched:
  "try_fold step xs s = Inr s' \<Longrightarrow> k \<notin> key ` set xs \<Longrightarrow> look s' k = look s k"
proof (induction xs arbitrary: s)
  case (Cons x xs)
  then obtain s1 where "step x s = Inr s1" "try_fold step xs s1 = Inr s'" by (auto simp: rbind_Inr_iff)
  with Cons.IH [of s1] Cons.prems(2) step_look [of x s s1 k] show ?case by simp
qed simp

lemma loop_stored:
  "try_fold step xs s = Inr s' \<Longrightarrow> distinct (map key xs) \<Longrightarrow> x \<in> set xs \<Longrightarrow> look s' (key x) = stored x"
proof (induction xs arbitrary: s)
  case (Cons y ys)
  then obtain s1 where s1: "step y s = Inr s1" "try_fold step ys s1 = Inr s'" by (auto simp: rbind_Inr_iff)
  show ?case
  proof (cases "x = y")
    case True
    with Cons.prems(2) have "key x \<notin> key ` set ys" by auto
    with loop_untouched [OF s1(2)] step_look [OF s1(1), of "key x"] True show ?thesis by simp
  next
    case False
    with Cons s1 show ?thesis by auto
  qed
qed simp

text \<open>Before the loop reaches an element, the loop has not touched its key.\<close>

lemma loop_prefix:
  assumes "try_fold step (xs @ x # ys) s = Inr s'" and "key x \<notin> key ` set xs"
  obtains u u' where "step x u = Inr u'" and "look u (key x) = look s (key x)"
proof -
  from assms(1) obtain u u' where "try_fold step xs s = Inr u" "step x u = Inr u'"
    by (auto simp: try_fold_append rbind_Inr_iff)
  with loop_untouched [of xs s u "key x"] assms(2) that show ?thesis by blast
qed

end

end
