(* ===== verification/Values.thy ===== *)
theory Values
  imports Prelude
begin

text \<open>
  Index values (\<open>value.rs\<close>) and their comparison (\<open>filters/matching.rs\<close>).

  A CID is its canonical text, an instant is its distance from the epoch in nanoseconds, a
  64-bit integer is a word read as two's complement, a
  \<open>[u8; 32]\<close> is the 256-bit word with these bytes from the most significant on, and an \<open>f64\<close> is its IEEE 754 bit pattern,
  so that comparisons, casts and \<open>NaN\<close> behave as on the machine. Parsing and printing of
  RFC 3339 text, the CID parser, SHA-256 and the URL parser (\<open>Url::parse\<close> followed by
  dropping query and fragment and printing) belong to third-party crates: they are the fields
  of the record \<open>ext\<close>, which every definition that uses them takes as an argument.
\<close>

unbundle bit_operations_syntax

section \<open>Third-party functions\<close>

type_synonym cid = string
type_synonym instant = int
type_synonym bytes32 = "256 word"

record ext =
  parse_rfc3339 :: "string \<Rightarrow> instant option"
  canonical_rfc3339 :: "instant \<Rightarrow> string"
  to_rfc3339 :: "instant \<Rightarrow> string"
  parse_cid :: "string \<Rightarrow> cid option"
  sha256 :: "u8 list \<Rightarrow> bytes32"
  url_without_query :: "string \<Rightarrow> string option"

text \<open>
  One concrete choice of them, on which statements are evaluated: instants are written as an at
  sign and a decimal number, CIDs start with \<open>bafy\<close>, digests are the
  number of bytes, and URLs
  print as they are read.
\<close>

definition plain_ext :: ext where
  "plain_ext =
     \<lparr>parse_rfc3339 = (\<lambda>s. case s of [] \<Rightarrow> None
        | c # cs \<Rightarrow> if c = CHR 0x40 then map_option int (parse_digits 0 cs) else None),
      canonical_rfc3339 = (\<lambda>t. CHR 0x40 # nat_to_string (nat t)),
      to_rfc3339 = (\<lambda>t. CHR 0x40 # nat_to_string (nat t)),
      parse_cid = (\<lambda>s. if starts_with s ''bafy'' then Some s else None),
      sha256 = (\<lambda>bs. of_nat (length bs)),
      url_without_query = Some\<rparr>"

definition as_bytes :: "string \<Rightarrow> u8 list" where
  "as_bytes s = map of_char s"

section \<open>Floating-point numbers\<close>

type_synonym f64 = "64 word"

definition f64_magnitude :: "f64 \<Rightarrow> nat" where
  "f64_magnitude w = unat (w AND mask 63)"

definition f64_negative :: "f64 \<Rightarrow> bool" where
  "f64_negative w = bit w 63"

text \<open>Exponent all ones: an infinity when the mantissa is zero, else not a number.\<close>

definition f64_infinity :: nat where
  "f64_infinity = 2047 * 2 ^ 52"

definition f64_is_nan :: "f64 \<Rightarrow> bool" where
  "f64_is_nan w = (f64_magnitude w > f64_infinity)"

definition f64_is_finite :: "f64 \<Rightarrow> bool" where
  "f64_is_finite w = (f64_magnitude w < f64_infinity)"

text \<open>Apart from \<open>NaN\<close>, sign and magnitude order the bit patterns as the numbers they denote.\<close>

definition f64_key :: "f64 \<Rightarrow> int" where
  "f64_key w = (if f64_negative w then - int (f64_magnitude w) else int (f64_magnitude w))"

definition f64_partial_cmp :: "f64 \<Rightarrow> f64 \<Rightarrow> ordering option" where
  "f64_partial_cmp a b =
     (if f64_is_nan a \<or> f64_is_nan b then None else Some (ord_cmp (f64_key a) (f64_key b)))"

definition f64_eq :: "f64 \<Rightarrow> f64 \<Rightarrow> bool" where
  "f64_eq a b = (f64_partial_cmp a b = Some Equal)"

fun bit_length :: "nat \<Rightarrow> nat" where
  "bit_length n = (if n = 0 then 0 else Suc (bit_length (n div 2)))"

declare bit_length.simps [simp del]

text \<open>\<open>n as f64\<close> for a natural number: round to nearest, ties to even.\<close>

definition f64_bits_of_nat :: "nat \<Rightarrow> nat" where
  "f64_bits_of_nat m =
     (if m = 0 then 0 else
      let e = bit_length m - 1 in
      if e \<le> 52 then (e + 1023) * 2 ^ 52 + (m * 2 ^ (52 - e) - 2 ^ 52)
      else
        let s = e - 52; q = m div 2 ^ s; r = m mod 2 ^ s; half = 2 ^ (s - 1)
        in (e + 1023) * 2 ^ 52 + (q - 2 ^ 52)
           + (if half < r \<or> half = r \<and> odd q then 1 else 0))"

definition f64_of_i64 :: "i64 \<Rightarrow> f64" where
  "f64_of_i64 w =
     (let n = sint w
      in if n < 0 then push_bit 63 1 OR of_nat (f64_bits_of_nat (nat (- n)))
         else of_nat (f64_bits_of_nat (nat n)))"

section \<open>Values\<close>

datatype val =
    VNull
  | VBool bool
  | VString string
  | VNumber i64
  | VFloat f64
  | VCid cid
  | VMap "(string \<times> val) list"
  | VArray "val list"
  | VDateTime instant

type_synonym map_value = "(string, val) btree"
type_synonym key_values = map_value

text \<open>The derived \<open>PartialEq\<close>: structural, except that \<open>f64\<close> compares as a number.\<close>

fun val_eq :: "val \<Rightarrow> val \<Rightarrow> bool" where
  "val_eq VNull b = (b = VNull)"
| "val_eq (VBool x) b = (b = VBool x)"
| "val_eq (VString x) b = (b = VString x)"
| "val_eq (VNumber x) b = (b = VNumber x)"
| "val_eq (VFloat x) b = (case b of VFloat y \<Rightarrow> f64_eq x y | _ \<Rightarrow> False)"
| "val_eq (VCid x) b = (b = VCid x)"
| "val_eq (VMap x) b =
     (case b of VMap y \<Rightarrow> list_all2 (\<lambda>(k, u) (l, v). k = l \<and> val_eq u v) x y | _ \<Rightarrow> False)"
| "val_eq (VArray x) b = (case b of VArray y \<Rightarrow> list_all2 (\<lambda>u v. val_eq u v) x y | _ \<Rightarrow> False)"
| "val_eq (VDateTime x) b = (b = VDateTime x)"

section \<open>JSON text of a value\<close>

datatype json =
    JNull
  | JBool bool
  | JInt int
  | JFloat f64
  | JString string
  | JArray "json list"
  | JObject "(string \<times> json) list"

fun json_of_val :: "'x ext_scheme \<Rightarrow> val \<Rightarrow> json" where
  "json_of_val E VNull = JNull"
| "json_of_val E (VBool b) = JBool b"
| "json_of_val E (VString s) = JString s"
| "json_of_val E (VCid c) = JString c"
| "json_of_val E (VNumber n) = JInt (sint n)"
| "json_of_val E (VFloat f) = (if f64_is_finite f then JFloat f else JNull)"
| "json_of_val E (VMap m) = JObject (map (\<lambda>(k, v). (k, json_of_val E v)) m)"
| "json_of_val E (VDateTime t) = JString (canonical_rfc3339 E t)"
| "json_of_val E (VArray vs) = JArray (map (json_of_val E) vs)"

text \<open>The visitor tries an instant, then a CID, then the two boolean words, before plain text.\<close>

definition visit_str :: "'x ext_scheme \<Rightarrow> string \<Rightarrow> val" where
  "visit_str E s =
     (case parse_rfc3339 E s of
        Some t \<Rightarrow> VDateTime t
      | None \<Rightarrow>
          (case parse_cid E s of
             Some c \<Rightarrow> VCid c
           | None \<Rightarrow>
               if s = ''true'' then VBool True
               else if s = ''false'' then VBool False
               else VString s))"

fun val_of_json :: "'x ext_scheme \<Rightarrow> json \<Rightarrow> val" where
  "val_of_json E JNull = VNull"
| "val_of_json E (JBool b) = VBool b"
| "val_of_json E (JInt n) = VNumber (word_of_int n)"
| "val_of_json E (JFloat f) = VFloat f"
| "val_of_json E (JString s) = visit_str E s"
| "val_of_json E (JArray js) = VArray (map (val_of_json E) js)"
| "val_of_json E (JObject kvs) = VMap (bt_from (map (\<lambda>(k, j). (k, val_of_json E j)) kvs))"

section \<open>Comparison of index values\<close>

fun datetime_value :: "'x ext_scheme \<Rightarrow> val \<Rightarrow> instant option" where
  "datetime_value E (VDateTime t) = Some t"
| "datetime_value E (VString s) = parse_rfc3339 E s"
| "datetime_value E _ = None"

definition compare_same_kind :: "val \<Rightarrow> val \<Rightarrow> ordering option" where
  "compare_same_kind l r =
     (case (l, r) of
        (VNumber x, VNumber y) \<Rightarrow> Some (ord_cmp (sint x) (sint y))
      | (VFloat x, VFloat y) \<Rightarrow> f64_partial_cmp x y
      | (VNumber x, VFloat y) \<Rightarrow> f64_partial_cmp (f64_of_i64 x) y
      | (VFloat x, VNumber y) \<Rightarrow> f64_partial_cmp x (f64_of_i64 y)
      | (VString x, VString y) \<Rightarrow> Some (ord_cmp x y)
      | (VDateTime x, VDateTime y) \<Rightarrow> Some (ord_cmp x y)
      | (VCid x, VCid y) \<Rightarrow> Some (ord_cmp x y)
      | (VBool x, VBool y) \<Rightarrow> Some (ord_cmp x y)
      | _ \<Rightarrow> None)"

definition compare_values :: "'x ext_scheme \<Rightarrow> val \<Rightarrow> val \<Rightarrow> ordering option" where
  "compare_values E l r =
     (case (datetime_value E l, datetime_value E r) of
        (Some lt, Some rt) \<Rightarrow> Some (ord_cmp lt rt)
      | _ \<Rightarrow> compare_same_kind l r)"

section \<open>Lemmas\<close>

lemma f64_partial_cmp_swap:
  "f64_partial_cmp b a = map_option ord_reverse (f64_partial_cmp a b)"
  by (simp add: f64_partial_cmp_def)

lemma compare_same_kind_swap:
  "compare_same_kind r l = map_option ord_reverse (compare_same_kind l r)"
  unfolding compare_same_kind_def
  by (cases l; cases r; simp add: f64_partial_cmp_swap [symmetric])

lemma compare_values_swap:
  "compare_values E r l = map_option ord_reverse (compare_values E l r)"
  by (simp add: compare_values_def compare_same_kind_swap [of r l] split: option.splits)

lemma compare_values_datetime:
  "datetime_value E l = Some s \<Longrightarrow> datetime_value E r = Some t
    \<Longrightarrow> compare_values E l r = Some (ord_cmp s t)"
  by (simp add: compare_values_def)

text \<open>
  A value survives its JSON text when no string in it reads as an instant, a CID or a boolean
  word, its CIDs and instants read back, its floats are finite and its maps are ordered.
\<close>

fun val_stable :: "'x ext_scheme \<Rightarrow> val \<Rightarrow> bool" where
  "val_stable E (VString s) = (visit_str E s = VString s)"
| "val_stable E (VCid c) = (visit_str E c = VCid c)"
| "val_stable E (VDateTime t) = (visit_str E (canonical_rfc3339 E t) = VDateTime t)"
| "val_stable E (VFloat f) = f64_is_finite f"
| "val_stable E (VMap m) = (bt_sorted m \<and> (\<forall>(k, v) \<in> set m. val_stable E v))"
| "val_stable E (VArray vs) = (\<forall>v \<in> set vs. val_stable E v)"
| "val_stable E _ = True"

lemma bt_from_sorted: "bt_sorted m \<Longrightarrow> bt_from m = m"
proof -
  have ins: "bt_insert k v l = l @ [(k, v)]" if "\<forall>k' \<in> fst ` set l. k' < k" for k v and l :: "('a::linorder, 'b) btree"
    using that by (induction l) auto
  have "foldl (\<lambda>m (k, v). bt_insert k v m) l m = l @ m"
    if "sorted_wrt (<) (map fst (l @ m))" for l
    using that
  proof (induction m arbitrary: l)
    case Nil
    then show ?case by simp
  next
    case (Cons kv m)
    obtain k v where kv: "kv = (k, v)" by (cases kv)
    have "bt_insert k v l = l @ [(k, v)]"
      using Cons.prems kv by (intro ins) (auto simp: sorted_wrt_append)
    with Cons.IH [of "l @ [(k, v)]"] Cons.prems kv show ?case by simp
  qed
  from this [of "[]"] show "bt_sorted m \<Longrightarrow> bt_from m = m"
    by (simp add: bt_from_def bt_sorted_def)
qed

lemma val_json_roundtrip: "val_stable E v \<Longrightarrow> val_of_json E (json_of_val E v) = v"
proof (induction v)
  case (VMap m)
  have "map (\<lambda>(k, j). (k, val_of_json E j)) (map (\<lambda>(k, v). (k, json_of_val E v)) m) = m"
    using VMap by (auto intro!: map_idI simp: snds.simps)
  with VMap.prems show ?case by (simp add: bt_from_sorted del: map_map)
next
  case (VArray vs)
  then show ?case by (auto intro!: map_idI)
qed simp_all

end
