(* ===== verification/Filters.thy ===== *)
theory Filters
  imports Values
begin

text \<open>
  Query filters: the filter language of \<open>filters/filter.rs\<close> and \<open>filters/filter_key.rs\<close>, its
  JSON reader and writer, the shared match engine of \<open>filters/matching.rs\<close> and the
  context-scope helpers of \<open>filters/context.rs\<close>.
\<close>

section \<open>Filter keys\<close>

datatype filter_key = FKIndex string | FKTag string

fun filter_key_name :: "filter_key \<Rightarrow> string" where
  "filter_key_name (FKIndex s) = s"
| "filter_key_name (FKTag s) = s"

text \<open>The derived order: every index key before every tag key, then by name.\<close>

fun filter_key_rank :: "filter_key \<Rightarrow> bool \<times> string" where
  "filter_key_rank (FKIndex s) = (False, s)"
| "filter_key_rank (FKTag s) = (True, s)"

instantiation filter_key :: linorder
begin

definition less_eq_filter_key :: "filter_key \<Rightarrow> filter_key \<Rightarrow> bool" where
  "less_eq_filter_key a b = (filter_key_rank a \<le> filter_key_rank b)"

definition less_filter_key :: "filter_key \<Rightarrow> filter_key \<Rightarrow> bool" where
  "less_filter_key a b = (filter_key_rank a < filter_key_rank b)"

instance
proof
  fix a b c :: filter_key
  have inj: "filter_key_rank x = filter_key_rank y \<Longrightarrow> x = y" for x y
    by (cases x; cases y) auto
  show "(a < b) = (a \<le> b \<and> \<not> b \<le> a)"
    unfolding less_eq_filter_key_def less_filter_key_def by (rule less_le_not_le)
  show "a \<le> a" by (simp add: less_eq_filter_key_def)
  show "a \<le> b \<Longrightarrow> b \<le> c \<Longrightarrow> a \<le> c"
    unfolding less_eq_filter_key_def by (rule order_trans)
  show "a \<le> b \<Longrightarrow> b \<le> a \<Longrightarrow> a = b"
    unfolding less_eq_filter_key_def by (intro inj order_antisym)
  show "a \<le> b \<or> b \<le> a"
    unfolding less_eq_filter_key_def by (rule linear)
qed

end

section \<open>Filters\<close>

datatype 'a bound = Included 'a | Excluded 'a | Unbounded

datatype 'a range_filter = RangeNumeric "'a bound" "'a bound" | RangeCriterion "'a bound" "'a bound"

datatype 'a qfilter =
    FilterEqual 'a
  | FilterRange "'a range_filter"
  | FilterOneOf "'a list"
  | FilterPrefix 'a
  | FilterSubtree string

type_synonym value_filter = "(filter_key, val qfilter) btree"
type_synonym filters = "value_filter list"

text \<open>\<open>From<RangeFilter<String>> for RangeFilter<Value>\<close>.\<close>

fun bound_of_string :: "string bound \<Rightarrow> val bound" where
  "bound_of_string (Included s) = Included (VString s)"
| "bound_of_string (Excluded s) = Excluded (VString s)"
| "bound_of_string Unbounded = Unbounded"

fun range_of_string :: "string range_filter \<Rightarrow> val range_filter" where
  "range_of_string (RangeNumeric b e) = RangeNumeric (bound_of_string b) (bound_of_string e)"
| "range_of_string (RangeCriterion b e) = RangeCriterion (bound_of_string b) (bound_of_string e)"

text \<open>\<open>FromIterator<Filters>\<close>: the alternatives of several filter lists.\<close>

definition filters_collect :: "filters list \<Rightarrow> filters" where
  "filters_collect fss = concat fss"

section \<open>JSON form of a filter\<close>

text \<open>The writers: \<open>range_filter_serializer\<close> and \<open>prefix_filter_serializer\<close>.\<close>

fun serialize_range :: "'x ext_scheme \<Rightarrow> val range_filter \<Rightarrow> (string \<times> json) list" where
  "serialize_range E (RangeNumeric b e) =
     (case b of Included v \<Rightarrow> [(''gte'', json_of_val E v)]
              | Excluded v \<Rightarrow> [(''gt'', json_of_val E v)]
              | Unbounded \<Rightarrow> [])
     @ (case e of Included v \<Rightarrow> [(''lte'', json_of_val E v)]
                | Excluded v \<Rightarrow> [(''lt'', json_of_val E v)]
                | Unbounded \<Rightarrow> [])"
| "serialize_range E (RangeCriterion b e) =
     (case b of Included v \<Rightarrow> [(''from'', json_of_val E v)] | _ \<Rightarrow> [])
     @ (case e of Included v \<Rightarrow> [(''to'', json_of_val E v)] | _ \<Rightarrow> [])"

fun serialize_filter :: "'x ext_scheme \<Rightarrow> val qfilter \<Rightarrow> json" where
  "serialize_filter E (FilterEqual v) = json_of_val E v"
| "serialize_filter E (FilterRange r) = JObject (serialize_range E r)"
| "serialize_filter E (FilterOneOf vs) = JArray (map (json_of_val E) vs)"
| "serialize_filter E (FilterPrefix v) = JObject [(''prefix'', json_of_val E v)]"
| "serialize_filter E (FilterSubtree s) = JObject [(''subtree'', JString s)]"

text \<open>The reader, \<open>FilterVisitor\<close>: one pass over the entries of the object, then a verdict.\<close>

record filter_scan =
  fs_lower :: "val bound"
  fs_upper :: "val bound"
  fs_prefix :: "val option"
  fs_subtree :: "string option"
  fs_range_key :: bool
  fs_criterion_key :: bool

definition scan_start :: filter_scan where
  "scan_start = \<lparr>fs_lower = Unbounded, fs_upper = Unbounded, fs_prefix = None,
     fs_subtree = None, fs_range_key = False, fs_criterion_key = False\<rparr>"

definition set_upper :: "val bound \<Rightarrow> filter_scan \<Rightarrow> (string, filter_scan) result" where
  "set_upper b s = (case fs_upper s of
       Unbounded \<Rightarrow> Inr (s\<lparr>fs_upper := b\<rparr>) | _ \<Rightarrow> Inl ''multiple upper bounds'')"

definition set_lower :: "val bound \<Rightarrow> filter_scan \<Rightarrow> (string, filter_scan) result" where
  "set_lower b s = (case fs_lower s of
       Unbounded \<Rightarrow> Inr (s\<lparr>fs_lower := b\<rparr>) | _ \<Rightarrow> Inl ''multiple lower bounds'')"

definition scan_entry :: "string \<times> val \<Rightarrow> filter_scan \<Rightarrow> (string, filter_scan) result" where
  "scan_entry kv s =
     (let (key, v) = kv in
      if key = ''lt'' then set_upper (Excluded v) (s\<lparr>fs_range_key := True\<rparr>)
      else if key = ''lte'' then set_upper (Included v) (s\<lparr>fs_range_key := True\<rparr>)
      else if key = ''gt'' then set_lower (Excluded v) (s\<lparr>fs_range_key := True\<rparr>)
      else if key = ''gte'' then set_lower (Included v) (s\<lparr>fs_range_key := True\<rparr>)
      else if key = ''from'' then set_lower (Included v) (s\<lparr>fs_criterion_key := True\<rparr>)
      else if key = ''to'' then set_upper (Included v) (s\<lparr>fs_criterion_key := True\<rparr>)
      else if key = ''prefix'' then Inr (s\<lparr>fs_prefix := Some v\<rparr>)
      else if key = ''subtree'' then
        (case v of VString t \<Rightarrow> Inr (s\<lparr>fs_subtree := Some t\<rparr>)
         | _ \<Rightarrow> Inl ''subtree value must be a string'')
      else Inl ''invalid range key'')"

definition scan_verdict :: "filter_scan \<Rightarrow> (string, val qfilter) result" where
  "scan_verdict s =
     (let exclusive_count = of_bool (fs_range_key s) + of_bool (fs_criterion_key s)
            + of_bool (fs_prefix s \<noteq> None) + of_bool (fs_subtree s \<noteq> None) :: nat
      in if exclusive_count > 1 then Inl ''cannot combine subtree, prefix, range, and criterion keys''
         else case fs_subtree s of
                Some t \<Rightarrow> Inr (FilterSubtree t)
              | None \<Rightarrow>
                  (case fs_prefix s of
                     Some v \<Rightarrow> Inr (FilterPrefix v)
                   | None \<Rightarrow>
                       if fs_range_key s then Inr (FilterRange (RangeNumeric (fs_lower s) (fs_upper s)))
                       else if fs_criterion_key s
                         then Inr (FilterRange (RangeCriterion (fs_lower s) (fs_upper s)))
                       else Inl ''no valid range or criterion keys found''))"

definition visit_map :: "'x ext_scheme \<Rightarrow> (string \<times> json) list \<Rightarrow> (string, val qfilter) result" where
  "visit_map E kvs =
     rbind (try_fold scan_entry (map (\<lambda>(k, j). (k, val_of_json E j)) kvs) scan_start) scan_verdict"

definition visit_filter_str :: "'x ext_scheme \<Rightarrow> string \<Rightarrow> val qfilter" where
  "visit_filter_str E s =
     (case parse_rfc3339 E s of
        Some t \<Rightarrow> FilterEqual (VString (to_rfc3339 E t))
      | None \<Rightarrow>
          if s = ''true'' \<or> s = ''false'' then FilterEqual (VBool (s = ''true''))
          else FilterEqual (VString s))"

text \<open>
  \<open>Deserialize for Filter<Value>\<close>. The visitor has no method for null or floating-point
  input, so these are type errors.
\<close>

fun parse_filter :: "'x ext_scheme \<Rightarrow> json \<Rightarrow> (string, val qfilter) result" where
  "parse_filter E (JObject kvs) = visit_map E kvs"
| "parse_filter E (JArray js) = Inr (FilterOneOf (map (val_of_json E) js))"
| "parse_filter E (JString s) = Inr (visit_filter_str E s)"
| "parse_filter E (JInt n) = Inr (FilterEqual (VNumber (word_of_int n)))"
| "parse_filter E (JBool b) = Inr (FilterEqual (VBool b))"
| "parse_filter E JNull = Inl ''invalid type: null''"
| "parse_filter E (JFloat f) = Inl ''invalid type: floating point''"

section \<open>The match engine\<close>

definition subfilter_properties :: "string list" where
  "subfilter_properties = [''contextId'', ''protocolPath'']"

definition has_valid_subtree_filters :: "filters \<Rightarrow> bool" where
  "has_valid_subtree_filters fs =
     list_all (list_all (\<lambda>(key, f).
       case f of FilterSubtree _ \<Rightarrow> filter_key_name key \<in> set subfilter_properties | _ \<Rightarrow> True)) fs"

fun values_equal_flexibly :: "val \<Rightarrow> val \<Rightarrow> bool" where
  "values_equal_flexibly (VCid l) (VString r) = (l = r)"
| "values_equal_flexibly (VString l) (VCid r) = (l = r)"
| "values_equal_flexibly l r = val_eq l r"

definition matches_equal :: "val \<Rightarrow> val \<Rightarrow> bool" where
  "matches_equal actual expected =
     (values_equal_flexibly actual expected \<or>
      (case actual of
         VArray vs \<Rightarrow> list_ex (\<lambda>v. values_equal_flexibly v expected) vs
       | _ \<Rightarrow> False))"

fun bound_matches :: "'x ext_scheme \<Rightarrow> val \<Rightarrow> val bound \<Rightarrow> bool \<Rightarrow> bool" where
  "bound_matches E actual Unbounded lower = True"
| "bound_matches E actual (Included expected) lower =
     (case compare_values E actual expected of
        None \<Rightarrow> False | Some ord \<Rightarrow> if lower then is_ge ord else is_le ord)"
| "bound_matches E actual (Excluded expected) lower =
     (case compare_values E actual expected of
        None \<Rightarrow> False | Some ord \<Rightarrow> if lower then is_gt ord else is_lt ord)"

fun matches_range :: "'x ext_scheme \<Rightarrow> val \<Rightarrow> val range_filter \<Rightarrow> bool" where
  "matches_range E actual (RangeNumeric l u) =
     (bound_matches E actual l True \<and> bound_matches E actual u False)"
| "matches_range E actual (RangeCriterion l u) =
     (bound_matches E actual l True \<and> bound_matches E actual u False)"

fun matches_filter :: "'x ext_scheme \<Rightarrow> val \<Rightarrow> val qfilter \<Rightarrow> bool" where
  "matches_filter E actual (FilterEqual expected) = matches_equal actual expected"
| "matches_filter E actual (FilterOneOf vs) = list_ex (matches_equal actual) vs"
| "matches_filter E actual (FilterPrefix pfx) =
     (case (actual, pfx) of
        (VString a, VString p) \<Rightarrow> starts_with a p
      | _ \<Rightarrow> False)"
| "matches_filter E actual (FilterRange r) = matches_range E actual r"
| "matches_filter E actual (FilterSubtree t) =
     (case actual of
        VString a \<Rightarrow> a = t \<or> starts_with a (t @ ''/'')
      | _ \<Rightarrow> False)"

definition matches_set :: "'x ext_scheme \<Rightarrow> key_values \<Rightarrow> value_filter \<Rightarrow> bool" where
  "matches_set E indexes fset =
     list_all (\<lambda>(key, f).
       case bt_get indexes (filter_key_name key) of
         None \<Rightarrow> False | Some actual \<Rightarrow> matches_filter E actual f) fset"

definition matches_filters :: "'x ext_scheme \<Rightarrow> key_values \<Rightarrow> filters option \<Rightarrow> bool" where
  "matches_filters E indexes filters =
     (case filters of
        None \<Rightarrow> True
      | Some fs \<Rightarrow> fs = [] \<or> list_ex (matches_set E indexes) fs)"

section \<open>Context scopes\<close>

definition is_context_subtree_match :: "string \<Rightarrow> string \<Rightarrow> bool" where
  "is_context_subtree_match candidate scope =
     (candidate = scope \<or> starts_with candidate (scope @ ''/''))"

definition encryption_control_audience_path :: string where
  "encryption_control_audience_path = ''$encryption/audience''"

definition encryption_control_delivery_path :: string where
  "encryption_control_delivery_path = ''$encryption/delivery''"

datatype control_kind = ControlAudience | ControlDelivery

definition control_kind_from_protocol_path :: "string \<Rightarrow> control_kind option" where
  "control_kind_from_protocol_path p =
     (if p = encryption_control_audience_path then Some ControlAudience
      else if p = encryption_control_delivery_path then Some ControlDelivery
      else None)"

definition is_encryption_control_path :: "string \<Rightarrow> bool" where
  "is_encryption_control_path p = (control_kind_from_protocol_path p \<noteq> None)"

definition encryption_control_root_path :: string where
  "encryption_control_root_path = ''$encryption''"

definition is_reserved_control_namespace :: "string \<Rightarrow> bool" where
  "is_reserved_control_namespace p =
     (p = encryption_control_root_path \<or> starts_with p (encryption_control_root_path @ ''/''))"

text \<open>\<open>message_filters::Records\<close> and \<open>message_filters::Messages\<close>.\<close>

record records_filter =
  rf_author :: "string list option"
  rf_attester :: "string option"
  rf_recipient :: "string list option"
  rf_protocol :: "string option"
  rf_protocol_path :: "string option"
  rf_published :: "bool option"
  rf_context_id :: "string option"
  rf_schema :: "string option"
  rf_tags :: "(string, val qfilter) btree option"
  rf_record_id :: "string option"
  rf_parent_id :: "string option"
  rf_data_format :: "string option"
  rf_data_size :: "u64 range_filter option"
  rf_data_cid :: "cid option"
  rf_date_created :: "string range_filter option"
  rf_date_published :: "string range_filter option"
  rf_date_updated :: "string range_filter option"

record messages_filter =
  mf_interface :: "string option"
  mf_method :: "string option"
  mf_protocol :: "string option"
  mf_protocol_path :: "string option"
  mf_protocol_path_prefix :: "string option"
  mf_context_id_prefix :: "string option"
  mf_message_timestamp :: "string range_filter option"

definition records_filter_default :: records_filter where
  "records_filter_default =
     \<lparr>rf_author = None, rf_attester = None, rf_recipient = None, rf_protocol = None,
      rf_protocol_path = None, rf_published = None, rf_context_id = None, rf_schema = None,
      rf_tags = None, rf_record_id = None, rf_parent_id = None, rf_data_format = None,
      rf_data_size = None, rf_data_cid = None, rf_date_created = None,
      rf_date_published = None, rf_date_updated = None\<rparr>"

definition nested_scope_error :: "string \<Rightarrow> string" where
  "nested_scope_error path =
     ''for nested protocol path '' @ [CHR 0x27] @ path @ [CHR 0x27] @
     '' must include parentId or a contextId selecting that path or one of its ancestors''"

definition validate_nested_protocol_path_scope ::
  "records_filter \<Rightarrow> bool \<Rightarrow> (string, unit) result" where
  "validate_nested_protocol_path_scope flt allow_bounded_path_wide =
     (case rf_protocol_path flt of
        None \<Rightarrow> Inr ()
      | Some path \<Rightarrow>
          if slash \<notin> set path then Inr ()
          else if is_encryption_control_path path then Inr ()
          else if rf_parent_id flt \<noteq> None \<and> rf_context_id flt = None then Inr ()
          else if rf_context_id flt = None \<and> allow_bounded_path_wide then Inr ()
          else
            (case rf_context_id flt of
               Some context \<Rightarrow>
                 let segments = split_on slash context
                 in if length segments \<le> length (split_on slash path)
                       \<and> list_all (\<lambda>s. s \<noteq> []) segments
                    then Inr () else Inl (nested_scope_error path)
             | None \<Rightarrow> Inl (nested_scope_error path)))"

section \<open>Lemmas on scopes\<close>

text \<open>Being equal to a scope or below it is being an extension of its list of segments.\<close>

lemma subtree_iff_segments:
  "a = t \<or> starts_with a (t @ ''/'') \<longleftrightarrow> prefix (split_on slash t) (split_on slash a)"
proof
  assume "a = t \<or> starts_with a (t @ ''/'')"
  then show "prefix (split_on slash t) (split_on slash a)"
    by (auto simp: starts_with_iff split_on_append_sep)
next
  assume "prefix (split_on slash t) (split_on slash a)"
  then obtain ps where ps: "split_on slash a = split_on slash t @ ps"
    by (auto simp: prefix_def)
  show "a = t \<or> starts_with a (t @ ''/'')"
  proof (cases ps)
    case Nil
    with ps show ?thesis by simp
  next
    case (Cons q qs)
    have "slash \<notin> set p" if "p \<in> set ps" for p
      using that ps split_on_parts [of p slash a] by auto
    then have "split_on slash (join_on slash ps) = ps"
      using Cons by (intro split_join) auto
    then have "split_on slash a = split_on slash (t @ slash # join_on slash ps)"
      using ps by (simp add: split_on_append_sep)
    then have "a = t @ slash # join_on slash ps" by simp
    then show ?thesis by (simp add: starts_with_iff)
  qed
qed

lemma matches_filters_append:
  "fs \<noteq> [] \<Longrightarrow> gs \<noteq> [] \<Longrightarrow>
     matches_filters E indexes (Some (fs @ gs)) \<longleftrightarrow>
     matches_filters E indexes (Some fs) \<or> matches_filters E indexes (Some gs)"
  by (simp add: matches_filters_def list_ex_iff) auto

lemma matches_set_iff:
  "matches_set E indexes fset \<longleftrightarrow>
     (\<forall>(key, f) \<in> set fset. \<exists>v. bt_get indexes (filter_key_name key) = Some v \<and> matches_filter E v f)"
  by (force simp: matches_set_def list_all_iff split: option.splits)

end
