(* ===== verification/Protocols.thy ===== *)
theory Protocols
  imports Filters
begin

text \<open>
  Protocol definitions (\<open>interfaces/messages/protocols.rs\<close>): the data types, lookup of a rule
  set by path, cross-protocol references, comparison up to injected key material, and
  \<open>validate_definition\<close> with every rule it enforces.

  A JSON Web Key is kept as opaque text, an error as its code: the prose after the code is for
  people and no caller reads it. A floating-point literal of a tag schema is kept as its
  ordering key, under which the two zeros coincide as they do for \<open>==\<close>.
\<close>

section \<open>Data\<close>

type_synonym jwk = string
type_synonym usize = u64

record type_spec =
  ts_schema :: "string option"
  ts_data_formats :: "string list option"
  ts_encryption_required :: "bool option"

datatype who = WhoAnyone | WhoAuthor | WhoRecipient

datatype can =
    CanCoDelete | CanCoPrune | CanCoUpdate | CanCreate | CanDelete | CanPrune | CanRead
  | CanUpdate | CanSubscribe | CanQuery | CanSquash

record action_who =
  aw_who :: who
  aw_of :: "string option"
  aw_can :: "can list"

record action_role =
  ar_role :: string
  ar_can :: "can list"

datatype action = ActionWho action_who | ActionRole action_role

record size_spec =
  size_min :: "u64 option"
  size_max :: "u64 option"

datatype tag_type = TagTypeString | TagTypeNumber | TagTypeInteger | TagTypeBoolean | TagTypeArray

datatype item_type = ItemString | ItemNumber | ItemInteger

datatype json_number = NumInt int | NumFloat int

datatype tag_value = TagString string | TagNumber json_number | TagBoolean bool

record tag_items =
  ti_tag_type :: item_type
  ti_enum_values :: "tag_value list"
  ti_minimum :: "usize option"
  ti_maximum :: "usize option"
  ti_exclusive_minimum :: "usize option"
  ti_exclusive_maximum :: "usize option"
  ti_min_length :: "usize option"
  ti_max_length :: "usize option"

type_synonym tag_contains = tag_items

record provided_tags =
  pt_tag_type :: tag_type
  pt_items :: "tag_items option"
  pt_contains :: "tag_contains option"
  pt_enum_values :: "tag_value list"
  pt_max_length :: "usize option"
  pt_min_length :: "usize option"
  pt_minimum :: "usize option"
  pt_maximum :: "usize option"
  pt_exclusive_minimum :: "usize option"
  pt_exclusive_maximum :: "usize option"
  pt_min_items :: "usize option"
  pt_max_items :: "usize option"
  pt_unique_items :: "bool option"
  pt_min_contains :: "usize option"
  pt_max_contains :: "usize option"

record tags_spec =
  tg_required_tags :: "string list"
  tg_allow_undefined_tags :: "bool option"
  tg_tags :: "(string, provided_tags) btree"

datatype rule_set =
  RuleSet
    (rs_key_agreement: "jwk option")
    (rs_actions: "action list")
    (rs_role: "bool option")
    (rs_reference: "string option")
    (rs_size: "size_spec option")
    (rs_tags: "tags_spec option")
    (rs_record_limit: "u64 option")
    (rs_immutable: "bool option")
    (rs_delivery: "string option")
    (rs_squash: "bool option")
    (rs_rules: "(string \<times> rule_set) list")

type_synonym rule_map = "(string, rule_set) btree"

record protocol_definition =
  pd_protocol :: string
  pd_published :: bool
  pd_uses :: "(string, string) btree option"
  pd_key_agreement :: "jwk option"
  pd_types :: "(string, type_spec) btree"
  pd_structure :: rule_map

definition rule_set_default :: rule_set where
  "rule_set_default = RuleSet None [] None None None None None None None None []"

definition structure_size :: "rule_map \<Rightarrow> nat" where
  "structure_size m = size_list (\<lambda>(_, rs). size rs) m"

lemma structure_size_child [termination_simp]:
  "(k, rs) \<in> set m \<Longrightarrow> structure_size (rs_rules rs) < structure_size m"
proof (induction m)
  case (Cons x m)
  have "size_list (\<lambda>(_, rs). size rs) l \<le> size_list (size_prod (\<lambda>_. 0) size) l"
    for l :: "(string \<times> rule_set) list"
    by (induction l) (auto split: prod.splits)
  then have "structure_size (rs_rules rs) < Suc (size rs)"
    by (cases rs) (simp add: structure_size_def less_Suc_eq_le le_SucI)
  with Cons show ?case by (auto simp: structure_size_def)
qed simp

section \<open>Lookup\<close>

record cross_protocol_ref =
  cr_alias :: string
  cr_protocol_path :: string

definition parse_cross_protocol_ref :: "string \<Rightarrow> cross_protocol_ref option" where
  "parse_cross_protocol_ref v =
     (case split_once CHR '':'' v of
        None \<Rightarrow> None
      | Some (alias, path) \<Rightarrow>
          if alias = [] \<or> path = [] \<or> CHR '':'' \<in> set path then None
          else Some \<lparr>cr_alias = alias, cr_protocol_path = path\<rparr>)"

fun rule_set_walk :: "string list \<Rightarrow> rule_map \<Rightarrow> rule_set option \<Rightarrow> rule_set option" where
  "rule_set_walk [] current rule_set = rule_set"
| "rule_set_walk (segment # segments) current rule_set =
     (case bt_get current segment of
        None \<Rightarrow> None
      | Some next \<Rightarrow> rule_set_walk segments (rs_rules next) (Some next))"

definition rule_set_at_path :: "string \<Rightarrow> rule_map \<Rightarrow> rule_set option" where
  "rule_set_at_path protocol_path rule_map =
     rule_set_walk (filter (\<lambda>s. s \<noteq> []) (split_on slash protocol_path)) rule_map None"

definition get_rule_set_at_path :: "string \<Rightarrow> rule_map \<Rightarrow> rule_set option" where
  "get_rule_set_at_path protocol_path rule_map = rule_set_at_path protocol_path rule_map"

definition rule_at :: "protocol_definition \<Rightarrow> string \<Rightarrow> rule_set option" where
  "rule_at d protocol_path = rule_set_at_path protocol_path (pd_structure d)"

definition requires_encryption :: "protocol_definition \<Rightarrow> bool" where
  "requires_encryption d =
     list_ex (\<lambda>(_, t). ts_encryption_required t = Some True) (pd_types d)"

function rule_set_has_encryption :: "rule_set \<Rightarrow> bool" where
  "rule_set_has_encryption rs =
     (rs_key_agreement rs \<noteq> None \<or> list_ex (\<lambda>kv. rule_set_has_encryption (snd kv)) (rs_rules rs))"
  by pat_completeness auto
termination
  by (relation "measure (\<lambda>rs. structure_size (rs_rules rs))")
     (auto dest: structure_size_child [of "fst kv" "snd kv" for kv, simplified])

definition has_encryption :: "protocol_definition \<Rightarrow> bool" where
  "has_encryption d = list_ex (\<lambda>(_, rs). rule_set_has_encryption rs) (pd_structure d)"

text \<open>An action that lets an author or recipient read without pinning its own context.\<close>

fun multi_party_action :: "string option \<Rightarrow> action \<Rightarrow> bool" where
  "multi_party_action current_path (ActionWho a) =
     (aw_who a \<in> {WhoAuthor, WhoRecipient} \<and> CanRead \<in> set (aw_can a)
      \<and> (current_path = None \<or> aw_of a \<noteq> None))"
| "multi_party_action current_path (ActionRole a) = False"

function rule_set_allows_multi_party :: "rule_set \<Rightarrow> string option \<Rightarrow> bool" where
  "rule_set_allows_multi_party rs current_path =
     (if rs_role rs = Some True then True
      else if list_ex (multi_party_action current_path) (rs_actions rs) then True
      else list_ex (\<lambda>kv. rule_set_allows_multi_party (snd kv) (Some (fst kv))) (rs_rules rs))"
  by pat_completeness auto
termination
  by (relation "measure (\<lambda>(rs, _). structure_size (rs_rules rs))")
     (auto dest: structure_size_child [of "fst kv" "snd kv" for kv, simplified])

definition allows_multi_party :: "protocol_definition \<Rightarrow> bool" where
  "allows_multi_party d =
     list_ex (\<lambda>(_, rs). rule_set_allows_multi_party rs None) (pd_structure d)"

definition ref_position :: "protocol_definition \<Rightarrow> string \<Rightarrow> cross_protocol_ref option" where
  "ref_position d protocol_path =
     (case split_on slash protocol_path of
        [root_segment] \<Rightarrow>
          (case bt_get (pd_structure d) root_segment of
             None \<Rightarrow> None
           | Some rs \<Rightarrow> Option.bind (rs_reference rs) parse_cross_protocol_ref)
      | _ \<Rightarrow> None)"

definition parent_protocol :: "protocol_definition \<Rightarrow> string \<Rightarrow> string" where
  "parent_protocol d protocol_path =
     (let segments = split_on slash protocol_path in
      if length segments \<noteq> 2 then pd_protocol d
      else case Option.bind (bt_get (pd_structure d) (segments ! 0)) rs_reference of
             None \<Rightarrow> pd_protocol d
           | Some reference \<Rightarrow>
               (case parse_cross_protocol_ref reference of
                  None \<Rightarrow> pd_protocol d
                | Some parsed \<Rightarrow>
                    (case Option.bind (pd_uses d) (\<lambda>uses. bt_get uses (cr_alias parsed)) of
                       None \<Rightarrow> pd_protocol d
                     | Some uri \<Rightarrow> uri)))"

section \<open>Comparison of authored policy\<close>

function strip_rule_sets :: "rule_map \<Rightarrow> rule_map" where
  "strip_rule_sets rules =
     map (\<lambda>(k, rs). (k, RuleSet None (rs_actions rs) (rs_role rs) (rs_reference rs) (rs_size rs)
                          (rs_tags rs) (rs_record_limit rs) (rs_immutable rs) (rs_delivery rs)
                          (rs_squash rs) (strip_rule_sets (rs_rules rs)))) rules"
  by pat_completeness auto
termination
  by (relation "measure structure_size") (auto simp: structure_size_child)

definition stripped_definition :: "protocol_definition \<Rightarrow> protocol_definition" where
  "stripped_definition d =
     d\<lparr>pd_key_agreement := None, pd_structure := strip_rule_sets (pd_structure d)\<rparr>"

definition authored_definitions_equal :: "protocol_definition \<Rightarrow> protocol_definition \<Rightarrow> bool" where
  "authored_definitions_equal l r = (stripped_definition l = stripped_definition r)"

section \<open>Names and URLs\<close>

type_synonym protocol_definition_error = string
type_synonym 'a checked = "(protocol_definition_error, 'a) result"

definition is_ascii_alphabetic :: "char \<Rightarrow> bool" where
  "is_ascii_alphabetic c = (let n = of_char c :: nat in 65 \<le> n \<and> n \<le> 90 \<or> 97 \<le> n \<and> n \<le> 122)"

definition is_ascii_alphanumeric :: "char \<Rightarrow> bool" where
  "is_ascii_alphanumeric c =
     (is_ascii_alphabetic c \<or> (let n = of_char c :: nat in 48 \<le> n \<and> n \<le> 57))"

fun is_valid_uses_alias :: "string \<Rightarrow> bool" where
  "is_valid_uses_alias [] = False"
| "is_valid_uses_alias (first # chars) =
     (is_ascii_alphabetic first \<and>
      list_all (\<lambda>c. is_ascii_alphanumeric c \<or> c = CHR ''_'' \<or> c = CHR ''-'') chars)"

definition child_protocol_path :: "string \<Rightarrow> string \<Rightarrow> string" where
  "child_protocol_path parent child = (if parent = [] then child else parent @ ''/'' @ child)"

definition has_url_scheme :: "string \<Rightarrow> bool" where
  "has_url_scheme v =
     (case split_once CHR '':'' v of
        None \<Rightarrow> False
      | Some (scheme, rest) \<Rightarrow>
          scheme \<noteq> []
          \<and> list_all (\<lambda>c. is_ascii_alphanumeric c \<or> c \<in> {CHR ''+'', CHR ''-'', CHR ''.''}) scheme
          \<and> (\<not> starts_with rest ''/'' \<or> starts_with rest ''//''))"

definition normalize_protocol_url :: "'x ext_scheme \<Rightarrow> string \<Rightarrow> string option" where
  "normalize_protocol_url E v =
     (case url_without_query E (if has_url_scheme v then v else ''http://'' @ v) of
        None \<Rightarrow> None
      | Some normalized \<Rightarrow>
          Some (if normalized \<noteq> [] \<and> last normalized = slash then butlast normalized
                else normalized))"

definition validate_normalized_protocol_url :: "'x ext_scheme \<Rightarrow> string \<Rightarrow> unit checked" where
  "validate_normalized_protocol_url E v =
     (case normalize_protocol_url E v of
        None \<Rightarrow> Inl ''UrlProtocolNotNormalized''
      | Some normalized \<Rightarrow>
          if v \<noteq> normalized then Inl ''UrlProtocolNotNormalized'' else Inr ())"

definition validate_normalized_schema_url :: "'x ext_scheme \<Rightarrow> string \<Rightarrow> unit checked" where
  "validate_normalized_schema_url E v =
     (case normalize_protocol_url E v of
        None \<Rightarrow> Inl ''UrlSchemaNotNormalized''
      | Some normalized \<Rightarrow>
          if v \<noteq> normalized then Inl ''UrlSchemaNotNormalized'' else Inr ())"

section \<open>Validation of a rule set\<close>

type_synonym uses_map = "(string, string) btree option"

definition validate_uses :: "'x ext_scheme \<Rightarrow> (string, string) btree \<Rightarrow> string \<Rightarrow> unit checked" where
  "validate_uses E uses own_protocol_uri =
     try_each (\<lambda>(alias, protocol_uri).
       if \<not> is_valid_uses_alias alias then Inl ''ProtocolsConfigureInvalidUsesAlias''
       else if \<not> is_ok (validate_normalized_protocol_url E protocol_uri)
         then Inl ''ProtocolsConfigureInvalidUsesProtocolUrl''
       else if protocol_uri = own_protocol_uri
         then Inl ''ProtocolsConfigureInvalidUsesSelfReference''
       else Inr ()) uses"

definition uses_has :: "uses_map \<Rightarrow> string \<Rightarrow> bool" where
  "uses_has uses alias = (Option.bind uses (\<lambda>u. bt_get u alias) \<noteq> None)"

definition validate_cross_protocol_alias ::
  "string \<Rightarrow> uses_map \<Rightarrow> protocol_definition_error \<Rightarrow> unit checked" where
  "validate_cross_protocol_alias v uses code =
     (case parse_cross_protocol_ref v of
        None \<Rightarrow> Inl code
      | Some parsed \<Rightarrow> if \<not> uses_has uses (cr_alias parsed) then Inl code else Inr ())"

definition validate_action_can :: "can list \<Rightarrow> unit checked" where
  "validate_action_can can =
     try_each (\<lambda>(action, code).
       if action \<in> set can \<and> CanCreate \<notin> set can then Inl code else Inr ())
       [(CanUpdate, ''ProtocolsConfigureInvalidActionUpdateWithoutCreate''),
        (CanDelete, ''ProtocolsConfigureInvalidActionDeleteWithoutCreate''),
        (CanPrune, ''ProtocolsConfigureInvalidActionPruneWithoutCreate'')]"

definition validate_of :: "string \<Rightarrow> string \<Rightarrow> uses_map \<Rightarrow> unit checked" where
  "validate_of protocol_path anc uses =
     (if parse_cross_protocol_ref anc \<noteq> None
        then validate_cross_protocol_alias anc uses ''ProtocolsConfigureInvalidCrossProtocolOf''
      else if protocol_path \<noteq> [] \<and> protocol_path \<noteq> anc
              \<and> \<not> starts_with protocol_path (anc @ ''/'')
        then Inl ''ProtocolsConfigureInvalidActionOfNotAnAncestor''
      else Inr ())"

text \<open>The loop of \<open>validate_actions\<close> carries the roles and the actors seen so far.\<close>

type_synonym seen_actions = "string list \<times> (who \<times> string option) list"

fun validate_action ::
  "string \<Rightarrow> string list \<Rightarrow> uses_map \<Rightarrow> action \<Rightarrow> seen_actions \<Rightarrow> seen_actions checked" where
  "validate_action protocol_path roles uses (ActionRole a) (seen_roles, seen_actors) =
     rbind
       (if parse_cross_protocol_ref (ar_role a) \<noteq> None
          then validate_cross_protocol_alias (ar_role a) uses ''ProtocolsConfigureInvalidCrossProtocolRole''
        else if ar_role a \<notin> set roles then Inl ''ProtocolsConfigureRoleDoesNotExistAtGivenPath''
        else Inr ())
       (\<lambda>_. if ar_role a \<in> set seen_roles then Inl ''ProtocolsConfigureDuplicateRoleInRuleSet''
            else rbind (validate_action_can (ar_can a))
                   (\<lambda>_. Inr (seen_roles @ [ar_role a], seen_actors)))"
| "validate_action protocol_path roles uses (ActionWho a) (seen_roles, seen_actors) =
     (if aw_who a = WhoAnyone \<and> aw_of a \<noteq> None then Inl ''ProtocolsConfigureInvalidActionOfNotAllowed''
      else if aw_who a = WhoRecipient \<and> aw_of a = None
              \<and> list_ex (\<lambda>c. c \<notin> {CanCoUpdate, CanCoDelete, CanCoPrune}) (aw_can a)
        then Inl ''ProtocolsConfigureInvalidRecipientOfAction''
      else if aw_who a = WhoAuthor \<and> aw_of a = None then Inl ''ProtocolsConfigureInvalidActionMissingOf''
      else rbind (case aw_of a of None \<Rightarrow> Inr () | Some anc \<Rightarrow> validate_of protocol_path anc uses)
        (\<lambda>_. if (aw_who a, aw_of a) \<in> set seen_actors
               then Inl ''ProtocolsConfigureDuplicateActorInRuleSet''
             else rbind (validate_action_can (aw_can a))
                    (\<lambda>_. Inr (seen_roles, seen_actors @ [(aw_who a, aw_of a)]))))"

definition validate_actions ::
  "string \<Rightarrow> action list \<Rightarrow> string list \<Rightarrow> uses_map \<Rightarrow> unit checked" where
  "validate_actions protocol_path actions roles uses =
     rbind (try_fold (validate_action protocol_path roles uses) actions ([], [])) (\<lambda>_. Inr ())"

fun anyone_issues :: "action \<Rightarrow> bool" where
  "anyone_issues (ActionWho a) =
     (aw_who a = WhoAnyone \<and> (CanCreate \<in> set (aw_can a) \<or> CanSquash \<in> set (aw_can a)))"
| "anyone_issues (ActionRole a) = False"

definition validate_role_record_issuance :: "rule_set \<Rightarrow> unit checked" where
  "validate_role_record_issuance rs =
     (if rs_role rs \<noteq> Some True then Inr ()
      else if \<not> list_ex anyone_issues (rs_actions rs) then Inr ()
      else Inl ''ProtocolsConfigureInvalidRoleIssuance'')"

definition validate_ref_node :: "rule_set \<Rightarrow> uses_map \<Rightarrow> unit checked" where
  "validate_ref_node rs uses =
     (case parse_cross_protocol_ref (case rs_reference rs of None \<Rightarrow> [] | Some r \<Rightarrow> r) of
        None \<Rightarrow> Inl ''ProtocolsConfigureInvalidRefAlias''
      | Some parsed \<Rightarrow>
          if \<not> uses_has uses (cr_alias parsed) then Inl ''ProtocolsConfigureInvalidRefAlias''
          else if rs_actions rs \<noteq> [] \<or> rs_role rs \<noteq> None \<or> rs_size rs \<noteq> None \<or> rs_tags rs \<noteq> None
                  \<or> rs_key_agreement rs \<noteq> None \<or> rs_record_limit rs \<noteq> None
                  \<or> rs_immutable rs \<noteq> None \<or> rs_delivery rs \<noteq> None \<or> rs_squash rs \<noteq> None
            then Inl ''ProtocolsConfigureInvalidRefNodeHasDirectives''
          else Inr ())"

definition path_encrypted :: "string \<Rightarrow> (string, type_spec) btree \<Rightarrow> bool" where
  "path_encrypted protocol_path types =
     (Option.bind (bt_get types (last (split_on slash protocol_path))) ts_encryption_required = Some True)"

fun anyone_reads :: "action \<Rightarrow> bool" where
  "anyone_reads (ActionWho a) = (aw_who a = WhoAnyone \<and> CanRead \<in> set (aw_can a))"
| "anyone_reads (ActionRole a) = False"

fun validate_read_role :: "rule_map \<Rightarrow> action \<Rightarrow> unit checked" where
  "validate_read_role root_structure (ActionWho a) = Inr ()"
| "validate_read_role root_structure (ActionRole a) =
     (if CanRead \<notin> set (ar_can a) then Inr ()
      else if parse_cross_protocol_ref (ar_role a) \<noteq> None
        then Inl ''ProtocolsConfigureInvalidEncryptedCrossProtocolRole''
      else if Option.bind (get_rule_set_at_path (ar_role a) root_structure) rs_key_agreement = None
        then Inl ''ProtocolsConfigureInvalidEncryptedRoleMissingKeyAgreement''
      else Inr ())"

definition validate_encrypted_path ::
  "string \<Rightarrow> rule_set \<Rightarrow> (string, type_spec) btree \<Rightarrow> rule_map \<Rightarrow> unit checked" where
  "validate_encrypted_path protocol_path rs types root_structure =
     (let enc = path_encrypted protocol_path types in
      if rs_role rs = Some True \<and> enc then Inl ''ProtocolsConfigureInvalidEncryptedRoleType''
      else if \<not> enc then Inr ()
      else if rs_key_agreement rs = None then Inl ''ProtocolsConfigureMissingEncryptedPathKeyAgreement''
      else if list_ex anyone_reads (rs_actions rs) then Inl ''ProtocolsConfigureInvalidEncryptedAnyoneRead''
      else try_each (validate_read_role root_structure) (rs_actions rs))"

definition validate_rule_set ::
  "string \<Rightarrow> rule_set \<Rightarrow> string list \<Rightarrow> uses_map \<Rightarrow> (string, type_spec) btree \<Rightarrow> rule_map
    \<Rightarrow> unit checked" where
  "validate_rule_set protocol_path rs roles uses types root_structure =
     rbind (if rs_reference rs \<noteq> None
            then if slash \<in> set protocol_path then Inl ''ProtocolsConfigureInvalidRefNotAtRoot''
                 else validate_ref_node rs uses
            else Inr ()) (\<lambda>_.
     rbind (case rs_size rs of
              None \<Rightarrow> Inr ()
            | Some sz \<Rightarrow>
                (case size_max sz of
                   None \<Rightarrow> Inr ()
                 | Some mx \<Rightarrow>
                     if mx < (case size_min sz of None \<Rightarrow> 0 | Some mn \<Rightarrow> mn)
                     then Inl ''ProtocolsConfigureInvalidSize'' else Inr ())) (\<lambda>_.
     rbind (case rs_record_limit rs of
              None \<Rightarrow> Inr ()
            | Some mx \<Rightarrow> if mx < 1 then Inl ''ProtocolsConfigureInvalidRecordLimit'' else Inr ()) (\<lambda>_.
     rbind (validate_actions protocol_path (rs_actions rs) roles uses) (\<lambda>_.
     rbind (validate_role_record_issuance rs) (\<lambda>_.
     rbind (validate_encrypted_path protocol_path rs types root_structure) (\<lambda>_. Inr ()))))))"

section \<open>Validation of a definition\<close>

function fetch_role_paths :: "string \<Rightarrow> rule_map \<Rightarrow> string list \<Rightarrow> string list checked" where
  "fetch_role_paths protocol_path rules roles =
     (if protocol_path \<noteq> [] \<and> length (split_on slash protocol_path) > 10
        then Inl ''ProtocolsConfigureRecordNestingDepthExceeded''
      else try_fold (\<lambda>kv roles.
             let child_path = child_protocol_path protocol_path (fst kv)
             in if rs_role (snd kv) = Some True then Inr (roles @ [child_path])
                else fetch_role_paths child_path (rs_rules (snd kv)) roles) rules roles)"
  by pat_completeness auto
termination
  by (relation "measure (\<lambda>(_, m, _). structure_size m)")
     (auto dest: structure_size_child [of "fst kv" "snd kv" for kv, simplified])

function validate_rule_map ::
  "string \<Rightarrow> rule_map \<Rightarrow> string list \<Rightarrow> string list \<Rightarrow> uses_map \<Rightarrow> (string, type_spec) btree
    \<Rightarrow> rule_map \<Rightarrow> unit checked" where
  "validate_rule_map protocol_path rules record_types roles uses types root_structure =
     try_each (\<lambda>kv.
       if rs_reference (snd kv) = None \<and> fst kv \<notin> set record_types
         then Inl ''ProtocolsConfigureInvalidRuleSetRecordType''
       else
         let child_path = child_protocol_path protocol_path (fst kv)
         in rbind (validate_rule_set child_path (snd kv) roles uses types root_structure)
              (\<lambda>_. validate_rule_map child_path (rs_rules (snd kv)) record_types roles uses types
                     root_structure)) rules"
  by pat_completeness auto
termination
  by (relation "measure (\<lambda>(_, m, _). structure_size m)")
     (auto dest: structure_size_child [of "fst kv" "snd kv" for kv, simplified])

definition validate_structure :: "protocol_definition \<Rightarrow> unit checked" where
  "validate_structure d =
     (if requires_encryption d \<and> pd_key_agreement d = None
        then Inl ''ProtocolsConfigureMissingTopLevelKeyAgreement''
      else rbind (fetch_role_paths [] (pd_structure d) [])
             (\<lambda>roles. validate_rule_map [] (pd_structure d) (map fst (pd_types d)) roles (pd_uses d)
                        (pd_types d) (pd_structure d)))"

definition validate_definition :: "'x ext_scheme \<Rightarrow> protocol_definition \<Rightarrow> unit checked" where
  "validate_definition E d =
     rbind (validate_normalized_protocol_url E (pd_protocol d)) (\<lambda>_.
     rbind (try_each (\<lambda>(_, t).
              case ts_schema t of
                None \<Rightarrow> Inr ()
              | Some schema \<Rightarrow>
                  if is_ok (validate_normalized_schema_url E schema) then Inr ()
                  else Inl ''UrlSchemaNotNormalized'') (pd_types d)) (\<lambda>_.
     rbind (case pd_uses d of None \<Rightarrow> Inr () | Some uses \<Rightarrow> validate_uses E uses (pd_protocol d)) (\<lambda>_.
     validate_structure d)))"

section \<open>The reserved namespace\<close>

fun as_object :: "json \<Rightarrow> (string \<times> json) list option" where
  "as_object (JObject kvs) = Some kvs"
| "as_object _ = None"

fun scan_reserved_namespace :: "json \<Rightarrow> string \<Rightarrow> unit checked" where
  "scan_reserved_namespace (JObject kvs) protocol_path =
     try_each (\<lambda>(record_type, child).
       if record_type = encryption_control_root_path
         then Inl ''ProtocolsConfigureReservedEncryptionControlPath''
       else if starts_with record_type ''$'' then Inr ()
       else scan_reserved_namespace child (child_protocol_path protocol_path record_type)) kvs"
| "scan_reserved_namespace _ protocol_path = Inr ()"

definition validate_reserved_control_namespace :: "json \<Rightarrow> unit checked" where
  "validate_reserved_control_namespace d =
     (case as_object d of
        None \<Rightarrow> Inr ()
      | Some kvs \<Rightarrow>
          (case Option.bind (map_of kvs ''types'') as_object of
             Some types \<Rightarrow>
               if map_of types encryption_control_root_path \<noteq> None
                 then Inl ''ProtocolsConfigureReservedEncryptionControlPath''
               else (case map_of kvs ''structure'' of
                       None \<Rightarrow> Inr () | Some s \<Rightarrow> scan_reserved_namespace s [])
           | None \<Rightarrow>
               (case map_of kvs ''structure'' of
                  None \<Rightarrow> Inr () | Some s \<Rightarrow> scan_reserved_namespace s [])))"

section \<open>Lemmas: paths\<close>

declare rule_set_has_encryption.simps [simp del]
  rule_set_allows_multi_party.simps [simp del]
  strip_rule_sets.simps [simp del]
  fetch_role_paths.simps [simp del]
  validate_rule_map.simps [simp del]

abbreviation path_segments :: "string \<Rightarrow> string list" where
  "path_segments p \<equiv> filter (\<lambda>s. s \<noteq> []) (split_on slash p)"

text \<open>
  A structure as it leaves the reader: entries in key order, and every record type a non-empty
  name without a slash (the JSON schema of protocol definitions admits no other key).
\<close>

function rule_map_wf :: "rule_map \<Rightarrow> bool" where
  "rule_map_wf m =
     (bt_sorted m \<and> list_all (\<lambda>kv. fst kv \<noteq> [] \<and> slash \<notin> set (fst kv) \<and> rule_map_wf (rs_rules (snd kv))) m)"
  by pat_completeness auto
termination
  by (relation "measure structure_size")
     (auto dest: structure_size_child [of "fst kv" "snd kv" for kv, simplified])

declare rule_map_wf.simps [simp del]

lemma rule_map_wf_entry:
  assumes "rule_map_wf m" and "(k, rs) \<in> set m"
  shows "bt_get m k = Some rs" and "k \<noteq> []" and "slash \<notin> set k" and "rule_map_wf (rs_rules rs)"
  using assms by (auto simp: rule_map_wf.simps [of m] list_all_iff bt_get_iff_in)

lemma child_path_join:
  "\<lbrakk>[] \<notin> set segs; [] \<notin> set pre\<rbrakk>
    \<Longrightarrow> foldl child_protocol_path (join_on slash pre) segs = join_on slash (pre @ segs)"
proof (induction segs arbitrary: pre)
  case (Cons s segs)
  have "child_protocol_path (join_on slash pre) s = join_on slash (pre @ [s])"
    using Cons.prems by (simp add: child_protocol_path_def join_on_snoc join_on_eq_Nil)
  with Cons.IH [of "pre @ [s]"] Cons.prems show ?case by simp
qed simp

lemma walk_filter:
  "segs \<noteq> [] \<Longrightarrow> rule_set_walk segs m r = rule_set_walk segs m r'"
  by (cases segs) auto

lemma walk_Nil_None: "rule_set_walk segs m None = Some rs \<Longrightarrow> segs \<noteq> []"
  by (cases segs) auto

section \<open>Lemmas: what validation establishes\<close>

lemma validate_rule_map_entry:
  assumes "validate_rule_map path m rts roles uses types root = Inr ()" and "(k, rs) \<in> set m"
  shows "rs_reference rs = None \<longrightarrow> k \<in> set rts"
    and "validate_rule_set (child_protocol_path path k) rs roles uses types root = Inr ()"
    and "validate_rule_map (child_protocol_path path k) (rs_rules rs) rts roles uses types root = Inr ()"
proof -
  have "\<forall>kv \<in> set m. is_ok (if rs_reference (snd kv) = None \<and> fst kv \<notin> set rts
      then Inl ''ProtocolsConfigureInvalidRuleSetRecordType''
      else rbind (validate_rule_set (child_protocol_path path (fst kv)) (snd kv) roles uses types root)
        (\<lambda>_. validate_rule_map (child_protocol_path path (fst kv)) (rs_rules (snd kv)) rts roles uses
               types root))"
    using assms(1)
    unfolding validate_rule_map.simps [of path m] try_each_Inr_iff Let_def .
  from bspec [OF this assms(2)]
  show "rs_reference rs = None \<longrightarrow> k \<in> set rts"
    and "validate_rule_set (child_protocol_path path k) rs roles uses types root = Inr ()"
    and "validate_rule_map (child_protocol_path path k) (rs_rules rs) rts roles uses types root = Inr ()"
    by (auto simp: is_ok_unit_iff rbind_Inr_iff split: if_splits)
qed

lemma validate_rule_map_walk:
  "\<lbrakk>validate_rule_map path m rts roles uses types root = Inr (); rule_set_walk segs m r = Some rs; segs \<noteq> []\<rbrakk>
    \<Longrightarrow> (rs_reference rs = None \<longrightarrow> last segs \<in> set rts)
      \<and> validate_rule_set (foldl child_protocol_path path segs) rs roles uses types root = Inr ()"
proof (induction segs arbitrary: path m r)
  case (Cons s segs)
  from Cons.prems(2) obtain nxt where nxt: "bt_get m s = Some nxt"
    and walk: "rule_set_walk segs (rs_rules nxt) (Some nxt) = Some rs"
    by (auto split: option.splits)
  note entry = validate_rule_map_entry [OF Cons.prems(1) bt_get_SomeD [OF nxt]]
  show ?case
  proof (cases "segs = []")
    case True
    with walk entry show ?thesis by simp
  next
    case False
    with Cons.IH [OF entry(3) walk False] show ?thesis by simp
  qed
qed simp

lemma validate_definition_structure:
  "validate_definition E d = Inr () \<Longrightarrow> validate_structure d = Inr ()"
  by (auto simp: validate_definition_def rbind_Inr_iff)

lemma validate_structure_rule:
  assumes "validate_structure d = Inr ()" and "rule_at d p = Some rs"
  obtains roles where "fetch_role_paths [] (pd_structure d) [] = Inr roles"
    and "rs_reference rs = None \<longrightarrow> last (path_segments p) \<in> fst ` set (pd_types d)"
    and "validate_rule_set (join_on slash (path_segments p)) rs roles (pd_uses d) (pd_types d)
           (pd_structure d) = Inr ()"
proof -
  from assms(1) obtain roles where roles: "fetch_role_paths [] (pd_structure d) [] = Inr roles"
    and vmap: "validate_rule_map [] (pd_structure d) (map fst (pd_types d)) roles (pd_uses d)
      (pd_types d) (pd_structure d) = Inr ()"
    by (auto simp: validate_structure_def rbind_Inr_iff split: if_splits)
  have walk: "rule_set_walk (path_segments p) (pd_structure d) None = Some rs"
    using assms(2) by (simp add: rule_at_def rule_set_at_path_def)
  have "foldl child_protocol_path [] (path_segments p) = join_on slash (path_segments p)"
    using child_path_join [of "path_segments p" "[]"] by simp
  with validate_rule_map_walk [OF vmap walk walk_Nil_None [OF walk]] roles that show ?thesis
    by auto
qed

lemma validate_rule_set_parts:
  assumes "validate_rule_set path rs roles uses types root = Inr ()"
  shows "rs_reference rs \<noteq> None \<longrightarrow> slash \<notin> set path \<and> validate_ref_node rs uses = Inr ()"
    and "rs_size rs = Some sz \<Longrightarrow> size_max sz = Some mx \<Longrightarrow>
           (case size_min sz of None \<Rightarrow> 0 | Some mn \<Rightarrow> mn) \<le> mx"
    and "rs_record_limit rs = Some lim \<Longrightarrow> lim \<noteq> 0"
    and "validate_actions path (rs_actions rs) roles uses = Inr ()"
    and "validate_role_record_issuance rs = Inr ()"
    and "validate_encrypted_path path rs types root = Inr ()"
  using assms
  by (auto simp: validate_rule_set_def rbind_Inr_iff not_less split: if_splits option.splits)

text \<open>Every collected role path leads to a rule set marked as a role.\<close>

definition role_at :: "string \<Rightarrow> rule_map \<Rightarrow> string \<Rightarrow> bool" where
  "role_at path m r \<longleftrightarrow>
     (\<exists>segs rs. r = foldl child_protocol_path path segs \<and> rule_set_walk segs m None = Some rs
        \<and> rs_role rs = Some True \<and> (\<forall>s \<in> set segs. s \<noteq> [] \<and> slash \<notin> set s))"

lemma role_at_entry:
  assumes "rule_map_wf m" and "(k, rs) \<in> set m"
  shows "rs_role rs = Some True \<Longrightarrow> role_at path m (child_protocol_path path k)"
    and "role_at (child_protocol_path path k) (rs_rules rs) r \<Longrightarrow> role_at path m r"
proof -
  note entry = rule_map_wf_entry [OF assms]
  show "role_at path m (child_protocol_path path k)" if "rs_role rs = Some True"
    unfolding role_at_def using entry that by (intro exI [of _ "[k]"]) auto
  show "role_at path m r" if "role_at (child_protocol_path path k) (rs_rules rs) r"
  proof -
    from that obtain segs rs' where segs: "r = foldl child_protocol_path (child_protocol_path path k) segs"
      "rule_set_walk segs (rs_rules rs) None = Some rs'" "rs_role rs' = Some True"
      "\<forall>s \<in> set segs. s \<noteq> [] \<and> slash \<notin> set s"
      by (auto simp: role_at_def)
    have "rule_set_walk segs (rs_rules rs) (Some rs) = Some rs'"
      using segs(2) walk_filter [OF walk_Nil_None [OF segs(2)]] by metis
    then show ?thesis
      unfolding role_at_def using entry segs by (intro exI [of _ "k # segs"]) auto
  qed
qed

lemma fetch_role_paths_sound:
  "\<lbrakk>fetch_role_paths path m roles = Inr roles'; rule_map_wf m\<rbrakk>
    \<Longrightarrow> \<forall>r \<in> set roles'. r \<in> set roles \<or> role_at path m r"
proof (induction path m roles arbitrary: roles' rule: fetch_role_paths.induct)
  case (1 path m roles)
  let ?f = "\<lambda>kv roles. let child_path = child_protocol_path path (fst kv)
    in if rs_role (snd kv) = Some True then Inr (roles @ [child_path])
       else fetch_role_paths child_path (rs_rules (snd kv)) roles"
  from 1(2) have deep: "\<not> (path \<noteq> [] \<and> 10 < length (split_on slash path))"
    and fold: "try_fold ?f m roles = Inr roles'"
    by (auto simp only: fetch_role_paths.simps [of path m roles] split: if_splits)
  show ?case
  proof (rule try_fold_invariant [OF fold])
    show "\<forall>r \<in> set roles. r \<in> set roles \<or> role_at path m r" by simp
  next
    fix kv s s'
    assume kv: "kv \<in> set m" and step: "?f kv s = Inr s'"
      and inv: "\<forall>r \<in> set s. r \<in> set roles \<or> role_at path m r"
    obtain k rs where [simp]: "kv = (k, rs)" by (cases kv)
    note entry = role_at_entry [OF 1(3) kv [simplified]] rule_map_wf_entry(4) [OF 1(3) kv [simplified]]
    show "\<forall>r \<in> set s'. r \<in> set roles \<or> role_at path m r"
    proof (cases "rs_role rs = Some True")
      case True
      with step inv entry(1) [of path] show ?thesis by (auto simp: Let_def)
    next
      case False
      with step have "fetch_role_paths (child_protocol_path path k) (rs_rules rs) s = Inr s'"
        by (simp add: Let_def)
      with 1(1) [OF deep kv, of "child_protocol_path path k" s s'] False entry(3)
      have "\<forall>r \<in> set s'. r \<in> set s \<or> role_at (child_protocol_path path k) (rs_rules rs) r"
        by simp
      with inv entry(2) [of path] show ?thesis by blast
    qed
  qed
qed

lemma fetch_role_paths_entry:
  assumes "fetch_role_paths path m roles = Inr roles'" and "bt_get m k = Some rs"
    and "rs_role rs \<noteq> Some True"
  shows "\<exists>u u'. fetch_role_paths (child_protocol_path path k) (rs_rules rs) u = Inr u'"
proof -
  have "\<exists>u u'. (let child_path = child_protocol_path path (fst (k, rs))
      in if rs_role (snd (k, rs)) = Some True then Inr (u @ [child_path])
         else fetch_role_paths child_path (rs_rules (snd (k, rs))) u) = Inr u'"
    using assms(1) bt_get_SomeD [OF assms(2)]
    by (intro try_fold_each [of _ m roles roles'])
       (auto simp only: fetch_role_paths.simps [of path m roles] split: if_splits)
  with assms(3) show ?thesis by (simp add: Let_def)
qed

lemma fetch_role_paths_walk:
  "\<lbrakk>fetch_role_paths path m roles = Inr roles'; rule_set_walk segs m r0 = Some rs; segs \<noteq> [];
    \<And>k rq. 0 < k \<Longrightarrow> k \<le> length segs \<Longrightarrow> rule_set_walk (take k segs) m None = Some rq
       \<Longrightarrow> rs_role rq \<noteq> Some True\<rbrakk>
    \<Longrightarrow> \<exists>u u'. fetch_role_paths (foldl child_protocol_path path segs) (rs_rules rs) u = Inr u'"
proof (induction segs arbitrary: path m roles roles' r0)
  case (Cons s segs)
  from Cons.prems(2) obtain nxt where nxt: "bt_get m s = Some nxt"
    and walk: "rule_set_walk segs (rs_rules nxt) (Some nxt) = Some rs"
    by (auto split: option.splits)
  have "rs_role nxt \<noteq> Some True" using Cons.prems(4) [of 1 nxt] nxt by simp
  from fetch_role_paths_entry [OF Cons.prems(1) nxt this] obtain u u'
    where fetch: "fetch_role_paths (child_protocol_path path s) (rs_rules nxt) u = Inr u'" by blast
  show ?case
  proof (cases "segs = []")
    case True
    with walk fetch show ?thesis by auto
  next
    case False
    have "rs_role rq \<noteq> Some True" if "0 < k" "k \<le> length segs"
      "rule_set_walk (take k segs) (rs_rules nxt) None = Some rq" for k rq
    proof -
      have "rule_set_walk (take k segs) (rs_rules nxt) (Some nxt) = Some rq"
        using that walk_filter [of "take k segs"] walk_Nil_None [OF that(3)] by metis
      with Cons.prems(4) [of "Suc k" rq] that nxt show ?thesis by simp
    qed
    from Cons.IH [OF fetch walk False this] show ?thesis by simp
  qed
qed simp

lemma join_segments:
  assumes "\<forall>s \<in> set segs. s \<noteq> [] \<and> slash \<notin> set s" and "segs \<noteq> []"
  shows "path_segments (join_on slash segs) = segs"
  using assms by (simp add: split_join filter_id_conv)

lemma validated_action:
  assumes "validate_actions path actions roles uses = Inr ()" and "a \<in> set actions"
  obtains seen seen' where "validate_action path roles uses a seen = Inr seen'"
proof -
  from assms(1) obtain s where "try_fold (validate_action path roles uses) actions ([], []) = Inr s"
    by (auto simp: validate_actions_def rbind_Inr_iff)
  from try_fold_each [OF this assms(2)] that show ?thesis by blast
qed

lemma validated_role_action:
  assumes "validate_action path roles uses (ActionRole a) seen = Inr seen'"
  shows "case parse_cross_protocol_ref (ar_role a) of
           Some c \<Rightarrow> uses_has uses (cr_alias c) | None \<Rightarrow> ar_role a \<in> set roles"
  using assms
  by (cases seen)
     (auto simp: rbind_Inr_iff validate_cross_protocol_alias_def split: if_splits option.splits)

lemma collected_role_resolves:
  assumes "fetch_role_paths [] (pd_structure d) [] = Inr roles" and "rule_map_wf (pd_structure d)"
    and "r \<in> set roles"
  obtains rr where "rule_at d r = Some rr" and "rs_role rr = Some True"
proof -
  from fetch_role_paths_sound [OF assms(1,2)] assms(3) have "role_at [] (pd_structure d) r" by auto
  then obtain segs rr where segs: "r = foldl child_protocol_path [] segs"
    and walk: "rule_set_walk segs (pd_structure d) None = Some rr" and role: "rs_role rr = Some True"
    and parts: "\<forall>s \<in> set segs. s \<noteq> [] \<and> slash \<notin> set s"
    by (auto simp: role_at_def)
  have "r = join_on slash segs"
    using child_path_join [of segs "[]"] parts segs by auto
  then have "rule_at d r = Some rr"
    using walk join_segments [OF parts walk_Nil_None [OF walk]]
    by (simp add: rule_at_def rule_set_at_path_def)
  with role that show ?thesis by blast
qed

lemma strip_lookup:
  "bt_get (strip_rule_sets m) k =
     map_option (\<lambda>rs. RuleSet None (rs_actions rs) (rs_role rs) (rs_reference rs) (rs_size rs)
                  (rs_tags rs) (rs_record_limit rs) (rs_immutable rs) (rs_delivery rs)
                  (rs_squash rs) (strip_rule_sets (rs_rules rs))) (bt_get m k)"
  unfolding strip_rule_sets.simps [of m] bt_get_def by (induction m) auto

definition same_directives :: "rule_set \<Rightarrow> rule_set \<Rightarrow> bool" where
  "same_directives a b \<longleftrightarrow>
     rs_actions a = rs_actions b \<and> rs_role a = rs_role b \<and> rs_reference a = rs_reference b
     \<and> rs_size a = rs_size b \<and> rs_tags a = rs_tags b \<and> rs_record_limit a = rs_record_limit b
     \<and> rs_immutable a = rs_immutable b \<and> rs_delivery a = rs_delivery b \<and> rs_squash a = rs_squash b"

lemma stripped_walk:
  "\<lbrakk>strip_rule_sets m = strip_rule_sets n; rel_option same_directives r s\<rbrakk>
    \<Longrightarrow> rel_option same_directives (rule_set_walk segs m r) (rule_set_walk segs n s)"
proof (induction segs arbitrary: m n r s)
  case (Cons k segs)
  from arg_cong [OF Cons.prems(1), of "\<lambda>x. bt_get x k"]
  consider "bt_get m k = None" "bt_get n k = None"
    | a b where "bt_get m k = Some a" "bt_get n k = Some b" "same_directives a b"
        "strip_rule_sets (rs_rules a) = strip_rule_sets (rs_rules b)"
    by (cases "bt_get m k"; cases "bt_get n k") (auto simp: strip_lookup same_directives_def)
  then show ?case by cases (auto intro!: Cons.IH)
qed simp

section \<open>Example definitions\<close>

definition chat_definition :: protocol_definition where
  "chat_definition =
     \<lparr>pd_protocol = ''http://chat'', pd_published = True,
      pd_uses = Some [(''peer'', ''http://peer'')],
      pd_key_agreement = Some ''root-key'',
      pd_types =
        [(''member'', \<lparr>ts_schema = None, ts_data_formats = None, ts_encryption_required = None\<rparr>),
         (''note'', \<lparr>ts_schema = None, ts_data_formats = None, ts_encryption_required = Some True\<rparr>),
         (''thread'', \<lparr>ts_schema = None, ts_data_formats = None, ts_encryption_required = None\<rparr>)],
      pd_structure =
        [(''other'', RuleSet None [] None (Some ''peer:thread'') None None None None None None []),
         (''thread'', RuleSet None [] None None None None None None None None
            [(''member'', RuleSet (Some ''member-key'')
                [ActionWho \<lparr>aw_who = WhoAuthor, aw_of = Some ''thread'', aw_can = [CanCreate]\<rparr>]
                (Some True) None None None None None None None []),
             (''note'', RuleSet (Some ''note-key'')
                [ActionRole \<lparr>ar_role = ''thread/member'', ar_can = [CanCreate, CanRead]\<rparr>]
                None None (Some \<lparr>size_min = None, size_max = Some 100\<rparr>) None (Some 3) None None None
                [])])]\<rparr>"

text \<open>A role at the root and a chain of eleven more record types below it.\<close>

fun chain_of :: "nat \<Rightarrow> rule_map" where
  "chain_of 0 = []"
| "chain_of (Suc n) = [(''item'', RuleSet None [] None None None None None None None None (chain_of n))]"

definition deep_definition :: "bool option \<Rightarrow> protocol_definition" where
  "deep_definition role =
     \<lparr>pd_protocol = ''http://deep'', pd_published = True, pd_uses = None, pd_key_agreement = None,
      pd_types = [(''item'', \<lparr>ts_schema = None, ts_data_formats = None, ts_encryption_required = None\<rparr>)],
      pd_structure = [(''item'', RuleSet None [] role None None None None None None None (chain_of 11))]\<rparr>"

lemma chat_definition_valid: "validate_definition plain_ext chat_definition = Inr ()"
  by code_simp

lemma chat_definition_wf: "rule_map_wf (pd_structure chat_definition)"
  by code_simp

section \<open>Properties\<close>

lemma path_encrypted_requires:
  "path_encrypted p (pd_types d) \<Longrightarrow> requires_encryption d"
  by (auto simp: path_encrypted_def requires_encryption_def list_ex_iff Option.bind_eq_Some_conv
      dest!: bt_get_SomeD)

text \<open>
  C17: in a definition that passes validation, a path whose record type requires encryption is
  never a role path, has its own key agreement below a top-level key agreement, lets nobody
  read as \<open>anyone\<close>, and every role it lets read is a role of this protocol whose rule set
  exists and has key agreement.
\<close>

theorem encrypted_paths_confidential:
  assumes "validate_definition E d = Inr ()" and "rule_at d p = Some rs"
    and "path_encrypted (join_on slash (path_segments p)) (pd_types d)"
  shows "rs_role rs \<noteq> Some True \<and> rs_key_agreement rs \<noteq> None \<and> pd_key_agreement d \<noteq> None
    \<and> (\<forall>a. ActionWho a \<in> set (rs_actions rs) \<longrightarrow> aw_who a = WhoAnyone \<longrightarrow> CanRead \<notin> set (aw_can a))
    \<and> (\<forall>a. ActionRole a \<in> set (rs_actions rs) \<longrightarrow> CanRead \<in> set (ar_can a) \<longrightarrow>
          parse_cross_protocol_ref (ar_role a) = None
          \<and> (\<exists>rr. rule_at d (ar_role a) = Some rr \<and> rs_key_agreement rr \<noteq> None))"
proof -
  note struct = validate_definition_structure [OF assms(1)]
  have top: "pd_key_agreement d \<noteq> None"
    using struct path_encrypted_requires [OF assms(3)]
    by (auto simp: validate_structure_def split: if_splits)
  obtain roles where "validate_rule_set (join_on slash (path_segments p)) rs roles (pd_uses d)
      (pd_types d) (pd_structure d) = Inr ()"
    by (rule validate_structure_rule [OF struct assms(2)])
  from validate_rule_set_parts(6) [OF this] assms(3)
  have checks: "rs_role rs \<noteq> Some True" "rs_key_agreement rs \<noteq> None"
      "\<not> list_ex anyone_reads (rs_actions rs)"
    and roles: "try_each (validate_read_role (pd_structure d)) (rs_actions rs) = Inr ()"
    by (auto simp: validate_encrypted_path_def Let_def split: if_splits)
  have "parse_cross_protocol_ref (ar_role a) = None
      \<and> (\<exists>rr. rule_at d (ar_role a) = Some rr \<and> rs_key_agreement rr \<noteq> None)"
    if "ActionRole a \<in> set (rs_actions rs)" "CanRead \<in> set (ar_can a)" for a
    using roles that
    by (auto simp: try_each_Inr_iff rule_at_def get_rule_set_at_path_def Option.bind_eq_None_conv
        dest!: bspec split: if_splits)
  with top checks show ?thesis by (fastforce simp: list_ex_iff)
qed

theorem encrypted_paths_confidential_witness:
  "rs_key_agreement (the (rule_at chat_definition ''thread/note'')) \<noteq> None"
proof -
  have "rule_at chat_definition ''thread/note'' = Some (the (rule_at chat_definition ''thread/note''))"
    and "path_encrypted (join_on slash (path_segments ''thread/note'')) (pd_types chat_definition)"
    by code_simp+
  from encrypted_paths_confidential [OF chat_definition_valid this] show ?thesis by blast
qed



text \<open>
  In a definition that passes validation, a rule set with \<open>$ref\<close> sits at the root of the
  structure, carries no directive of its own, and its children belong to the referenced
  protocol, which is never the composing protocol itself; every other rule set is of a record
  type the definition declares.
\<close>

theorem references_attach_at_root:
  assumes "validate_definition E d = Inr ()" and "rule_at d p = Some rs"
    and "slash \<notin> set child"
  shows "case rs_reference rs of
           None \<Rightarrow> bt_contains (pd_types d) (last (path_segments p))
         | Some _ \<Rightarrow> (\<exists>root. path_segments p = [root] \<and> rs_actions rs = [] \<and> rs_role rs = None
             \<and> rs_key_agreement rs = None \<and> parent_protocol d (root @ ''/'' @ child) \<noteq> pd_protocol d)"
proof -
  note struct = validate_definition_structure [OF assms(1)]
  obtain roles where decl: "rs_reference rs = None \<longrightarrow> last (path_segments p) \<in> fst ` set (pd_types d)"
    and rule: "validate_rule_set (join_on slash (path_segments p)) rs roles (pd_uses d)
      (pd_types d) (pd_structure d) = Inr ()"
    by (rule validate_structure_rule [OF struct assms(2)])
  show ?thesis
  proof (cases "rs_reference rs")
    case None
    with decl show ?thesis by (simp add: bt_contains_def bt_get_None_iff)
  next
    case (Some reference)
    from validate_rule_set_parts(1) [OF rule] Some
    have root: "slash \<notin> set (join_on slash (path_segments p))" and node: "validate_ref_node rs (pd_uses d) = Inr ()"
      by auto
    have walk: "rule_set_walk (path_segments p) (pd_structure d) None = Some rs"
      using assms(2) by (simp add: rule_at_def rule_set_at_path_def)
    obtain r where r: "path_segments p = [r]"
      using root walk_Nil_None [OF walk]
      by (cases "path_segments p" rule: remdups_adj.cases) auto
    then have "r \<in> set (path_segments p)" by simp
    then have r_in: "r \<in> set (split_on slash p)" by simp
    from node Some obtain c uses uri where c: "parse_cross_protocol_ref reference = Some c"
      and uses: "pd_uses d = Some uses" "bt_get uses (cr_alias c) = Some uri"
      and bare: "rs_actions rs = []" "rs_role rs = None" "rs_key_agreement rs = None"
      by (auto simp: validate_ref_node_def uses_has_def Option.bind_eq_Some_conv
          split: option.splits if_splits)
    have "validate_uses E uses (pd_protocol d) = Inr ()"
      using assms(1) uses(1) by (auto simp: validate_definition_def rbind_Inr_iff)
    then have other: "uri \<noteq> pd_protocol d"
      using bt_get_SomeD [OF uses(2)]
      by (auto simp: validate_uses_def try_each_Inr_iff dest!: bspec split: if_splits)
    have "split_on slash (r @ slash # child) = [r, child]"
      using split_on_parts [OF r_in] assms(3) by (simp add: split_on_append_sep split_on_no_sep)
    moreover have "bt_get (pd_structure d) r = Some rs"
      using walk r by (auto split: option.splits)
    ultimately have "parent_protocol d (r @ ''/'' @ child) = uri"
      using c uses Some by (simp add: parent_protocol_def)
    with Some r bare other show ?thesis by simp
  qed
qed

theorem references_attach_at_root_witness:
  "parent_protocol chat_definition ''other/note'' \<noteq> pd_protocol chat_definition"
proof -
  let ?rs = "the (rule_at chat_definition ''other'')"
  have "rule_at chat_definition ''other'' = Some ?rs" and "rs_reference ?rs = Some ''peer:thread''"
    and "slash \<notin> set ''note''" and "path_segments ''other'' = [''other'']"
    by code_simp+
  with references_attach_at_root [OF chat_definition_valid this(1,3)] show ?thesis by auto
qed

text \<open>
  The nesting limit of validation. A path of a valid definition that crosses no role has at
  most ten segments.
\<close>

theorem nesting_depth_bounded:
  assumes "validate_definition E d = Inr ()" and "rule_map_wf (pd_structure d)"
    and "rule_at d p = Some rs"
    and "\<forall>k rq. 0 < k \<and> rule_at d (join_on slash (take k (path_segments p))) = Some rq
           \<longrightarrow> rs_role rq \<noteq> Some True"
  shows "length (path_segments p) \<le> 10"
proof -
  obtain roles where fetch: "fetch_role_paths [] (pd_structure d) [] = Inr roles"
    by (rule validate_structure_rule [OF validate_definition_structure [OF assms(1)] assms(3)])
  have walk: "rule_set_walk (path_segments p) (pd_structure d) None = Some rs"
    using assms(3) by (simp add: rule_at_def rule_set_at_path_def)
  have segs: "path_segments (join_on slash (take k (path_segments p))) = take k (path_segments p)"
    if "0 < k" for k
    using that walk_Nil_None [OF walk] split_on_parts [of _ slash p]
    by (intro join_segments) (auto dest: in_set_takeD)
  have no_role: "rs_role rq \<noteq> Some True" if "0 < k" "k \<le> length (path_segments p)"
    "rule_set_walk (take k (path_segments p)) (pd_structure d) None = Some rq" for k rq
    using assms(4) [rule_format, of k rq] that segs [OF that(1)]
    by (simp add: rule_at_def rule_set_at_path_def)
  have "\<exists>u u'. fetch_role_paths (foldl child_protocol_path [] (path_segments p)) (rs_rules rs) u = Inr u'"
    by (rule fetch_role_paths_walk [OF fetch walk walk_Nil_None [OF walk]]) (rule no_role)
  then obtain u u' where deep: "fetch_role_paths (foldl child_protocol_path [] (path_segments p)) (rs_rules rs) u = Inr u'"
    by blast
  let ?j = "join_on slash (path_segments p)"
  have "fetch_role_paths ?j (rs_rules rs) u = Inr u'"
    using deep child_path_join [of "path_segments p" "[]"] by simp
  moreover have "?j \<noteq> []"
    using walk_Nil_None [OF walk] by (simp add: join_on_eq_Nil)
  ultimately have depth: "length (split_on slash ?j) \<le> 10"
    by (auto simp: fetch_role_paths.simps [of ?j] split: if_splits)
  have same: "path_segments ?j = path_segments p"
    using segs [of "length (path_segments p) + 1"] by simp
  have "length (path_segments ?j) \<le> 10"
    using length_filter_le [of "\<lambda>s. s \<noteq> []" "split_on slash ?j"] depth by (rule le_trans)
  then show ?thesis unfolding same .
qed

theorem nesting_depth_bounded_witness: "length (path_segments ''thread'') \<le> 10"
proof -
  let ?rs = "the (rule_at chat_definition ''thread'')"
  have at: "rule_at chat_definition ''thread'' = Some ?rs" and role: "rs_role ?rs = None"
    and segs: "path_segments ''thread'' = [''thread'']"
    by code_simp+
  have "\<forall>k rq. 0 < k \<and> rule_at chat_definition (join_on slash (take k (path_segments ''thread''))) = Some rq
      \<longrightarrow> rs_role rq \<noteq> Some True"
    using at role unfolding segs by (auto simp: take_Cons')
  from nesting_depth_bounded [OF chat_definition_valid chat_definition_wf at this] show ?thesis .
qed


text \<open>
  C20: two definitions with equal authored policy prescribe the same directives at every path:
  either both have a rule set there, and the two agree on everything but key agreement, or
  neither has.
\<close>

theorem authored_equality_preserves_policy:
  assumes "authored_definitions_equal l r"
  shows "pd_types l = pd_types r \<and> pd_uses l = pd_uses r
    \<and> rel_option same_directives (rule_at l p) (rule_at r p)"
proof -
  have "strip_rule_sets (pd_structure l) = strip_rule_sets (pd_structure r)"
    and "pd_types l = pd_types r" and "pd_uses l = pd_uses r"
    using assms
    by (cases l; cases r; simp add: authored_definitions_equal_def stripped_definition_def)+
  with stripped_walk [of "pd_structure l" "pd_structure r" None None] show ?thesis
    by (simp add: rule_at_def rule_set_at_path_def)
qed

theorem authored_equality_preserves_policy_witness:
  "authored_definitions_equal chat_definition (chat_definition\<lparr>pd_key_agreement := None\<rparr>)
   \<and> rel_option same_directives (rule_at chat_definition ''thread/note'')
       (rule_at (chat_definition\<lparr>pd_key_agreement := None\<rparr>) ''thread/note'')"
proof -
  have "authored_definitions_equal chat_definition (chat_definition\<lparr>pd_key_agreement := None\<rparr>)"
    by (simp add: authored_definitions_equal_def stripped_definition_def chat_definition_def)
  with authored_equality_preserves_policy [OF this] show ?thesis by blast
qed

end
