(* ===== verification/Messages.thy ===== *)
theory Messages
  imports Protocols
begin

text \<open>
  Messages: descriptors of the three interfaces (\<open>interfaces/messages/descriptors\<close>), the fields
  that travel beside a descriptor (\<open>fields.rs\<close>, \<open>auth/authorization.rs\<close>), the message kind
  (\<open>kind.rs\<close>) and the accessors the handlers and stores use.

  The CID of a message is the DAG-CBOR hash of its JSON form; encoder and hash are third-party
  code. The record \<open>mext\<close> extends \<open>ext\<close> by the two functions the sources obtain from
  them: the CID of a message and the CID of a write descriptor together with its author.
\<close>

section \<open>Queries\<close>

record progress_token =
  pt_stream_id :: string
  pt_epoch :: string
  pt_position :: string
  pt_message_cid :: "string option"

record cursor =
  cu_cursor :: cid
  cu_value :: "val option"

record pagination =
  pg_cursor :: "cursor option"
  pg_limit :: "u64 option"

datatype sort_direction = Ascending | Descending

datatype message_sort =
    SortDateCreated sort_direction
  | SortDatePublished sort_direction
  | SortTimestamp sort_direction

definition message_sort_default :: message_sort where
  "message_sort_default = SortTimestamp Ascending"

fun get_direction :: "message_sort \<Rightarrow> sort_direction" where
  "get_direction (SortDateCreated d) = d"
| "get_direction (SortDatePublished d) = d"
| "get_direction (SortTimestamp d) = d"

record 'a query_return =
  qr_items :: "'a list"
  qr_cursor :: "cursor option"

section \<open>Descriptors\<close>

datatype date_sort =
    CreatedAscending | CreatedDescending | PublishedAscending | PublishedDescending
  | UpdatedAscending | UpdatedDescending

record records_read_descriptor =
  rrd_message_timestamp :: instant
  rrd_filter :: records_filter
  rrd_permission_grant_id :: "string option"
  rrd_date_sort :: "date_sort option"

record records_count_descriptor =
  rcd_message_timestamp :: instant
  rcd_permission_grant_id :: "string option"
  rcd_filter :: records_filter

record records_query_descriptor =
  rqd_message_timestamp :: instant
  rqd_filter :: records_filter
  rqd_pagination :: "pagination option"
  rqd_permission_grant_id :: "string option"
  rqd_date_sort :: "date_sort option"

record write_descriptor =
  wd_protocol :: string
  wd_protocol_path :: string
  wd_recipient :: "string option"
  wd_schema :: "string option"
  wd_tags :: "map_value option"
  wd_parent_id :: "string option"
  wd_data_cid :: string
  wd_data_size :: u64
  wd_date_created :: instant
  wd_message_timestamp :: instant
  wd_published :: "bool option"
  wd_date_published :: "instant option"
  wd_data_format :: string
  wd_permission_grant_id :: "string option"
  wd_squash :: "bool option"

record records_subscribe_descriptor =
  rsd_message_timestamp :: instant
  rsd_filter :: records_filter
  rsd_date_sort :: "date_sort option"
  rsd_permission_grant_id :: "string option"
  rsd_pagination :: "pagination option"
  rsd_cursor :: "progress_token option"

record delete_descriptor =
  dd_message_timestamp :: instant
  dd_permission_grant_id :: "string option"
  dd_record_id :: string
  dd_prune :: bool

datatype records =
    RecordsRead records_read_descriptor
  | RecordsCount records_count_descriptor
  | RecordsQuery records_query_descriptor
  | RecordsWrite write_descriptor
  | RecordsSubscribe records_subscribe_descriptor
  | RecordsDelete delete_descriptor

record protocols_query_filter =
  pqf_protocol :: "string option"
  pqf_recipient :: "string option"

record configure_descriptor =
  cd_message_timestamp :: instant
  cd_definition :: protocol_definition
  cd_permission_grant_id :: "string option"

record protocols_query_descriptor =
  pqd_message_timestamp :: instant
  pqd_filter :: "protocols_query_filter option"
  pqd_permission_grant_id :: "string option"

datatype protocols =
    ProtocolsConfigure configure_descriptor
  | ProtocolsQuery protocols_query_descriptor

record messages_read_descriptor =
  mrd_message_timestamp :: instant
  mrd_message_cid :: "cid option"
  mrd_permission_grant_ids :: "string list option"

record messages_query_descriptor =
  mqd_message_timestamp :: instant
  mqd_filters :: "messages_filter list"
  mqd_permission_grant_ids :: "string list option"
  mqd_cursor :: "progress_token option"
  mqd_limit :: "u64 option"
  mqd_cids_only :: "bool option"

record messages_subscribe_descriptor =
  msd_message_timestamp :: instant
  msd_filters :: "messages_filter list"
  msd_permission_grant_ids :: "string list option"
  msd_cursor :: "progress_token option"

datatype sync_action = SyncRoot | SyncSubtree | SyncLeaves | SyncDiff

record messages_sync_descriptor =
  myd_message_timestamp :: instant
  myd_action :: sync_action
  myd_protocol :: "string option"
  myd_prefix :: "string option"
  myd_permission_grant_ids :: "string list option"
  myd_hashes :: "(string, string) btree option"
  myd_depth :: "16 word option"

datatype messages =
    MessagesRead messages_read_descriptor
  | MessagesQuery messages_query_descriptor
  | MessagesSubscribe messages_subscribe_descriptor
  | MessagesSync messages_sync_descriptor

datatype descriptor =
    DescriptorRecords records
  | DescriptorProtocols protocols
  | DescriptorMessages messages

section \<open>Fields\<close>

record jws_signature =
  js_protected :: "string option"
  js_signature :: "string option"
  js_extra :: map_value

record jws =
  jws_payload :: "string option"
  jws_signatures :: "jws_signature list option"
  jws_header :: "map_value option"
  jws_extra :: map_value

definition jws_default :: jws where
  "jws_default = \<lparr>jws_payload = None, jws_signatures = None, jws_header = None, jws_extra = []\<rparr>"

text \<open>The two algorithm tags have a single value each and are left out.\<close>

datatype key_encryption =
    KeyProtocolPath (ke_key_id: string) (ke_ephemeral_public_key: jwk) (ke_encrypted_key: string)
  | KeyRoleAudience (ke_key_id: string) (ke_ephemeral_public_key: jwk) (ke_encrypted_key: string)
      (ke_protocol: string) (ke_role_path: string)

record encryption_envelope =
  ee_initialization_vector :: string
  ee_key_encryption :: "key_encryption list"

datatype authorization =
  Authorization
    (au_signature: jws)
    (au_author_delegated_grant: "write_message option")
    (au_owner_signature: "jws option")
    (au_owner_delegated_grant: "write_message option")
and write_fields =
  WriteFields
    (wf_authorization: authorization)
    (wf_record_id: "string option")
    (wf_context_id: "string option")
    (wf_encryption: "encryption_envelope option")
    (wf_attestation: "jws option")
    (wf_encoded_data: "string option")
and write_message =
  WriteMessage
    (wm_descriptor: write_descriptor)
    (wm_fields: write_fields)

datatype initial_write_field =
  InitialWriteField
    (iw_write_fields: write_fields)
    (iw_initial_write: "write_message option")

datatype fields =
    FieldsWrite write_fields
  | FieldsInitialWrite initial_write_field
  | FieldsAuthorization authorization

record message =
  msg_descriptor :: descriptor
  msg_fields :: fields

definition authorization_default :: authorization where
  "authorization_default = Authorization jws_default None None None"

definition authorization_is_empty :: "authorization \<Rightarrow> bool" where
  "authorization_is_empty a =
     (au_signature a = jws_default \<and> au_author_delegated_grant a = None
      \<and> au_owner_signature a = None \<and> au_owner_delegated_grant a = None)"

fun fields_authorization :: "fields \<Rightarrow> authorization" where
  "fields_authorization (FieldsWrite f) = wf_authorization f"
| "fields_authorization (FieldsInitialWrite f) = wf_authorization (iw_write_fields f)"
| "fields_authorization (FieldsAuthorization a) = a"

fun with_authorization :: "authorization \<Rightarrow> write_fields \<Rightarrow> write_fields" where
  "with_authorization a (WriteFields _ r c e t d) = WriteFields a r c e t d"

fun set_authorization :: "authorization \<Rightarrow> fields \<Rightarrow> fields" where
  "set_authorization a (FieldsWrite f) = FieldsWrite (with_authorization a f)"
| "set_authorization a (FieldsInitialWrite (InitialWriteField f w)) =
     FieldsInitialWrite (InitialWriteField (with_authorization a f) w)"
| "set_authorization a (FieldsAuthorization _) = FieldsAuthorization a"

fun with_encoded_data :: "string option \<Rightarrow> write_fields \<Rightarrow> write_fields" where
  "with_encoded_data d (WriteFields a r c e t _) = WriteFields a r c e t d"

text \<open>\<open>MessageFields::encoded_data\<close> of the union takes the data out of a plain write only.\<close>

fun take_encoded_data :: "fields \<Rightarrow> val option \<times> fields" where
  "take_encoded_data (FieldsWrite f) =
     (map_option VString (wf_encoded_data f), FieldsWrite (with_encoded_data None f))"
| "take_encoded_data f = (None, f)"

section \<open>Kinds\<close>

datatype records_method =
  MRecordsRead | MRecordsCount | MRecordsQuery | MRecordsWrite | MRecordsSubscribe | MRecordsDelete

datatype protocols_method = MProtocolsConfigure | MProtocolsQuery

datatype messages_method = MMessagesRead | MMessagesQuery | MMessagesSubscribe | MMessagesSync

datatype interface = IRecords | IProtocols | IMessages

datatype message_kind =
    KindRecords records_method
  | KindProtocols protocols_method
  | KindMessages messages_method

fun interface_as_str :: "interface \<Rightarrow> string" where
  "interface_as_str IRecords = ''Records''"
| "interface_as_str IProtocols = ''Protocols''"
| "interface_as_str IMessages = ''Messages''"

definition interface_from_str :: "string \<Rightarrow> interface option" where
  "interface_from_str s =
     (if s = ''Records'' then Some IRecords
      else if s = ''Protocols'' then Some IProtocols
      else if s = ''Messages'' then Some IMessages
      else None)"

fun kind_interface :: "message_kind \<Rightarrow> interface" where
  "kind_interface (KindRecords _) = IRecords"
| "kind_interface (KindProtocols _) = IProtocols"
| "kind_interface (KindMessages _) = IMessages"

fun kind_method :: "message_kind \<Rightarrow> string" where
  "kind_method (KindRecords MRecordsRead) = ''Read''"
| "kind_method (KindRecords MRecordsCount) = ''Count''"
| "kind_method (KindRecords MRecordsQuery) = ''Query''"
| "kind_method (KindRecords MRecordsWrite) = ''Write''"
| "kind_method (KindRecords MRecordsSubscribe) = ''Subscribe''"
| "kind_method (KindRecords MRecordsDelete) = ''Delete''"
| "kind_method (KindProtocols MProtocolsConfigure) = ''Configure''"
| "kind_method (KindProtocols MProtocolsQuery) = ''Query''"
| "kind_method (KindMessages MMessagesRead) = ''Read''"
| "kind_method (KindMessages MMessagesQuery) = ''Query''"
| "kind_method (KindMessages MMessagesSubscribe) = ''Subscribe''"
| "kind_method (KindMessages MMessagesSync) = ''Sync''"

definition all_kinds :: "message_kind list" where
  "all_kinds =
     map KindRecords [MRecordsRead, MRecordsCount, MRecordsQuery, MRecordsWrite, MRecordsSubscribe,
       MRecordsDelete]
     @ map KindProtocols [MProtocolsConfigure, MProtocolsQuery]
     @ map KindMessages [MMessagesRead, MMessagesQuery, MMessagesSubscribe, MMessagesSync]"

definition kind_as_str :: "message_kind \<Rightarrow> string" where
  "kind_as_str k = interface_as_str (kind_interface k) @ kind_method k"

definition kind_from_parts :: "string \<Rightarrow> string \<Rightarrow> message_kind option" where
  "kind_from_parts interface method =
     (case interface_from_str interface of
        None \<Rightarrow> None
      | Some i \<Rightarrow> find (\<lambda>k. kind_interface k = i \<and> kind_method k = method) all_kinds)"

fun kind_of :: "descriptor \<Rightarrow> message_kind" where
  "kind_of (DescriptorRecords (RecordsRead _)) = KindRecords MRecordsRead"
| "kind_of (DescriptorRecords (RecordsCount _)) = KindRecords MRecordsCount"
| "kind_of (DescriptorRecords (RecordsQuery _)) = KindRecords MRecordsQuery"
| "kind_of (DescriptorRecords (RecordsWrite _)) = KindRecords MRecordsWrite"
| "kind_of (DescriptorRecords (RecordsSubscribe _)) = KindRecords MRecordsSubscribe"
| "kind_of (DescriptorRecords (RecordsDelete _)) = KindRecords MRecordsDelete"
| "kind_of (DescriptorProtocols (ProtocolsConfigure _)) = KindProtocols MProtocolsConfigure"
| "kind_of (DescriptorProtocols (ProtocolsQuery _)) = KindProtocols MProtocolsQuery"
| "kind_of (DescriptorMessages (MessagesRead _)) = KindMessages MMessagesRead"
| "kind_of (DescriptorMessages (MessagesQuery _)) = KindMessages MMessagesQuery"
| "kind_of (DescriptorMessages (MessagesSubscribe _)) = KindMessages MMessagesSubscribe"
| "kind_of (DescriptorMessages (MessagesSync _)) = KindMessages MMessagesSync"

fun message_timestamp :: "descriptor \<Rightarrow> instant" where
  "message_timestamp (DescriptorRecords (RecordsRead d)) = rrd_message_timestamp d"
| "message_timestamp (DescriptorRecords (RecordsCount d)) = rcd_message_timestamp d"
| "message_timestamp (DescriptorRecords (RecordsQuery d)) = rqd_message_timestamp d"
| "message_timestamp (DescriptorRecords (RecordsWrite d)) = wd_message_timestamp d"
| "message_timestamp (DescriptorRecords (RecordsSubscribe d)) = rsd_message_timestamp d"
| "message_timestamp (DescriptorRecords (RecordsDelete d)) = dd_message_timestamp d"
| "message_timestamp (DescriptorProtocols (ProtocolsConfigure d)) = cd_message_timestamp d"
| "message_timestamp (DescriptorProtocols (ProtocolsQuery d)) = pqd_message_timestamp d"
| "message_timestamp (DescriptorMessages (MessagesRead d)) = mrd_message_timestamp d"
| "message_timestamp (DescriptorMessages (MessagesQuery d)) = mqd_message_timestamp d"
| "message_timestamp (DescriptorMessages (MessagesSubscribe d)) = msd_message_timestamp d"
| "message_timestamp (DescriptorMessages (MessagesSync d)) = myd_message_timestamp d"

datatype grant_invocation = GrantNone | GrantSingle string | GrantMulti "string list"

definition single_permission_grant_invocation :: "string option \<Rightarrow> grant_invocation" where
  "single_permission_grant_invocation i = (case i of None \<Rightarrow> GrantNone | Some g \<Rightarrow> GrantSingle g)"

definition multi_permission_grant_invocation :: "string list option \<Rightarrow> grant_invocation" where
  "multi_permission_grant_invocation i = (case i of None \<Rightarrow> GrantNone | Some g \<Rightarrow> GrantMulti g)"

fun permission_grant_invocation :: "descriptor \<Rightarrow> grant_invocation" where
  "permission_grant_invocation (DescriptorRecords r) =
     single_permission_grant_invocation
       (case r of RecordsRead d \<Rightarrow> rrd_permission_grant_id d
                | RecordsCount d \<Rightarrow> rcd_permission_grant_id d
                | RecordsQuery d \<Rightarrow> rqd_permission_grant_id d
                | RecordsWrite d \<Rightarrow> wd_permission_grant_id d
                | RecordsSubscribe d \<Rightarrow> rsd_permission_grant_id d
                | RecordsDelete d \<Rightarrow> dd_permission_grant_id d)"
| "permission_grant_invocation (DescriptorProtocols p) =
     single_permission_grant_invocation
       (case p of ProtocolsConfigure d \<Rightarrow> cd_permission_grant_id d
                | ProtocolsQuery d \<Rightarrow> pqd_permission_grant_id d)"
| "permission_grant_invocation (DescriptorMessages m) =
     (case m of MessagesRead d \<Rightarrow> multi_permission_grant_invocation (mrd_permission_grant_ids d)
              | MessagesQuery d \<Rightarrow> multi_permission_grant_invocation (mqd_permission_grant_ids d)
              | MessagesSubscribe d \<Rightarrow> multi_permission_grant_invocation (msd_permission_grant_ids d)
              | MessagesSync d \<Rightarrow> GrantNone)"

section \<open>Accessors of write messages\<close>

record mext = ext +
  cid_of_message :: "message \<Rightarrow> cid option"
  cid_of_entry :: "string \<Rightarrow> write_descriptor \<Rightarrow> cid option"

datatype records_write_descriptor_error = NotRecords | NotWrite

fun records_write_descriptor_error_text :: "records_write_descriptor_error \<Rightarrow> string" where
  "records_write_descriptor_error_text NotRecords =
     ''RecordsWriteDescriptorExpected: message is not a Records message''"
| "records_write_descriptor_error_text NotWrite =
     ''RecordsWriteDescriptorExpected: message is not RecordsWrite''"

definition records_write_descriptor ::
  "message \<Rightarrow> (records_write_descriptor_error, write_descriptor) result" where
  "records_write_descriptor m =
     (case msg_descriptor m of
        DescriptorRecords (RecordsWrite d) \<Rightarrow> Inr d
      | DescriptorRecords _ \<Rightarrow> Inl NotWrite
      | _ \<Rightarrow> Inl NotRecords)"

definition write_fields :: "message \<Rightarrow> (string, write_fields) result" where
  "write_fields m =
     (case msg_fields m of
        FieldsWrite f \<Rightarrow> Inr f
      | FieldsInitialWrite f \<Rightarrow> Inr (iw_write_fields f)
      | FieldsAuthorization _ \<Rightarrow> Inl ''RecordsWriteFieldsExpected: write fields are required'')"

definition record_id :: "message \<Rightarrow> string option" where
  "record_id m = (case write_fields m of Inl _ \<Rightarrow> None | Inr f \<Rightarrow> wf_record_id f)"

text \<open>\<open>write_fields_mut\<close>: the fields are updated in place, in either envelope.\<close>

fun update_write_fields :: "(write_fields \<Rightarrow> write_fields) \<Rightarrow> fields \<Rightarrow> fields" where
  "update_write_fields g (FieldsWrite f) = FieldsWrite (g f)"
| "update_write_fields g (FieldsInitialWrite (InitialWriteField f w)) =
     FieldsInitialWrite (InitialWriteField (g f) w)"
| "update_write_fields g (FieldsAuthorization a) = FieldsAuthorization a"

definition without_encoded_data :: "message \<Rightarrow> message" where
  "without_encoded_data m = m\<lparr>msg_fields := update_write_fields (with_encoded_data None) (msg_fields m)\<rparr>"

definition strip_encoded_data :: "message \<Rightarrow> (string, string option \<times> message) result" where
  "strip_encoded_data m =
     rbind (write_fields m) (\<lambda>f. Inr (wf_encoded_data f, without_encoded_data m))"

text \<open>\<open>generate_message_cid_from_json\<close> drops the transport-only inline data first.\<close>

definition message_cid :: "'x mext_scheme \<Rightarrow> message \<Rightarrow> (string, cid) result" where
  "message_cid E m = ok_or ''cid encoding failed'' (cid_of_message E (without_encoded_data m))"

definition entry_id :: "'x mext_scheme \<Rightarrow> string \<Rightarrow> write_descriptor \<Rightarrow> (string, string) result" where
  "entry_id E author d = ok_or ''cid encoding failed'' (cid_of_entry E author d)"

definition is_initial_write :: "'x mext_scheme \<Rightarrow> message \<Rightarrow> string \<Rightarrow> (string, bool) result" where
  "is_initial_write E m author =
     (case records_write_descriptor m of
        Inl e \<Rightarrow> Inl (records_write_descriptor_error_text e)
      | Inr d \<Rightarrow>
          (case record_id m of
             None \<Rightarrow> Inr False
           | Some r \<Rightarrow> rbind (entry_id E author d) (\<lambda>i. Inr (i = r))))"

definition write_tag_protocol :: "message \<Rightarrow> string option" where
  "write_tag_protocol m =
     (case records_write_descriptor m of
        Inl _ \<Rightarrow> None
      | Inr d \<Rightarrow>
          (case Option.bind (wd_tags d) (\<lambda>tags. bt_get tags ''protocol'') of
             Some (VString s) \<Rightarrow> Some s
           | _ \<Rightarrow> None))"

text \<open>A concrete instance on which statements are evaluated.\<close>

definition plain_mext :: mext where
  "plain_mext = ext.extend plain_ext
     \<lparr>cid_of_message = (\<lambda>m. Some (''bafy'' @ kind_as_str (kind_of (msg_descriptor m))
        @ nat_to_string (nat (message_timestamp (msg_descriptor m))))),
      cid_of_entry = (\<lambda>author d. Some (''bafy'' @ author @ wd_data_cid d))\<rparr>"

section \<open>Lemmas\<close>

lemma with_encoded_data_simps [simp]:
  "wf_record_id (with_encoded_data d f) = wf_record_id f"
  "wf_encoded_data (with_encoded_data d f) = d"
  "with_encoded_data d (with_encoded_data d' f) = with_encoded_data d f"
  by (cases f; simp)+

lemma without_encoded_data_simps [simp]:
  "msg_descriptor (without_encoded_data m) = msg_descriptor m"
  "without_encoded_data (without_encoded_data m) = without_encoded_data m"
  "record_id (without_encoded_data m) = record_id m"
  "records_write_descriptor (without_encoded_data m) = records_write_descriptor m"
  by (cases m; cases "msg_fields m" rule: update_write_fields.cases [of "(g, f)" for g f, simplified];
      simp add: without_encoded_data_def record_id_def write_fields_def records_write_descriptor_def)+

lemma message_cid_without_encoded_data [simp]:
  "message_cid E (without_encoded_data m) = message_cid E m"
  by (simp add: message_cid_def)

lemma kind_from_parts_kind:
  "kind_from_parts (interface_as_str (kind_interface k)) (kind_method k) = Some k"
  by (cases k rule: kind_method.cases)
     (simp_all add: kind_from_parts_def interface_from_str_def all_kinds_def)

section \<open>Example messages\<close>

definition sample_write :: "instant \<Rightarrow> message" where
  "sample_write t =
     \<lparr>msg_descriptor = DescriptorRecords (RecordsWrite
        \<lparr>wd_protocol = ''http://chat'', wd_protocol_path = ''thread'', wd_recipient = None,
         wd_schema = None, wd_tags = None, wd_parent_id = None, wd_data_cid = ''data'',
         wd_data_size = 4, wd_date_created = 1, wd_message_timestamp = t, wd_published = None,
         wd_date_published = None, wd_data_format = ''text'', wd_permission_grant_id = None,
         wd_squash = None\<rparr>),
      msg_fields = FieldsWrite (WriteFields authorization_default (Some ''rec'') None None None None)\<rparr>"

definition sample_delete :: "instant \<Rightarrow> bool \<Rightarrow> message" where
  "sample_delete t prune =
     \<lparr>msg_descriptor = DescriptorRecords (RecordsDelete
        \<lparr>dd_message_timestamp = t, dd_permission_grant_id = None, dd_record_id = ''rec'',
         dd_prune = prune\<rparr>),
      msg_fields = FieldsAuthorization authorization_default\<rparr>"

end
