(* ===== verification/Feed.thy ===== *)
theory Feed
  imports Messages
begin

text \<open>
  The durable replication feed: store errors (\<open>errors.rs\<close>), the event and progress types of
  \<open>stores/mod.rs\<close>, and every function of \<open>stores/replication_feed_reader.rs\<close> (stream
  identifiers, fingerprint scopes and their XOR aggregates, feed positions, progress tokens and
  their validation).
\<close>

section \<open>Errors\<close>

datatype message_replication_error =
    FingerprintScopesMismatch
  | FeedPositionOverflow
  | InvalidEncodedData
  | MissingMessageCid string
  | CidsMismatch string string
  | MissingMessage string

datatype store_error =
    OpenError string
  | NoInitError
  | InternalException string
  | IncompatibleDatabase string string
  | NotFound
  | ReplicationError message_replication_error

datatype message_store_error =
    MessageStoreError store_error
  | MessageEncodeError string
  | MessageDecodeError string
  | SerdeEncodeError string
  | SerdeDecodeError string
  | CidEncodeError string
  | CidDecodeError string
  | MessageQueryError string
  | MessageFilterError string

datatype resumable_task_store_error =
    TaskStoreError store_error
  | TaskQueryError string
  | TaskFilterError string
  | TaskIdDecodeError string

datatype progress_gap_reason =
  TokenTooOld | EpochMismatch | StreamMismatch | TokenTooNew | MessageMismatch

record progress_gap_info =
  pgi_requested :: progress_token
  pgi_oldest_available :: progress_token
  pgi_latest_available :: progress_token
  pgi_reason :: progress_gap_reason

datatype event_log_error =
    ProgressGap progress_gap_info
  | InvalidProgressToken string
  | EventStoreError store_error
  | EventFilterError string
  | EventQueryError string
  | UnsupportedReadOption string
  | EventLogClosed

section \<open>Events\<close>

record message_event =
  me_message :: message
  me_initial_write :: "write_message option"

record event_log_entry =
  ele_seq :: string
  ele_event :: message_event
  ele_indexes :: key_values
  ele_message_cid :: "string option"
  ele_encoded_data :: "string option"

record event_log_read_options =
  ro_cursor :: "progress_token option"
  ro_limit :: "u64 option"
  ro_filters :: "filters option"

definition event_log_read_options_default :: event_log_read_options where
  "event_log_read_options_default = \<lparr>ro_cursor = None, ro_limit = None, ro_filters = None\<rparr>"

record event_log_read_result =
  rr_events :: "event_log_entry list"
  rr_cursor :: "progress_token option"
  rr_drained :: bool

record wake =
  wake_tenant :: string
  wake_position :: u64

type_synonym feed_position = u64
type_synonym replication_bounds = "progress_token \<times> progress_token"

section \<open>Digests and their text\<close>

text \<open>Byte \<open>i\<close> of a \<open>[u8; 32]\<close>, and two lowercase hexadecimal digits per byte.\<close>

definition byte_at :: "bytes32 \<Rightarrow> nat \<Rightarrow> u8" where
  "byte_at h i = ucast (drop_bit (8 * (31 - i)) h)"

definition hex_digit :: "nat \<Rightarrow> char" where
  "hex_digit n = (if n < 10 then char_of (48 + n) else char_of (87 + n))"

definition hex_byte :: "u8 \<Rightarrow> string" where
  "hex_byte b = [hex_digit (unat b div 16), hex_digit (unat b mod 16)]"

type_synonym fingerprint = bytes32

definition fingerprint_hex :: "fingerprint \<Rightarrow> string" where
  "fingerprint_hex h = concat (map (\<lambda>i. hex_byte (byte_at h i)) [0..<32])"

definition derive_stream_id :: "'x ext_scheme \<Rightarrow> string \<Rightarrow> string" where
  "derive_stream_id E tenant =
     concat (map (\<lambda>i. hex_byte (byte_at (sha256 E (as_bytes tenant)) i)) [0..<8])"

section \<open>Feed membership and fingerprint scopes\<close>

definition is_feed_message :: "message \<Rightarrow> bool" where
  "is_feed_message m =
     (case msg_descriptor m of
        DescriptorRecords r \<Rightarrow> (case r of RecordsWrite _ \<Rightarrow> True | RecordsDelete _ \<Rightarrow> True | _ \<Rightarrow> False)
      | DescriptorProtocols p \<Rightarrow> (case p of ProtocolsConfigure _ \<Rightarrow> True | _ \<Rightarrow> False)
      | DescriptorMessages _ \<Rightarrow> False)"

definition string_index :: "key_values \<Rightarrow> string \<Rightarrow> string option" where
  "string_index indexes key =
     (case bt_get indexes key of Some (VString v) \<Rightarrow> Some v | _ \<Rightarrow> None)"

definition global_domain :: string where
  "global_domain = ''''"

definition permissions_protocol_uri :: string where
  "permissions_protocol_uri = ''https://identity.foundation/dwn/permissions''"

definition protocol_fingerprint_scope :: "string \<Rightarrow> string" where
  "protocol_fingerprint_scope protocol = ''protocol:'' @ protocol"

definition permission_fingerprint_scope :: "string \<Rightarrow> string" where
  "permission_fingerprint_scope protocol = ''perm:'' @ protocol"

definition fingerprint_scopes :: "string option \<Rightarrow> key_values \<Rightarrow> string list" where
  "fingerprint_scopes descriptor_tag_proto indexes =
     (case string_index indexes ''protocol'' of
        None \<Rightarrow> [global_domain]
      | Some protocol \<Rightarrow>
          let scopes = [global_domain, protocol_fingerprint_scope protocol];
              tagged = (case string_index indexes ''tag.protocol'' of
                          Some t \<Rightarrow> Some t | None \<Rightarrow> descriptor_tag_proto)
          in if protocol = permissions_protocol_uri
             then (case tagged of
                     Some t \<Rightarrow> scopes @ [permission_fingerprint_scope t] | None \<Rightarrow> scopes)
             else scopes)"

definition normalize_scopes :: "string list \<Rightarrow> string list" where
  "normalize_scopes scopes = dedup (sort scopes)"

definition scopes_unchanged :: "string list \<Rightarrow> string list \<Rightarrow> bool" where
  "scopes_unchanged given current = (dedup (sort given) = dedup (sort current))"

definition cid_contribution :: "'x ext_scheme \<Rightarrow> string \<Rightarrow> fingerprint" where
  "cid_contribution E mcid = sha256 E (as_bytes mcid)"

definition xor_in_place :: "fingerprint \<Rightarrow> fingerprint \<Rightarrow> fingerprint" where
  "xor_in_place target contribution = (target XOR contribution)"

type_synonym fingerprint_map = "(string \<times> string, fingerprint) btree"

definition fold_cid_into_domain ::
  "'x ext_scheme \<Rightarrow> string \<Rightarrow> string \<Rightarrow> string list \<Rightarrow> fingerprint_map \<Rightarrow> fingerprint_map" where
  "fold_cid_into_domain E tenant mcid scopes fingerprints =
     foldl (\<lambda>fps scope.
       bt_insert (tenant, scope)
         (xor_in_place (bt_get_or 0 fps (tenant, scope)) (cid_contribution E mcid)) fps)
       fingerprints scopes"

section \<open>Positions and tokens\<close>

definition build_token :: "'x ext_scheme \<Rightarrow> string \<Rightarrow> string \<Rightarrow> u64 \<Rightarrow> string option \<Rightarrow> progress_token" where
  "build_token E tenant epoch seq mcid =
     \<lparr>pt_stream_id = derive_stream_id E tenant, pt_epoch = epoch,
      pt_position = u64_to_string seq, pt_message_cid = mcid\<rparr>"

definition parse_feed_position :: "string \<Rightarrow> (event_log_error, feed_position) result" where
  "parse_feed_position position =
     (case parse_u64 position of
        None \<Rightarrow> Inl (InvalidProgressToken position)
      | Some parsed \<Rightarrow>
          if u64_to_string parsed \<noteq> position then Inl (InvalidProgressToken position)
          else Inr parsed)"

record feed_cursor_state =
  fcs_expected_stream_id :: string
  fcs_expected_epoch :: string
  fcs_head :: feed_position
  fcs_oldest_replayable :: feed_position
  fcs_message_cid_at_position :: "string option"
  fcs_bounds :: "replication_bounds option"

definition feed_progress_gap ::
  "progress_token \<Rightarrow> replication_bounds option \<Rightarrow> progress_gap_reason \<Rightarrow> event_log_error" where
  "feed_progress_gap requested bounds reason =
     (let (oldest, latest) = (case bounds of None \<Rightarrow> (requested, requested) | Some b \<Rightarrow> b)
      in ProgressGap \<lparr>pgi_requested = requested, pgi_oldest_available = oldest,
           pgi_latest_available = latest, pgi_reason = reason\<rparr>)"

definition validate_feed_cursor ::
  "progress_token \<Rightarrow> feed_cursor_state \<Rightarrow> (event_log_error, feed_position) result" where
  "validate_feed_cursor cursor s =
     (if pt_stream_id cursor \<noteq> fcs_expected_stream_id s
        then Inl (feed_progress_gap cursor (fcs_bounds s) StreamMismatch)
      else if pt_epoch cursor \<noteq> fcs_expected_epoch s
        then Inl (feed_progress_gap cursor (fcs_bounds s) EpochMismatch)
      else rbind (parse_feed_position (pt_position cursor)) (\<lambda>position.
        if fcs_head s < position then Inl (feed_progress_gap cursor (fcs_bounds s) TokenTooNew)
        else if position < fcs_oldest_replayable s
          then Inl (feed_progress_gap cursor (fcs_bounds s) TokenTooOld)
        else
          (case (pt_message_cid cursor, fcs_message_cid_at_position s) of
             (Some expected, Some actual) \<Rightarrow>
               if expected \<noteq> actual
                 then Inl (feed_progress_gap cursor (fcs_bounds s) MessageMismatch)
               else Inr position
           | _ \<Rightarrow> Inr position)))"

section \<open>Lemmas\<close>

definition token_position :: "progress_token \<Rightarrow> u64" where
  "token_position token = (case parse_feed_position (pt_position token) of Inl _ \<Rightarrow> 0 | Inr p \<Rightarrow> p)"

lemma scopes_unchanged_iff: "scopes_unchanged given current \<longleftrightarrow> set given = set current"
  by (simp add: scopes_unchanged_def dedup_sort_eq_iff)

lemma set_normalize_scopes [simp]: "set (normalize_scopes scopes) = set scopes"
  by (simp add: normalize_scopes_def)

lemma distinct_normalize_scopes [simp]: "distinct (normalize_scopes scopes)"
  using sorted_dedup [of "sort scopes"] by (simp add: normalize_scopes_def)

lemma distinct_fingerprint_scopes [simp]: "distinct (fingerprint_scopes tag indexes)"
  by (auto simp: fingerprint_scopes_def global_domain_def protocol_fingerprint_scope_def
      permission_fingerprint_scope_def Let_def split: option.splits)

lemma fold_cid_lookup:
  "distinct scopes \<Longrightarrow>
     bt_get_or 0 (fold_cid_into_domain E tenant c scopes fps) (t, s) =
       (if t = tenant \<and> s \<in> set scopes then cid_contribution E c XOR bt_get_or 0 fps (t, s)
        else bt_get_or 0 fps (t, s))"
proof (induction scopes arbitrary: fps)
  case (Cons x scopes)
  let ?fps = "bt_insert (tenant, x) (xor_in_place (bt_get_or 0 fps (tenant, x)) (cid_contribution E c)) fps"
  have step: "fold_cid_into_domain E tenant c (x # scopes) fps = fold_cid_into_domain E tenant c scopes ?fps"
    by (simp add: fold_cid_into_domain_def)
  have look: "bt_get_or 0 ?fps (t, s) =
      (if t = tenant \<and> s = x then cid_contribution E c XOR bt_get_or 0 fps (t, s)
       else bt_get_or 0 fps (t, s))"
    by (simp add: bt_get_or_def bt_get_insert xor_in_place_def xor.commute split: option.splits)
  show ?case
    unfolding step Cons.IH [OF distinct.simps(2) [THEN iffD1, THEN conjunct2, OF Cons.prems]] look
    using Cons.prems by auto
qed (simp add: fold_cid_into_domain_def)

lemma parse_feed_position_token [simp]: "parse_feed_position (u64_to_string w) = Inr w"
  by (simp add: parse_feed_position_def)

lemma parse_feed_position_Inr: "parse_feed_position p = Inr w \<longleftrightarrow> p = u64_to_string w"
  by (auto simp: parse_feed_position_def split: option.splits if_splits)

lemma build_token_simps [simp]:
  "pt_stream_id (build_token E t ep w c) = derive_stream_id E t"
  "pt_epoch (build_token E t ep w c) = ep"
  "pt_position (build_token E t ep w c) = u64_to_string w"
  "pt_message_cid (build_token E t ep w c) = c"
  by (simp_all add: build_token_def)

lemma token_position_build [simp]: "token_position (build_token E t ep w c) = w"
  by (simp add: token_position_def)

lemma hex_byte_inject: "hex_byte a = hex_byte b \<longleftrightarrow> a = b"
proof -
  have code: "of_char (hex_digit m) = (if m < 10 then 48 + m else 87 + m)" if "m < 16" for m :: nat
    using that by (simp add: hex_digit_def)
  have inj: "m = n" if "hex_digit m = hex_digit n" "m < 16" "n < 16" for m n :: nat
    using arg_cong [OF that(1), of "of_char :: char \<Rightarrow> nat"] code [OF that(2)] code [OF that(3)]
      that(2,3)
    by (simp split: if_splits)
  have lt: "unat w div 16 < 16" "unat w mod 16 < 16" for w :: u8
    using unsigned_less [of w, where 'a = nat] by auto
  show ?thesis
  proof
    assume "hex_byte a = hex_byte b"
    then have "unat a div 16 = unat b div 16" "unat a mod 16 = unat b mod 16"
      by (auto simp: hex_byte_def intro!: inj lt)
    then have "unat a = unat b" by (metis div_mult_mod_eq)
    then show "a = b" by (simp add: word_unat_eq_iff)
  qed simp
qed

lemma byte_at_bit: "n < 256 \<Longrightarrow> bit (byte_at h (31 - n div 8)) (n mod 8) = bit h n"
proof -
  assume "n < 256"
  then have idx: "8 * (31 - (31 - n div 8)) + n mod 8 = n" by simp
  have "bit (ucast w :: u8) m \<longleftrightarrow> m < 8 \<and> bit w m" for w :: bytes32 and m
    by (simp add: bit_simps)
  moreover have "n mod 8 < 8" by simp
  ultimately show ?thesis by (simp only: byte_at_def bit_drop_bit_eq comp_def idx simp_thms)
qed

lemma length_hex_byte [simp]: "length (hex_byte b) = 2"
  by (simp add: hex_byte_def)

lemma concat_hex_inject:
  "concat (map (\<lambda>i. hex_byte (f i)) is) = concat (map (\<lambda>i. hex_byte (g i)) is)
     \<Longrightarrow> i \<in> set is \<Longrightarrow> f i = g i"
  by (induction "is") (auto simp: append_eq_append_conv hex_byte_inject)

lemma fingerprint_hex_inject: "fingerprint_hex a = fingerprint_hex b \<longleftrightarrow> a = b"
proof
  assume "fingerprint_hex a = fingerprint_hex b"
  then have bytes: "byte_at a i = byte_at b i" if "i < 32" for i
    using concat_hex_inject [of "byte_at a" "[0..<32]" "byte_at b" i] that
    by (simp add: fingerprint_hex_def)
  show "a = b"
  proof (rule bit_word_eqI)
    fix n assume "n < LENGTH(256)"
    then show "bit a n = bit b n"
      using byte_at_bit [of n a] byte_at_bit [of n b] bytes [of "31 - n div 8"] by simp
  qed
qed simp

section \<open>Properties\<close>

text \<open>
  A progress token is accepted exactly when it names the tenant's stream and the current
  epoch, its position is canonical decimal text of a number between the oldest replayable
  position and the head, and its CID, if it has one, agrees with the entry stored there, if
  there is one; the number is what is returned.
\<close>

theorem validate_feed_cursor_accepts:
  "validate_feed_cursor cursor s = Inr p \<longleftrightarrow>
     pt_stream_id cursor = fcs_expected_stream_id s \<and> pt_epoch cursor = fcs_expected_epoch s
     \<and> pt_position cursor = u64_to_string p
     \<and> fcs_oldest_replayable s \<le> p \<and> p \<le> fcs_head s
     \<and> (pt_message_cid cursor = None \<or> fcs_message_cid_at_position s = None
        \<or> pt_message_cid cursor = fcs_message_cid_at_position s)"
  by (cases "pt_message_cid cursor"; cases "fcs_message_cid_at_position s")
     (auto simp: validate_feed_cursor_def rbind_Inr_iff parse_feed_position_Inr not_less)

text \<open>
  Feed positions have exactly one external representation. A text parses to a position iff
  it is the decimal text the position prints to, so signs, leading zeros and values beyond 64
  bits are all rejected; the text of a fingerprint is likewise unique to it.
\<close>

theorem feed_text_canonical:
  "(parse_feed_position wire = Inr p \<longleftrightarrow> wire = u64_to_string p)
   \<and> (fingerprint_hex a = fingerprint_hex b \<longleftrightarrow> a = b) \<and> length (fingerprint_hex a) = 64"
proof -
  have "length (concat (map (\<lambda>i. hex_byte (f i)) is)) = 2 * length is" for f :: "nat \<Rightarrow> u8" and "is"
    by (induction "is") auto
  then show ?thesis
    by (simp add: parse_feed_position_Inr fingerprint_hex_inject) (simp add: fingerprint_hex_def)
qed

end
