(* ===== verification/Occupancy.thy ===== *)
theory Occupancy
  imports Filters "HOL-Library.Multiset"
begin

text \<open>
  The read-time projection of record limits (\<open>stores/occupancy.rs\<close>): candidates are grouped by
  direct parent, each group is ranked by creation date and record identifier, and the first
  \<open>max\<close> of each group occupy its slots.
\<close>

section \<open>Data\<close>

record record_limit_occupancy =
  rl_protocol :: string
  rl_protocol_path :: string
  rl_context_id :: "string option"
  rl_parent_id :: "string list option"
  rl_max :: u64

record occupancy_candidate =
  oc_record_id :: string
  oc_parent_id :: "string option"
  oc_date_created :: string

record occupancy_selection =
  os_occupant_ids :: "string bset"
  os_cutoffs :: "(string option, string) btree"

section \<open>Operations\<close>

definition occupancy_candidate_filters :: "record_limit_occupancy \<Rightarrow> filters" where
  "occupancy_candidate_filters policy =
     (let base = bt_insert (FKIndex ''protocolPath'') (FilterEqual (VString (rl_protocol_path policy)))
                (bt_insert (FKIndex ''protocol'') (FilterEqual (VString (rl_protocol policy)))
                (bt_insert (FKIndex ''isLatestBaseState'') (FilterEqual (VBool True))
                (bt_insert (FKIndex ''method'') (FilterEqual (VString ''Write''))
                (bt_insert (FKIndex ''interface'') (FilterEqual (VString ''Records'')) []))))
      in case rl_context_id policy of
           None \<Rightarrow> [base]
         | Some c \<Rightarrow> [bt_insert (FKIndex ''contextId'') (FilterSubtree c) base])"

text \<open>The derived order of \<open>RankKey\<close>, a date and a record identifier, is that of the pair.\<close>

type_synonym rank_key = "string \<times> string"

definition rank_key_text :: "rank_key \<Rightarrow> string" where
  "rank_key_text k = fst k @ [CHR 0x00] @ snd k"

definition group_selected :: "string bset option \<Rightarrow> string option \<Rightarrow> bool" where
  "group_selected parent_ids grp =
     (case parent_ids of
        None \<Rightarrow> True
      | Some selected \<Rightarrow> (case grp of Some parent \<Rightarrow> parent \<in> set selected | None \<Rightarrow> False))"

type_synonym occupancy_groups = "(string option, (rank_key \<times> string) list) btree"

definition candidate_entry :: "occupancy_candidate \<Rightarrow> rank_key \<times> string" where
  "candidate_entry c = ((oc_date_created c, oc_record_id c), oc_record_id c)"

definition group_candidates ::
  "string bset option \<Rightarrow> occupancy_candidate list \<Rightarrow> occupancy_groups" where
  "group_candidates parent_ids candidates =
     foldl (\<lambda>groups c.
       if group_selected parent_ids (oc_parent_id c)
       then bt_insert (oc_parent_id c) (bt_get_or [] groups (oc_parent_id c) @ [candidate_entry c]) groups
       else groups) [] candidates"

definition admit_group ::
  "nat \<Rightarrow> occupancy_selection \<Rightarrow> string option \<times> (rank_key \<times> string) list \<Rightarrow> occupancy_selection" where
  "admit_group limit selection grp =
     (let ranked = take limit (sort (snd grp)) in
      if ranked = [] then selection
      else \<lparr>os_occupant_ids = foldl (\<lambda>ids e. bs_insert (snd e) ids) (os_occupant_ids selection) ranked,
            os_cutoffs = bt_insert (fst grp) (rank_key_text (fst (last ranked))) (os_cutoffs selection)\<rparr>)"

definition select_occupants ::
  "occupancy_candidate list \<Rightarrow> u64 \<Rightarrow> string bset option \<Rightarrow> (string, occupancy_selection) result" where
  "select_occupants candidates mx parent_ids =
     (if mx = 0
      then Inl ''MessageStoreRecordLimitInvalidMax: record-limit max must be a positive integer''
      else Inr (foldl (admit_group (unat mx)) \<lparr>os_occupant_ids = [], os_cutoffs = []\<rparr>
                  (group_candidates parent_ids candidates)))"

definition occupancy_candidate_of :: "key_values \<Rightarrow> (string, occupancy_candidate) result" where
  "occupancy_candidate_of kvs =
     (case bt_get kvs ''recordId'' of
        Some (VString record_id) \<Rightarrow>
          (case bt_get kvs ''dateCreated'' of
             Some (VString date_created) \<Rightarrow>
               (case bt_get kvs ''parentId'' of
                  None \<Rightarrow> Inr \<lparr>oc_record_id = record_id, oc_parent_id = None,
                             oc_date_created = date_created\<rparr>
                | Some (VString parent_id) \<Rightarrow>
                    Inr \<lparr>oc_record_id = record_id, oc_parent_id = Some parent_id,
                         oc_date_created = date_created\<rparr>
                | _ \<Rightarrow> Inl ''MessageStoreRecordLimitInvalidCandidate: record-limit candidate parentId must be a string'')
           | _ \<Rightarrow> Inl ''MessageStoreRecordLimitInvalidCandidate: record-limit candidates require string dateCreated indexes'')
      | _ \<Rightarrow> Inl ''MessageStoreRecordLimitInvalidCandidate: record-limit candidates require string recordId indexes'')"

definition occupancy_candidates :: "key_values list \<Rightarrow> (string, occupancy_candidate list) result" where
  "occupancy_candidates indexes = try_map occupancy_candidate_of indexes"

definition is_occupant :: "key_values \<Rightarrow> string bset \<Rightarrow> bool" where
  "is_occupant indexes occupant_ids =
     (case bt_get indexes ''recordId'' of
        Some (VString record_id) \<Rightarrow> record_id \<in> set occupant_ids
      | _ \<Rightarrow> False)"

definition occupant_ids_for_rows ::
  "'x ext_scheme \<Rightarrow> (string \<times> key_values) list \<Rightarrow> string \<Rightarrow> record_limit_occupancy
    \<Rightarrow> (string, string bset option) result" where
  "occupant_ids_for_rows E rows tenant policy =
     (let candidate_filters = occupancy_candidate_filters policy;
          matching = filter (\<lambda>(row_tenant, indexes).
                       row_tenant = tenant \<and> matches_filters E indexes (Some candidate_filters)) rows
      in rbind (occupancy_candidates (map snd matching)) (\<lambda>candidates.
         rbind (select_occupants candidates (rl_max policy) (map_option bs_from (rl_parent_id policy)))
           (\<lambda>selection. if os_occupant_ids selection = [] then Inr None
                        else Inr (Some (os_occupant_ids selection)))))"

section \<open>Lemmas\<close>

text \<open>The entries of a group, in the order the candidates come.\<close>

definition group_entries ::
  "string bset option \<Rightarrow> occupancy_candidate list \<Rightarrow> string option \<Rightarrow> (rank_key \<times> string) list" where
  "group_entries parent_ids candidates g =
     (if group_selected parent_ids g
      then map candidate_entry (filter (\<lambda>c. oc_parent_id c = g) candidates) else [])"

lemma group_candidates_snoc:
  "group_candidates pids (cs @ [c]) =
     (if group_selected pids (oc_parent_id c)
      then bt_insert (oc_parent_id c)
             (bt_get_or [] (group_candidates pids cs) (oc_parent_id c) @ [candidate_entry c])
             (group_candidates pids cs)
      else group_candidates pids cs)"
  by (simp add: group_candidates_def)

lemma group_candidates_sorted: "bt_sorted (group_candidates pids cs)"
  by (induction cs rule: rev_induct) (simp_all add: group_candidates_snoc, simp add: group_candidates_def)

lemma group_candidates_get:
  "bt_get (group_candidates pids cs) g =
     (if group_entries pids cs g = [] then None else Some (group_entries pids cs g))"
proof (induction cs rule: rev_induct)
  case Nil
  then show ?case by (simp add: group_candidates_def group_entries_def)
next
  case (snoc c cs)
  then show ?case
    by (auto simp: group_candidates_snoc group_entries_def bt_get_insert bt_get_or_def split: if_splits)
qed

lemma admit_group_sort:
  "foldl (admit_group n) sel (map (\<lambda>(g, l). (g, sort l)) groups) = foldl (admit_group n) sel groups"
proof (induction groups arbitrary: sel)
  case (Cons gl groups)
  have "admit_group n sel (g, sort l) = admit_group n sel (g, l)" for g l
    by (simp add: admit_group_def sorted_sort_id Let_def)
  with Cons show ?case by (cases gl) simp
qed simp

lemma bt_map_values: "bt_get (map (\<lambda>(k, v). (k, f v)) m) k = map_option f (bt_get m k)"
  by (induction m) (auto simp: bt_get_def)

lemma bt_sorted_map_values: "bt_sorted (map (\<lambda>(k, v). (k, f v)) m) = bt_sorted m"
  by (simp add: bt_sorted_def comp_def case_prod_beta')

lemma foldl_bs_insert:
  "set (foldl (\<lambda>ids e. bs_insert (snd e) ids) s es) = set s \<union> snd ` set es"
  by (induction es arbitrary: s) auto

lemma admit_groups_ids:
  "set (os_occupant_ids (foldl (admit_group n) sel groups)) =
     set (os_occupant_ids sel) \<union> (\<Union>(g, l) \<in> set groups. snd ` set (take n (sort l)))"
proof (induction groups arbitrary: sel)
  case (Cons gl groups)
  have "set (os_occupant_ids (admit_group n sel gl)) =
      set (os_occupant_ids sel) \<union> snd ` set (take n (sort (snd gl)))"
    by (auto simp: admit_group_def Let_def foldl_bs_insert)
  with Cons show ?case by (auto simp: case_prod_beta)
qed simp

section \<open>Properties\<close>

text \<open>
  The admitted population does not depend on the order in which candidates are delivered:
  two permutations of the same candidates give the same occupants and the same cutoffs.
\<close>

theorem select_occupants_order_independent:
  assumes "mset cs = mset ds"
  shows "select_occupants cs mx parent_ids = select_occupants ds mx parent_ids"
proof -
  let ?s = "\<lambda>cs. map (\<lambda>(g, l). (g, sort l)) (group_candidates parent_ids cs)"
  have perm: "mset (group_entries parent_ids cs g) = mset (group_entries parent_ids ds g)" for g
    using assms by (simp add: group_entries_def mset_filter)
  have "sort (group_entries parent_ids cs g) = sort (group_entries parent_ids ds g)" for g
    by (rule properties_for_sort [symmetric]) (simp_all add: perm)
  moreover have "group_entries parent_ids cs g = [] \<longleftrightarrow> group_entries parent_ids ds g = []" for g
    using perm [of g] by (metis mset_zero_iff)
  ultimately have "bt_get (?s cs) g = bt_get (?s ds) g" for g
    by (simp add: bt_map_values group_candidates_get)
  then have same: "?s cs = ?s ds"
    by (intro bt_sorted_ext) (simp_all add: bt_sorted_map_values group_candidates_sorted)
  have "foldl (admit_group n) sel (group_candidates parent_ids cs) =
      foldl (admit_group n) sel (group_candidates parent_ids ds)" for n sel
    using admit_group_sort [of n sel "group_candidates parent_ids cs"]
      admit_group_sort [of n sel "group_candidates parent_ids ds"] same by simp
  then show ?thesis by (simp add: select_occupants_def)
qed

theorem select_occupants_order_independent_witness:
  "let a = \<lparr>oc_record_id = ''a'', oc_parent_id = None, oc_date_created = ''2''\<rparr>;
       b = \<lparr>oc_record_id = ''b'', oc_parent_id = None, oc_date_created = ''1''\<rparr>
   in select_occupants [a, b] 1 None = select_occupants [b, a] 1 None"
  unfolding Let_def by (rule select_occupants_order_independent) simp


end
