(* ===== verification/MessageStore.thy ===== *)
theory MessageStore
  imports Feed Occupancy
begin

text \<open>
  The in-memory message store and replication feed (\<open>stores/memory.rs\<close>): the state, the two
  state transformers that put and delete a message together with its feed entry, the atomic
  latest-state commit, queries with pagination, and the feed reader.

  The state behind the lock is passed explicitly. An operation that fails returns the error
  alone, because in the source every failing path leaves the shared state untouched (the commit
  works on a clone). Lock poisoning cannot happen without a panic and is left out. The epoch a
  store draws when it is opened or cleared is an argument.
\<close>

section \<open>State\<close>

record message_row =
  mr_cid :: string
  mr_message :: message
  mr_indexes :: key_values

record memory_feed_entry =
  fe_fingerprint_scopes :: "string list"
  fe_indexes :: key_values
  fe_message_cid :: string

record memory_message_state =
  ms_epoch :: string
  ms_messages :: "(string \<times> string, message_row) btree"
  ms_heads :: "(string, u64) btree"
  ms_entries :: "(string \<times> u64, memory_feed_entry) btree"
  ms_positions_by_cid :: "(string \<times> string, u64) btree"
  ms_fingerprints :: fingerprint_map

definition memory_message_state_default :: memory_message_state where
  "memory_message_state_default =
     \<lparr>ms_epoch = [], ms_messages = [], ms_heads = [], ms_entries = [], ms_positions_by_cid = [],
      ms_fingerprints = []\<rparr>"

definition store_clear :: "string \<Rightarrow> memory_message_state \<Rightarrow> memory_message_state" where
  "store_clear epoch s =
     \<lparr>ms_epoch = epoch, ms_messages = [], ms_heads = [], ms_entries = [], ms_positions_by_cid = [],
      ms_fingerprints = []\<rparr>"

definition store_open :: "string \<Rightarrow> memory_message_state \<Rightarrow> memory_message_state" where
  "store_open epoch s = (if ms_epoch s = [] then s\<lparr>ms_epoch := epoch\<rparr> else s)"

definition head_of :: "memory_message_state \<Rightarrow> string \<Rightarrow> u64" where
  "head_of s tenant = bt_get_or 0 (ms_heads s) tenant"

definition log_bounds_from_state ::
  "'x ext_scheme \<Rightarrow> string \<Rightarrow> memory_message_state \<Rightarrow> replication_bounds option" where
  "log_bounds_from_state E tenant s =
     (let head = head_of s tenant in
      if head = 0 then None
      else
        let oldest = build_token E tenant (ms_epoch s) 0 None;
            latest = (case bt_get (ms_entries s) (tenant, head) of
                        Some entry \<Rightarrow> build_token E tenant (ms_epoch s) head (Some (fe_message_cid entry))
                      | None \<Rightarrow> build_token E tenant (ms_epoch s) head None)
        in Some (oldest, latest))"

section \<open>Putting and deleting\<close>

record latest_state_mutation =
  lm_message :: message
  lm_indexes :: key_values

type_synonym 'a store_result = "(message_store_error, 'a) result"

definition store_cid :: "'x mext_scheme \<Rightarrow> message \<Rightarrow> string store_result" where
  "store_cid E m = (case message_cid E m of Inl e \<Rightarrow> Inl (SerdeEncodeError e) | Inr c \<Rightarrow> Inr c)"

definition put_message_state ::
  "'x mext_scheme \<Rightarrow> string \<Rightarrow> latest_state_mutation \<Rightarrow> memory_message_state
    \<Rightarrow> (memory_message_state \<times> wake option) store_result" where
  "put_message_state E tenant mutation s =
     (let message = lm_message mutation; indexes = lm_indexes mutation in
      rbind (store_cid E message) (\<lambda>c.
      let msg_key = (tenant, c);
          msg_row = \<lparr>mr_cid = c, mr_message = message, mr_indexes = indexes\<rparr>
      in
      if \<not> is_feed_message message
        then Inr (s\<lparr>ms_messages := bt_insert msg_key msg_row (ms_messages s)\<rparr>, None)
      else
        let msg_scopes = fingerprint_scopes (write_tag_protocol message) indexes in
        case bt_get (ms_positions_by_cid s) msg_key of
          Some position \<Rightarrow>
            (case bt_get (ms_entries s) (tenant, position) of
               None \<Rightarrow>
                 Inl (MessageStoreError (InternalException ''feed entry missing for existing feed position''))
             | Some entry \<Rightarrow>
                 if \<not> scopes_unchanged (fe_fingerprint_scopes entry) msg_scopes
                   then Inl (MessageStoreError (ReplicationError FingerprintScopesMismatch))
                 else Inr (s\<lparr>ms_messages := bt_insert msg_key msg_row (ms_messages s),
                            ms_entries := bt_insert (tenant, position) (entry\<lparr>fe_indexes := indexes\<rparr>)
                                            (ms_entries s)\<rparr>, None))
        | None \<Rightarrow>
            (case checked_add (head_of s tenant) 1 of
               None \<Rightarrow> Inl (MessageStoreError (ReplicationError FeedPositionOverflow))
             | Some next_position \<Rightarrow>
                 Inr (s\<lparr>ms_messages := bt_insert msg_key msg_row (ms_messages s),
                       ms_entries := bt_insert (tenant, next_position)
                         \<lparr>fe_fingerprint_scopes = msg_scopes, fe_indexes = indexes, fe_message_cid = c\<rparr>
                         (ms_entries s),
                       ms_positions_by_cid := bt_insert msg_key next_position (ms_positions_by_cid s),
                       ms_heads := bt_insert tenant next_position (ms_heads s),
                       ms_fingerprints := fold_cid_into_domain E tenant c msg_scopes (ms_fingerprints s)\<rparr>,
                      Some \<lparr>wake_tenant = tenant, wake_position = next_position\<rparr>))))"

definition delete_message_state ::
  "'x mext_scheme \<Rightarrow> string \<Rightarrow> string \<Rightarrow> memory_message_state \<Rightarrow> memory_message_state store_result" where
  "delete_message_state E tenant c s =
     (let key = (tenant, c);
          feed = (case bt_get (ms_positions_by_cid s) key of
             None \<Rightarrow> Inr None
           | Some position \<Rightarrow>
               (case bt_get (ms_entries s) (tenant, position) of
                  None \<Rightarrow>
                    Inl (MessageStoreError (InternalException ''feed entry missing for existing feed position''))
                | Some entry \<Rightarrow>
                    if fe_message_cid entry \<noteq> c
                      then Inl (MessageStoreError (InternalException
                             ''feed entry message CID mismatch for existing feed position''))
                    else Inr (Some (position, fe_fingerprint_scopes entry, fe_message_cid entry))))
      in rbind feed (\<lambda>feed.
         let s' = s\<lparr>ms_messages := bt_remove key (ms_messages s)\<rparr>
         in case feed of
              None \<Rightarrow> Inr s'
            | Some (position, scopes, stored_cid) \<Rightarrow>
                Inr (s'\<lparr>ms_entries := bt_remove (tenant, position) (ms_entries s),
                       ms_positions_by_cid := bt_remove key (ms_positions_by_cid s),
                       ms_fingerprints := fold_cid_into_domain E tenant stored_cid scopes
                         (ms_fingerprints s)\<rparr>)))"

text \<open>The public \<open>put\<close> also hands the wake hint to the publisher; the result keeps it.\<close>

definition store_put ::
  "'x mext_scheme \<Rightarrow> string \<Rightarrow> message \<Rightarrow> key_values \<Rightarrow> memory_message_state
    \<Rightarrow> (memory_message_state \<times> wake option) store_result" where
  "store_put E tenant message indexes s =
     put_message_state E tenant \<lparr>lm_message = message, lm_indexes = indexes\<rparr> s"

definition store_delete ::
  "'x mext_scheme \<Rightarrow> string \<Rightarrow> string \<Rightarrow> memory_message_state \<Rightarrow> memory_message_state store_result" where
  "store_delete E tenant c s = delete_message_state E tenant c s"

definition store_get :: "string \<Rightarrow> string \<Rightarrow> memory_message_state \<Rightarrow> message option" where
  "store_get tenant c s =
     map_option (\<lambda>(_, row). mr_message row)
       (find (\<lambda>((row_tenant, row_cid), _). row_tenant = tenant \<and> row_cid = c) (ms_messages s))"

section \<open>The latest-state transition\<close>

record latest_state_transition =
  lt_put :: latest_state_mutation
  lt_retains :: "latest_state_mutation list"
  lt_deletes :: "string list"

definition transition_invalid :: message_store_error where
  "transition_invalid = MessageStoreError (InternalException ''MessageStoreLatestStateTransitionInvalid'')"

definition insert_fresh :: "string \<Rightarrow> string bset \<Rightarrow> string bset store_result" where
  "insert_fresh c mutated =
     (if c \<in> set mutated then Inl transition_invalid else Inr (bs_insert c mutated))"

definition transition_validate :: "'x mext_scheme \<Rightarrow> latest_state_transition \<Rightarrow> unit store_result" where
  "transition_validate E tr =
     rbind (store_cid E (lm_message (lt_put tr))) (\<lambda>put_cid.
     rbind (try_fold (\<lambda>retained mutated.
              rbind (store_cid E (lm_message retained)) (\<lambda>c. insert_fresh c mutated))
              (lt_retains tr) [put_cid]) (\<lambda>mutated.
     rbind (try_fold insert_fresh (lt_deletes tr) mutated) (\<lambda>_. Inr ())))"

definition retain_missing :: message_store_error where
  "retain_missing = MessageStoreError (InternalException ''MessageStoreLatestStateRetainMissing'')"

definition retain_message ::
  "'x mext_scheme \<Rightarrow> string \<Rightarrow> latest_state_mutation \<Rightarrow> memory_message_state
    \<Rightarrow> memory_message_state store_result" where
  "retain_message E tenant retained staged =
     rbind (store_cid E (lm_message retained)) (\<lambda>c.
       if \<not> bt_contains (ms_messages staged) (tenant, c) then Inl retain_missing
       else rbind (put_message_state E tenant retained staged) (\<lambda>(staged', _). Inr staged'))"

definition commit_latest_state ::
  "'x mext_scheme \<Rightarrow> string \<Rightarrow> latest_state_transition \<Rightarrow> memory_message_state
    \<Rightarrow> (memory_message_state \<times> wake option \<times> progress_token option) store_result" where
  "commit_latest_state E tenant tr s =
     rbind (transition_validate E tr) (\<lambda>_.
     rbind (store_cid E (lm_message (lt_put tr))) (\<lambda>put_cid.
     rbind (put_message_state E tenant (lt_put tr) s) (\<lambda>(staged, wake).
     rbind (try_fold (retain_message E tenant) (lt_retains tr) staged) (\<lambda>staged.
     rbind (try_fold (delete_message_state E tenant) (lt_deletes tr) staged) (\<lambda>staged.
       let position = map_option (\<lambda>p. build_token E tenant (ms_epoch staged) p (Some put_cid))
                        (bt_get (ms_positions_by_cid staged) (tenant, put_cid))
       in Inr (staged, wake, position))))))"

section \<open>Queries\<close>

fun sort_property :: "message_sort \<Rightarrow> string \<times> sort_direction" where
  "sort_property (SortDateCreated d) = (''dateCreated'', d)"
| "sort_property (SortDatePublished d) = (''datePublished'', d)"
| "sort_property (SortTimestamp d) = (''messageTimestamp'', d)"

fun compare_indexes :: "'x ext_scheme \<Rightarrow> val option \<Rightarrow> val option \<Rightarrow> ordering" where
  "compare_indexes E (Some a) (Some b) = (case compare_values E a b of None \<Rightarrow> Equal | Some ord \<Rightarrow> ord)"
| "compare_indexes E (Some _) None = Greater"
| "compare_indexes E None (Some _) = Less"
| "compare_indexes E None None = Equal"

fun apply_dir :: "ordering \<Rightarrow> sort_direction \<Rightarrow> ordering" where
  "apply_dir ord Ascending = ord"
| "apply_dir ord Descending = ord_reverse ord"

definition compare_rows ::
  "'x ext_scheme \<Rightarrow> string \<Rightarrow> sort_direction \<Rightarrow> message_row \<Rightarrow> message_row \<Rightarrow> ordering" where
  "compare_rows E property direction a b =
     apply_dir (ord_then (compare_indexes E (bt_get (mr_indexes a) property) (bt_get (mr_indexes b) property))
                  (ord_cmp (mr_cid a) (mr_cid b))) direction"

definition cursor_start ::
  "'x ext_scheme \<Rightarrow> message_row list \<Rightarrow> string \<Rightarrow> sort_direction \<Rightarrow> cursor \<Rightarrow> nat" where
  "cursor_start E rows property direction c =
     (case position_of (\<lambda>r.
        apply_dir (ord_then (compare_indexes E (bt_get (mr_indexes r) property) (cu_value c))
                     (ord_cmp (mr_cid r) (cu_cursor c))) direction = Greater) rows of
        Some i \<Rightarrow> i | None \<Rightarrow> length rows)"

record message_query_result =
  mq_messages :: "message list"
  mq_cursor :: "cursor option"

definition empty_query_result :: message_query_result where
  "empty_query_result = \<lparr>mq_messages = [], mq_cursor = None\<rparr>"

definition occupant_ids ::
  "'x ext_scheme \<Rightarrow> string \<Rightarrow> record_limit_occupancy \<Rightarrow> memory_message_state
    \<Rightarrow> string bset option store_result" where
  "occupant_ids E tenant policy s =
     (case occupant_ids_for_rows E (map (\<lambda>((t, _), row). (t, mr_indexes row)) (ms_messages s)) tenant policy of
        Inl detail \<Rightarrow> Inl (MessageStoreError (InternalException detail))
      | Inr ids \<Rightarrow> Inr ids)"

definition query_rows ::
  "'x ext_scheme \<Rightarrow> string \<Rightarrow> filters \<Rightarrow> message_sort option \<Rightarrow> string bset option
    \<Rightarrow> memory_message_state \<Rightarrow> message_row list" where
  "query_rows E tenant filters sort_by_key occupants s =
     (let (property, direction) = sort_property (case sort_by_key of None \<Rightarrow> message_sort_default | Some m \<Rightarrow> m);
          rows = map snd (filter (\<lambda>((t, _), row). t = tenant \<and> matches_filters E (mr_indexes row) (Some filters))
                            (ms_messages s));
          rows = (case occupants of None \<Rightarrow> rows | Some ids \<Rightarrow> filter (\<lambda>r. is_occupant (mr_indexes r) ids) rows);
          rows = filter (\<lambda>r. bt_contains (mr_indexes r) property) rows
      in sort_by (compare_rows E property direction) rows)"

definition query_page ::
  "'x ext_scheme \<Rightarrow> message_sort option \<Rightarrow> pagination option \<Rightarrow> message_row list
    \<Rightarrow> message_query_result store_result" where
  "query_page E sort_by_key pagination rows =
     (let (property, direction) = sort_property (case sort_by_key of None \<Rightarrow> message_sort_default | Some m \<Rightarrow> m);
          start = (case Option.bind pagination pg_cursor of
                     Some c \<Rightarrow> cursor_start E rows property direction c | None \<Rightarrow> 0);
          page = drop start rows
      in case Option.bind pagination pg_limit of
           None \<Rightarrow> Inr \<lparr>mq_messages = map mr_message page, mq_cursor = None\<rparr>
         | Some limit \<Rightarrow>
             if unat limit < length page then
               (let page = take (unat limit) page in
                if page = [] then Inl (MessageStoreError (InternalException
                  ''page must have at least one entry after truncation''))
                else case parse_cid E (mr_cid (last page)) of
                       None \<Rightarrow> Inl (CidEncodeError (mr_cid (last page)))
                     | Some c \<Rightarrow>
                         Inr \<lparr>mq_messages = map mr_message page,
                              mq_cursor = Some \<lparr>cu_cursor = c,
                                cu_value = bt_get (mr_indexes (last page)) property\<rparr>\<rparr>)
             else Inr \<lparr>mq_messages = map mr_message page, mq_cursor = None\<rparr>)"

definition store_query ::
  "'x ext_scheme \<Rightarrow> string \<Rightarrow> filters \<Rightarrow> message_sort option \<Rightarrow> pagination option
    \<Rightarrow> record_limit_occupancy option \<Rightarrow> memory_message_state \<Rightarrow> message_query_result store_result" where
  "store_query E tenant filters sort_by_key pagination record_limit s =
     (if Option.bind pagination pg_limit = Some 0 then Inr empty_query_result
      else case record_limit of
             None \<Rightarrow> query_page E sort_by_key pagination (query_rows E tenant filters sort_by_key None s)
           | Some policy \<Rightarrow>
               rbind (occupant_ids E tenant policy s) (\<lambda>ids.
                 case ids of
                   None \<Rightarrow> Inr empty_query_result
                 | Some ids \<Rightarrow> query_page E sort_by_key pagination (query_rows E tenant filters sort_by_key (Some ids) s)))"

definition store_count ::
  "'x ext_scheme \<Rightarrow> string \<Rightarrow> filters \<Rightarrow> message_sort option \<Rightarrow> record_limit_occupancy option
    \<Rightarrow> memory_message_state \<Rightarrow> u64 store_result" where
  "store_count E tenant filters sort_by_key record_limit s =
     rbind (store_query E tenant filters sort_by_key None record_limit s)
       (\<lambda>r. Inr (of_nat (length (mq_messages r))))"

section \<open>The feed reader\<close>

definition log_event ::
  "'x mext_scheme \<Rightarrow> memory_message_state \<Rightarrow> string \<Rightarrow> u64 \<Rightarrow> memory_feed_entry
    \<Rightarrow> (event_log_error, event_log_entry) result" where
  "log_event E s tenant position entry =
     (case bt_get (ms_messages s) (tenant, fe_message_cid entry) of
        None \<Rightarrow> Inl (EventStoreError (ReplicationError (MissingMessage (fe_message_cid entry))))
      | Some row \<Rightarrow>
          let (taken, fields) = take_encoded_data (msg_fields (mr_message row));
              message = (mr_message row)\<lparr>msg_fields := fields\<rparr>
          in rbind (case taken of
                      None \<Rightarrow> Inr None
                    | Some VNull \<Rightarrow> Inr None
                    | Some (VString encoded) \<Rightarrow> Inr (Some encoded)
                    | Some _ \<Rightarrow> Inl (EventStoreError (ReplicationError InvalidEncodedData))) (\<lambda>encoded_data.
             if mr_cid row \<noteq> fe_message_cid entry
               then Inl (EventStoreError (ReplicationError
                      (CidsMismatch (fe_message_cid entry) (mr_cid row))))
             else case message_cid E (mr_message row) of
                    Inl e \<Rightarrow> Inl (EventStoreError (InternalException (''failed to compute message CID: '' @ e)))
                  | Inr c \<Rightarrow>
                      if c \<noteq> fe_message_cid entry
                        then Inl (EventStoreError (InternalException ''message CID mismatch for feed entry''))
                      else Inr \<lparr>ele_seq = u64_to_string position,
                                ele_event = \<lparr>me_message = message, me_initial_write = None\<rparr>,
                                ele_indexes = fe_indexes entry, ele_message_cid = Some (mr_cid row),
                                ele_encoded_data = encoded_data\<rparr>))"

text \<open>The loop over the positions after the cursor: the events found and the last position.\<close>

fun log_scan ::
  "'x mext_scheme \<Rightarrow> memory_message_state \<Rightarrow> string \<Rightarrow> filters option \<Rightarrow> nat \<Rightarrow> u64 list
    \<Rightarrow> event_log_entry list \<times> u64 \<Rightarrow> (event_log_error, event_log_entry list \<times> u64) result" where
  "log_scan E s tenant filters max_events [] acc = Inr acc"
| "log_scan E s tenant filters max_events (position # positions) (events, last_scanned) =
     (case bt_get (ms_entries s) (tenant, position) of
        None \<Rightarrow> log_scan E s tenant filters max_events positions (events, position)
      | Some entry \<Rightarrow>
          if \<not> matches_filters E (fe_indexes entry) filters
            then log_scan E s tenant filters max_events positions (events, position)
          else rbind (log_event E s tenant position entry) (\<lambda>event.
                 if length (events @ [event]) \<ge> max_events then Inr (events @ [event], position)
                 else log_scan E s tenant filters max_events positions (events @ [event], position)))"

definition positions_after :: "u64 \<Rightarrow> u64 \<Rightarrow> u64 list" where
  "positions_after start head = map of_nat [unat start + 1 ..< unat head + 1]"

definition check_log_cursor ::
  "'x mext_scheme \<Rightarrow> string \<Rightarrow> progress_token option \<Rightarrow> memory_message_state
    \<Rightarrow> (event_log_error, u64) result" where
  "check_log_cursor E tenant cursor s =
     (case cursor of
        None \<Rightarrow> Inr 0
      | Some c \<Rightarrow>
          let zero_cursor = build_token E tenant (ms_epoch s) 0 None;
              bounds = (case log_bounds_from_state E tenant s of
                          None \<Rightarrow> Some (zero_cursor, zero_cursor) | Some b \<Rightarrow> Some b);
              at = (case parse_feed_position (pt_position c) of Inl _ \<Rightarrow> 0 | Inr p \<Rightarrow> p)
          in validate_feed_cursor c
               \<lparr>fcs_expected_stream_id = derive_stream_id E tenant, fcs_expected_epoch = ms_epoch s,
                fcs_head = head_of s tenant, fcs_oldest_replayable = 0,
                fcs_message_cid_at_position = map_option fe_message_cid (bt_get (ms_entries s) (tenant, at)),
                fcs_bounds = bounds\<rparr>)"

definition log_cursor ::
  "'x ext_scheme \<Rightarrow> string \<Rightarrow> string \<Rightarrow> event_log_entry list \<Rightarrow> u64 \<Rightarrow> progress_token" where
  "log_cursor E tenant epoch events last_scanned =
     build_token E tenant epoch last_scanned
       (if last_scanned = (if events = [] then 0
            else case parse_feed_position (ele_seq (last events)) of Inl _ \<Rightarrow> 0 | Inr p \<Rightarrow> p)
        then (if events = [] then None else ele_message_cid (last events))
        else None)"

definition log_read ::
  "'x mext_scheme \<Rightarrow> string \<Rightarrow> event_log_read_options \<Rightarrow> memory_message_state
    \<Rightarrow> (event_log_error, event_log_read_result) result" where
  "log_read E tenant options s =
     (if (case ro_filters options of None \<Rightarrow> False | Some fs \<Rightarrow> \<not> has_valid_subtree_filters fs)
        then Inl (EventFilterError ''invalid subtree filter'')
      else rbind (check_log_cursor E tenant (ro_cursor options) s) (\<lambda>_.
        let head = head_of s tenant;
            anchor = (case ro_cursor options of
                        Some c \<Rightarrow> c | None \<Rightarrow> build_token E tenant (ms_epoch s) 0 None);
            start = (case ro_cursor options of
                       None \<Rightarrow> 0
                     | Some c \<Rightarrow> (case parse_feed_position (pt_position c) of Inl _ \<Rightarrow> 0 | Inr p \<Rightarrow> p));
            max_events = (case ro_limit options of None \<Rightarrow> u64_max | Some l \<Rightarrow> l)
        in if head = 0 then Inr \<lparr>rr_events = [], rr_cursor = Some anchor, rr_drained = True\<rparr>
           else if max_events = 0
             then Inr \<lparr>rr_events = [],
                       rr_cursor = Some (case ro_cursor options of
                          Some c \<Rightarrow> c | None \<Rightarrow> build_token E tenant (ms_epoch s) start None),
                       rr_drained = (head \<le> start)\<rparr>
           else if start = head
             then Inr \<lparr>rr_events = [], rr_cursor = Some (build_token E tenant (ms_epoch s) start None),
                       rr_drained = True\<rparr>
           else if head < start
             then Inr \<lparr>rr_events = [], rr_cursor = ro_cursor options, rr_drained = True\<rparr>
           else rbind (log_scan E s tenant (ro_filters options) (unat max_events)
                         (positions_after start head) ([], start)) (\<lambda>(events, last_scanned).
                  Inr \<lparr>rr_events = events,
                       rr_cursor = Some (log_cursor E tenant (ms_epoch s) events last_scanned),
                       rr_drained = (head \<le> last_scanned)\<rparr>)))"

definition log_bounds :: "'x ext_scheme \<Rightarrow> string \<Rightarrow> memory_message_state \<Rightarrow> replication_bounds option" where
  "log_bounds E tenant s = log_bounds_from_state E tenant s"

definition store_fingerprint :: "string \<Rightarrow> string list \<Rightarrow> memory_message_state \<Rightarrow> fingerprint" where
  "store_fingerprint tenant scopes s =
     foldl (\<lambda>fp scope.
       case bt_get (ms_fingerprints s) (tenant, scope) of
         None \<Rightarrow> fp | Some f \<Rightarrow> xor_in_place fp f) 0 (normalize_scopes scopes)"

end
