(* ===== verification/StoreInvariant.thy ===== *)
theory StoreInvariant
  imports MessageStore
begin

text \<open>
  The invariant of the message store and its preservation: rows are keyed by the CID of the
  message they hold; feed entries and the position index mirror each other, lie between one and
  the tenant's head and always have their message; and every stored fingerprint is the XOR of the
  contributions of the live entries of its scope. A step relation collects the operations, and
  every reachable store satisfies the invariant.
\<close>

section \<open>XOR aggregates\<close>

definition xor_over :: "('a \<Rightarrow> fingerprint) \<Rightarrow> 'a list \<Rightarrow> fingerprint" where
  "xor_over g xs = foldr (\<lambda>x acc. g x XOR acc) xs 0"

lemma xor_over_simps [simp]:
  "xor_over g [] = 0"
  "xor_over g (x # xs) = g x XOR xor_over g xs"
  by (simp_all add: xor_over_def)

lemma xor_self_cancel [simp]: "(a :: fingerprint) XOR (a XOR b) = b"
  by (simp add: xor.assoc [symmetric])

lemma xor_over_insert_fresh:
  "bt_get m k = None \<Longrightarrow> xor_over g (bt_insert k v m) = g (k, v) XOR xor_over g m"
  by (induction m) (auto simp: bt_get_Cons xor.left_commute split: if_splits)

lemma xor_over_insert_same:
  assumes "bt_sorted m" and "bt_get m k = Some v" and "g (k, v') = g (k, v)"
  shows "xor_over g (bt_insert k v' m) = xor_over g m"
  using assms
proof (induction m)
  case (Cons x m)
  obtain l w where [simp]: "x = (l, w)" by (cases x)
  have "k \<noteq> l \<Longrightarrow> l < k"
    using Cons.prems(1,2) bt_get_SomeD [of m k v]
    by (auto simp: bt_sorted_def bt_get_Cons dest!: bspec)
  moreover have "bt_sorted m" using Cons.prems(1) by (simp add: bt_sorted_def)
  ultimately show ?case using Cons by (auto simp: bt_get_Cons split: if_splits)
qed simp

lemma xor_over_remove:
  assumes "bt_sorted m" and "bt_get m k = Some v"
  shows "xor_over g (bt_remove k m) = g (k, v) XOR xor_over g m"
proof -
  have keep: "bt_remove k n = n" if "k \<notin> set (map fst n)" for n :: "('a, 'b) btree"
    using that by (force simp: bt_remove_def filter_id_conv)
  from assms show ?thesis
  proof (induction m)
    case (Cons x m)
    obtain l w where [simp]: "x = (l, w)" by (cases x)
    have m: "bt_sorted m" "l \<notin> set (map fst m)"
      using Cons.prems(1) by (auto simp: bt_sorted_def)
    show ?case
    proof (cases "l = k")
      case True
      with m keep [of m] Cons.prems(2) show ?thesis by (simp add: bt_get_Cons bt_remove_def)
    next
      case False
      with Cons m show ?thesis by (simp add: bt_get_Cons bt_remove_def xor.left_commute)
    qed
  qed simp
qed

lemma xor_over_map_filter:
  "xor_over g (map f (filter P xs)) = xor_over (\<lambda>x. if P x then g (f x) else 0) xs"
  by (induction xs) auto

lemma xor_over_perm: "mset xs = mset ys \<Longrightarrow> xor_over g xs = xor_over g ys"
proof (induction xs arbitrary: ys)
  case (Cons x xs)
  then obtain as bs where ys: "ys = as @ x # bs" "mset xs = mset (as @ bs)"
    by (metis add_mset_remove_trivial list.set_intros(1) mset.simps(2) mset_remove1 remove1_split set_mset_mset)
  have "xor_over g (as @ x # bs) = g x XOR xor_over g (as @ bs)" for as
    by (induction as) (auto simp: xor.left_commute)
  with Cons.IH [OF ys(2)] ys(1) show ?case by simp
qed simp

section \<open>The invariant\<close>

definition rows_ok :: "'x mext_scheme \<Rightarrow> memory_message_state \<Rightarrow> bool" where
  "rows_ok E s \<longleftrightarrow> bt_sorted (ms_messages s) \<and>
     (\<forall>t c row. bt_get (ms_messages s) (t, c) = Some row
        \<longrightarrow> mr_cid row = c \<and> message_cid E (mr_message row) = Inr c)"

definition entry_ok :: "memory_message_state \<Rightarrow> string \<Rightarrow> u64 \<Rightarrow> memory_feed_entry \<Rightarrow> bool" where
  "entry_ok s t p e \<longleftrightarrow>
     0 < p \<and> p \<le> head_of s t \<and> bt_get (ms_positions_by_cid s) (t, fe_message_cid e) = Some p
     \<and> bt_get (ms_messages s) (t, fe_message_cid e) \<noteq> None \<and> distinct (fe_fingerprint_scopes e)"

definition feed_ok :: "memory_message_state \<Rightarrow> bool" where
  "feed_ok s \<longleftrightarrow> bt_sorted (ms_entries s)
     \<and> (\<forall>t p e. bt_get (ms_entries s) (t, p) = Some e \<longrightarrow> entry_ok s t p e)
     \<and> (\<forall>t c p. bt_get (ms_positions_by_cid s) (t, c) = Some p
          \<longrightarrow> (\<exists>e. bt_get (ms_entries s) (t, p) = Some e \<and> fe_message_cid e = c))"

definition live_cids :: "memory_message_state \<Rightarrow> string \<Rightarrow> string \<Rightarrow> string list" where
  "live_cids s t scope =
     map (\<lambda>kv. fe_message_cid (snd kv))
       (filter (\<lambda>kv. fst (fst kv) = t \<and> scope \<in> set (fe_fingerprint_scopes (snd kv))) (ms_entries s))"

definition fingerprints_ok :: "'x mext_scheme \<Rightarrow> memory_message_state \<Rightarrow> bool" where
  "fingerprints_ok E s \<longleftrightarrow>
     (\<forall>t scope. bt_get_or 0 (ms_fingerprints s) (t, scope) = xor_over (cid_contribution E) (live_cids s t scope))"

definition store_inv :: "'x mext_scheme \<Rightarrow> memory_message_state \<Rightarrow> bool" where
  "store_inv E s \<longleftrightarrow> rows_ok E s \<and> feed_ok s \<and> fingerprints_ok E s"

lemma store_invD:
  assumes "store_inv E s"
  shows "rows_ok E s" and "feed_ok s" and "fingerprints_ok E s"
  using assms by (simp_all add: store_inv_def)

lemma feed_ok_entry: "feed_ok s \<Longrightarrow> bt_get (ms_entries s) (t, p) = Some e \<Longrightarrow> entry_ok s t p e"
  by (simp add: feed_ok_def)

lemma feed_ok_position:
  assumes "feed_ok s" and "bt_get (ms_positions_by_cid s) (t, c) = Some p"
  obtains e where "bt_get (ms_entries s) (t, p) = Some e" and "fe_message_cid e = c"
  using assms unfolding feed_ok_def by blast

text \<open>What one entry contributes to the aggregate of a scope.\<close>

abbreviation contribution_of ::
  "'x mext_scheme \<Rightarrow> string \<Rightarrow> string \<Rightarrow> (string \<times> u64) \<times> memory_feed_entry \<Rightarrow> fingerprint" where
  "contribution_of E t scope kv \<equiv>
     (if fst (fst kv) = t \<and> scope \<in> set (fe_fingerprint_scopes (snd kv))
      then cid_contribution E (fe_message_cid (snd kv)) else 0)"

lemma live_cids_xor:
  "xor_over (cid_contribution E) (live_cids s t scope) = xor_over (contribution_of E t scope) (ms_entries s)"
  unfolding live_cids_def by (rule xor_over_map_filter)

lemma next_position:
  assumes "checked_add h 1 = Some n"
  shows "0 < n" and "h < n" and "p \<le> h \<Longrightarrow> p < n"
proof -
  have "unat n = unat h + 1" using checked_add_Some [OF assms] by simp
  then show "h < n" by (simp add: word_less_nat_alt)
  then show "p \<le> h \<Longrightarrow> p < n" by simp
  show "0 < n" using \<open>unat n = unat h + 1\<close> by (simp add: word_less_nat_alt)
qed

section \<open>Preservation\<close>

lemma store_cid_Inr: "store_cid E m = Inr c \<longleftrightarrow> message_cid E m = Inr c"
  by (simp add: store_cid_def split: sum.splits)

lemma rows_ok_insert:
  assumes "rows_ok E s" and "message_cid E m = Inr c" and "ms_messages s' =
    bt_insert (t, c) \<lparr>mr_cid = c, mr_message = m, mr_indexes = ix\<rparr> (ms_messages s)"
  shows "rows_ok E s'"
  using assms by (auto simp: rows_ok_def bt_get_insert)

text \<open>The three ways a put succeeds.\<close>

lemma put_cases:
  assumes "put_message_state E t mu s = Inr (s', w)"
  obtains (row) c where "message_cid E (lm_message mu) = Inr c" "\<not> is_feed_message (lm_message mu)"
      "s' = s\<lparr>ms_messages := bt_insert (t, c)
                \<lparr>mr_cid = c, mr_message = lm_message mu, mr_indexes = lm_indexes mu\<rparr> (ms_messages s)\<rparr>"
      "w = None"
  | (replace) c p e where "message_cid E (lm_message mu) = Inr c" "is_feed_message (lm_message mu)"
      "bt_get (ms_positions_by_cid s) (t, c) = Some p" "bt_get (ms_entries s) (t, p) = Some e"
      "set (fe_fingerprint_scopes e) =
         set (fingerprint_scopes (write_tag_protocol (lm_message mu)) (lm_indexes mu))"
      "s' = s\<lparr>ms_messages := bt_insert (t, c)
                \<lparr>mr_cid = c, mr_message = lm_message mu, mr_indexes = lm_indexes mu\<rparr> (ms_messages s),
              ms_entries := bt_insert (t, p) (e\<lparr>fe_indexes := lm_indexes mu\<rparr>) (ms_entries s)\<rparr>"
      "w = None"
  | (append) c p where "message_cid E (lm_message mu) = Inr c" "is_feed_message (lm_message mu)"
      "bt_get (ms_positions_by_cid s) (t, c) = None" "checked_add (head_of s t) 1 = Some p"
      "s' = s\<lparr>ms_messages := bt_insert (t, c)
                \<lparr>mr_cid = c, mr_message = lm_message mu, mr_indexes = lm_indexes mu\<rparr> (ms_messages s),
              ms_entries := bt_insert (t, p)
                \<lparr>fe_fingerprint_scopes = fingerprint_scopes (write_tag_protocol (lm_message mu)) (lm_indexes mu),
                 fe_indexes = lm_indexes mu, fe_message_cid = c\<rparr> (ms_entries s),
              ms_positions_by_cid := bt_insert (t, c) p (ms_positions_by_cid s),
              ms_heads := bt_insert t p (ms_heads s),
              ms_fingerprints := fold_cid_into_domain E t c
                (fingerprint_scopes (write_tag_protocol (lm_message mu)) (lm_indexes mu)) (ms_fingerprints s)\<rparr>"
      "w = Some \<lparr>wake_tenant = t, wake_position = p\<rparr>"
proof -
  from assms obtain c where c: "message_cid E (lm_message mu) = Inr c"
    by (auto simp: put_message_state_def rbind_Inr_iff store_cid_Inr Let_def)
  show ?thesis
  proof (cases "is_feed_message (lm_message mu)")
    case False
    with assms c row show ?thesis
      by (auto simp: put_message_state_def rbind_Inr_iff store_cid_Inr Let_def)
  next
    case True
    show ?thesis
    proof (cases "bt_get (ms_positions_by_cid s) (t, c)")
      case None
      with assms c True append show ?thesis
        by (auto simp: put_message_state_def rbind_Inr_iff store_cid_Inr Let_def split: option.splits)
    next
      case (Some p)
      with assms c True replace show ?thesis
        by (auto simp: put_message_state_def rbind_Inr_iff store_cid_Inr Let_def scopes_unchanged_iff
            split: option.splits if_splits)
    qed
  qed
qed

lemma feed_ok_rows:
  assumes "feed_ok s" and "ms_messages s' = bt_insert k row (ms_messages s)"
    and "ms_entries s' = ms_entries s" and "ms_heads s' = ms_heads s"
    and "ms_positions_by_cid s' = ms_positions_by_cid s"
  shows "feed_ok s'"
  using assms by (auto simp: feed_ok_def entry_ok_def head_of_def bt_get_insert)

lemma live_cids_same: "ms_entries s' = ms_entries s \<Longrightarrow> live_cids s' = live_cids s"
  by (simp add: live_cids_def fun_eq_iff)

lemma feed_ok_replace:
  assumes "feed_ok s" and "bt_get (ms_entries s) (t, p) = Some e"
    and "ms_messages s' = bt_insert k row (ms_messages s)"
    and "ms_entries s' = bt_insert (t, p) (e\<lparr>fe_indexes := ix\<rparr>) (ms_entries s)"
    and "ms_heads s' = ms_heads s" and "ms_positions_by_cid s' = ms_positions_by_cid s"
  shows "feed_ok s'"
proof -
  have entry: "entry_ok s t p e" by (rule feed_ok_entry [OF assms(1,2)])
  have "entry_ok s' t' p' e'" if "bt_get (ms_entries s') (t', p') = Some e'" for t' p' e'
  proof (cases "(t', p') = (t, p)")
    case True
    with that assms(4) have "e' = e\<lparr>fe_indexes := ix\<rparr>" by (simp add: bt_get_insert)
    with True entry assms show ?thesis by (auto simp: entry_ok_def head_of_def bt_get_insert)
  next
    case False
    with that assms(4) have "entry_ok s t' p' e'"
      using feed_ok_entry [OF assms(1), of t' p' e'] by (auto simp: bt_get_insert split: if_splits)
    with assms show ?thesis by (auto simp: entry_ok_def head_of_def bt_get_insert)
  qed
  moreover have "\<exists>e'. bt_get (ms_entries s') (t', p') = Some e' \<and> fe_message_cid e' = c'"
    if "bt_get (ms_positions_by_cid s') (t', c') = Some p'" for t' c' p'
  proof -
    have "bt_get (ms_positions_by_cid s) (t', c') = Some p'" using that assms by simp
    then obtain e' where "bt_get (ms_entries s) (t', p') = Some e'" "fe_message_cid e' = c'"
      by (rule feed_ok_position [OF assms(1)])
    with assms(2,4) show ?thesis by (auto simp: bt_get_insert)
  qed
  moreover have "bt_sorted (ms_entries s')" using assms(1,4) by (simp add: feed_ok_def)
  ultimately show ?thesis by (simp add: feed_ok_def)
qed

lemma feed_ok_append:
  assumes "feed_ok s" and "bt_get (ms_positions_by_cid s) (t, c) = None"
    and "checked_add (head_of s t) 1 = Some p" and "fe_message_cid e = c"
    and "distinct (fe_fingerprint_scopes e)"
    and "ms_messages s' = bt_insert (t, c) row (ms_messages s)"
    and "ms_entries s' = bt_insert (t, p) e (ms_entries s)"
    and "ms_heads s' = bt_insert t p (ms_heads s)"
    and "ms_positions_by_cid s' = bt_insert (t, c) p (ms_positions_by_cid s)"
  shows "feed_ok s'"
proof -
  note next_pos = next_position [OF assms(3)]
  have head: "head_of s' t' = (if t' = t then p else head_of s t')" for t'
    using assms(8) by (simp add: head_of_def bt_get_or_def bt_get_insert)
  have "entry_ok s' t' p' e'" if "bt_get (ms_entries s') (t', p') = Some e'" for t' p' e'
  proof (cases "(t', p') = (t, p)")
    case True
    with that assms(7) have "e' = e" by (simp add: bt_get_insert)
    with True assms next_pos(1) head show ?thesis by (auto simp: entry_ok_def bt_get_insert)
  next
    case False
    with that assms(7) have ok: "entry_ok s t' p' e'"
      using feed_ok_entry [OF assms(1), of t' p' e'] by (auto simp: bt_get_insert split: if_splits)
    then have "(t', fe_message_cid e') \<noteq> (t, c)" using assms(2) by (auto simp: entry_ok_def)
    with ok assms head next_pos(3) [of p'] show ?thesis
      by (auto simp: entry_ok_def bt_get_insert intro: less_imp_le)
  qed
  moreover have "\<exists>e'. bt_get (ms_entries s') (t', p') = Some e' \<and> fe_message_cid e' = c'"
    if pos: "bt_get (ms_positions_by_cid s') (t', c') = Some p'" for t' c' p'
  proof (cases "(t', c') = (t, c)")
    case True
    with pos assms show ?thesis by (auto simp: bt_get_insert)
  next
    case False
    with pos assms(9) have "bt_get (ms_positions_by_cid s) (t', c') = Some p'"
      by (auto simp: bt_get_insert)
    then obtain e' where e': "bt_get (ms_entries s) (t', p') = Some e'" "fe_message_cid e' = c'"
      by (rule feed_ok_position [OF assms(1)])
    have "(t', p') \<noteq> (t, p)"
      using feed_ok_entry [OF assms(1) e'(1)] next_pos(3) [of p'] by (auto simp: entry_ok_def)
    with e' assms(7) show ?thesis by (auto simp: bt_get_insert)
  qed
  moreover have "bt_sorted (ms_entries s')" using assms(1,7) by (simp add: feed_ok_def)
  ultimately show ?thesis by (simp add: feed_ok_def)
qed

lemma feed_ok_fresh_position:
  assumes "feed_ok s" and "checked_add (head_of s t) 1 = Some p"
  shows "bt_get (ms_entries s) (t, p) = None"
proof (rule ccontr)
  assume "bt_get (ms_entries s) (t, p) \<noteq> None"
  then obtain e where "entry_ok s t p e" using feed_ok_entry [OF assms(1)] by auto
  with next_position(3) [OF assms(2), of p] show False by (auto simp: entry_ok_def)
qed

lemma put_preserves:
  assumes "store_inv E s" and "put_message_state E t mu s = Inr (s', w)"
  shows "store_inv E s'"
  using assms(2)
proof (cases rule: put_cases)
  case (row c)
  have "feed_ok s'" by (rule feed_ok_rows [OF store_invD(2) [OF assms(1)]]) (simp_all add: row)
  moreover have "fingerprints_ok E s'"
    using store_invD(3) [OF assms(1)] live_cids_same [of s' s] by (simp add: fingerprints_ok_def row)
  ultimately show ?thesis
    using rows_ok_insert [OF store_invD(1) [OF assms(1)] row(1), of s'] by (simp add: store_inv_def row)
next
  case (replace c p e)
  have "feed_ok s'"
    by (rule feed_ok_replace [OF store_invD(2) [OF assms(1)] replace(4)]) (simp_all add: replace)
  moreover have "fingerprints_ok E s'"
  proof -
    have "xor_over (contribution_of E t' scope) (ms_entries s') = xor_over (contribution_of E t' scope) (ms_entries s)"
      for t' scope
    proof -
      have "bt_sorted (ms_entries s)" using store_invD(2) [OF assms(1)] by (simp add: feed_ok_def)
      from xor_over_insert_same [OF this replace(4), of "contribution_of E t' scope" "e\<lparr>fe_indexes := lm_indexes mu\<rparr>"]
      show ?thesis by (simp add: replace(6))
    qed
    then show ?thesis
      using store_invD(3) [OF assms(1)] by (simp add: fingerprints_ok_def live_cids_xor replace(6))
  qed
  ultimately show ?thesis
    using rows_ok_insert [OF store_invD(1) [OF assms(1)] replace(1), of s'] by (simp add: store_inv_def replace)
next
  case (append c p)
  have "feed_ok s'"
    by (rule feed_ok_append [OF store_invD(2) [OF assms(1)] append(3,4)]) (simp_all add: append)
  moreover have "fingerprints_ok E s'"
    using store_invD(3) [OF assms(1)] feed_ok_fresh_position [OF store_invD(2) [OF assms(1)] append(4)]
    by (auto simp: fingerprints_ok_def live_cids_xor append(5) fold_cid_lookup xor_over_insert_fresh)
  ultimately show ?thesis
    using rows_ok_insert [OF store_invD(1) [OF assms(1)] append(1), of s'] by (simp add: store_inv_def append)
qed

text \<open>The two ways a deletion succeeds.\<close>

lemma delete_cases:
  assumes "delete_message_state E t c s = Inr s'"
  obtains (row) "bt_get (ms_positions_by_cid s) (t, c) = None"
      "s' = s\<lparr>ms_messages := bt_remove (t, c) (ms_messages s)\<rparr>"
  | (entry) p e where "bt_get (ms_positions_by_cid s) (t, c) = Some p"
      "bt_get (ms_entries s) (t, p) = Some e" "fe_message_cid e = c"
      "s' = s\<lparr>ms_messages := bt_remove (t, c) (ms_messages s),
              ms_entries := bt_remove (t, p) (ms_entries s),
              ms_positions_by_cid := bt_remove (t, c) (ms_positions_by_cid s),
              ms_fingerprints := fold_cid_into_domain E t c (fe_fingerprint_scopes e) (ms_fingerprints s)\<rparr>"
proof (cases "bt_get (ms_positions_by_cid s) (t, c)")
  case None
  with assms row show ?thesis by (auto simp: delete_message_state_def Let_def)
next
  case (Some p)
  with assms entry show ?thesis
    by (auto simp: delete_message_state_def Let_def split: option.splits if_splits)
qed

lemma feed_ok_delete_row:
  assumes "feed_ok s" and "bt_get (ms_positions_by_cid s) (t, c) = None"
  shows "feed_ok (s\<lparr>ms_messages := bt_remove (t, c) (ms_messages s)\<rparr>)"
  using assms by (fastforce simp: feed_ok_def entry_ok_def head_of_def bt_get_remove)

lemma feed_ok_delete_entry:
  assumes "feed_ok s" and "bt_get (ms_entries s) (t, p) = Some e" and "fe_message_cid e = c"
    and "ms_messages s' = bt_remove (t, c) (ms_messages s)"
    and "ms_entries s' = bt_remove (t, p) (ms_entries s)"
    and "ms_heads s' = ms_heads s"
    and "ms_positions_by_cid s' = bt_remove (t, c) (ms_positions_by_cid s)"
  shows "feed_ok s'"
proof -
  have at: "bt_get (ms_positions_by_cid s) (t, c) = Some p"
    using feed_ok_entry [OF assms(1,2)] assms(3) by (simp add: entry_ok_def)
  have "entry_ok s' t' p' e'" if "bt_get (ms_entries s') (t', p') = Some e'" for t' p' e'
  proof -
    from that assms(5) have ne: "(t', p') \<noteq> (t, p)" and get: "bt_get (ms_entries s) (t', p') = Some e'"
      by (auto simp: bt_get_remove split: if_splits)
    have ok: "entry_ok s t' p' e'" by (rule feed_ok_entry [OF assms(1) get])
    then have "(t', fe_message_cid e') \<noteq> (t, c)" using ne at by (auto simp: entry_ok_def)
    with ok assms(4,6,7) show ?thesis by (auto simp: entry_ok_def head_of_def bt_get_remove)
  qed
  moreover have "\<exists>e'. bt_get (ms_entries s') (t', p') = Some e' \<and> fe_message_cid e' = c'"
    if pos: "bt_get (ms_positions_by_cid s') (t', c') = Some p'" for t' c' p'
  proof -
    from pos assms(7) have ne: "(t', c') \<noteq> (t, c)"
      and get: "bt_get (ms_positions_by_cid s) (t', c') = Some p'"
      by (auto simp: bt_get_remove split: if_splits)
    obtain e' where e': "bt_get (ms_entries s) (t', p') = Some e'" "fe_message_cid e' = c'"
      by (rule feed_ok_position [OF assms(1) get])
    have "(t', p') \<noteq> (t, p)" using ne e' assms(2,3) by auto
    with e' assms(5) show ?thesis by (auto simp: bt_get_remove)
  qed
  moreover have "bt_sorted (ms_entries s')" using assms(1,5) by (simp add: feed_ok_def)
  ultimately show ?thesis by (simp add: feed_ok_def)
qed

lemma delete_preserves:
  assumes "store_inv E s" and "delete_message_state E t c s = Inr s'"
  shows "store_inv E s'"
proof -
  have rows: "rows_ok E s'" if "ms_messages s' = bt_remove (t, c) (ms_messages s)"
    using store_invD(1) [OF assms(1)] that by (auto simp: rows_ok_def bt_get_remove split: if_splits)
  from assms(2) show ?thesis
  proof (cases rule: delete_cases)
    case row
    have "fingerprints_ok E s'"
      using store_invD(3) [OF assms(1)] live_cids_same [of s' s] by (simp add: fingerprints_ok_def row)
    with rows feed_ok_delete_row [OF store_invD(2) [OF assms(1)] row(1)] row(2) show ?thesis
      by (simp add: store_inv_def)
  next
    case (entry p e)
    have feed: "feed_ok s'"
      by (rule feed_ok_delete_entry [OF store_invD(2) [OF assms(1)] entry(2,3)]) (simp_all add: entry)
    have dist: "distinct (fe_fingerprint_scopes e)"
      using feed_ok_entry [OF store_invD(2) [OF assms(1)] entry(2)] by (simp add: entry_ok_def)
    have sorted: "bt_sorted (ms_entries s)" using store_invD(2) [OF assms(1)] by (simp add: feed_ok_def)
    have "fingerprints_ok E s'"
      using store_invD(3) [OF assms(1)] entry(3)
      by (auto simp: fingerprints_ok_def live_cids_xor entry(4) fold_cid_lookup [OF dist]
          xor_over_remove [OF sorted entry(2)])
    with rows feed entry(4) show ?thesis by (simp add: store_inv_def)
  qed
qed

lemma retain_preserves:
  "store_inv E s \<Longrightarrow> retain_message E t mu s = Inr s' \<Longrightarrow> store_inv E s'"
  by (auto simp: retain_message_def rbind_Inr_iff split: if_splits dest: put_preserves)

lemma commit_preserves:
  assumes "store_inv E s" and "commit_latest_state E t tr s = Inr (s', w, pos)"
  shows "store_inv E s'"
proof -
  from assms(2) obtain s1 s2 w' where put: "put_message_state E t (lt_put tr) s = Inr (s1, w')"
    and retains: "try_fold (retain_message E t) (lt_retains tr) s1 = Inr s2"
    and deletes: "try_fold (delete_message_state E t) (lt_deletes tr) s2 = Inr s'"
    by (auto simp: commit_latest_state_def rbind_Inr_iff Let_def)
  have "store_inv E s1" by (rule put_preserves [OF assms(1) put])
  with retains have "store_inv E s2"
    by (rule try_fold_invariant) (rule retain_preserves)
  with deletes show ?thesis
    by (rule try_fold_invariant) (rule delete_preserves)
qed

section \<open>Reachable stores\<close>

inductive store_step :: "'x mext_scheme \<Rightarrow> memory_message_state \<Rightarrow> memory_message_state \<Rightarrow> bool"
  for E :: "'x mext_scheme" where
  step_open: "store_step E s (store_open epoch s)"
| step_put: "store_put E t m ix s = Inr (s', w) \<Longrightarrow> store_step E s s'"
| step_commit: "commit_latest_state E t tr s = Inr (s', w, pos) \<Longrightarrow> store_step E s s'"
| step_delete: "store_delete E t c s = Inr s' \<Longrightarrow> store_step E s s'"
| step_clear: "store_step E s (store_clear epoch s)"

inductive_cases store_stepE: "store_step E s s'"

inductive store_reachable :: "'x mext_scheme \<Rightarrow> memory_message_state \<Rightarrow> bool"
  for E :: "'x mext_scheme" where
  reach_start: "store_reachable E memory_message_state_default"
| reach_step: "store_reachable E s \<Longrightarrow> store_step E s s' \<Longrightarrow> store_reachable E s'"

lemma store_inv_empty:
  "ms_messages s = [] \<Longrightarrow> ms_heads s = [] \<Longrightarrow> ms_entries s = [] \<Longrightarrow> ms_positions_by_cid s = []
    \<Longrightarrow> ms_fingerprints s = [] \<Longrightarrow> store_inv E s"
  by (simp add: store_inv_def rows_ok_def feed_ok_def fingerprints_ok_def live_cids_def bt_get_or_def)

lemma store_inv_epoch: "store_inv E (s\<lparr>ms_epoch := epoch\<rparr>) = store_inv E s"
  by (simp add: store_inv_def rows_ok_def feed_ok_def entry_ok_def head_of_def fingerprints_ok_def live_cids_def)

lemma step_preserves: "store_step E s s' \<Longrightarrow> store_inv E s \<Longrightarrow> store_inv E s'"
  by (cases rule: store_step.cases, assumption)
     (auto simp: store_open_def store_inv_epoch store_put_def store_delete_def store_clear_def
       intro: put_preserves commit_preserves delete_preserves store_inv_empty)

lemma reachable_inv: "store_reachable E s \<Longrightarrow> store_inv E s"
  by (induction rule: store_reachable.induct)
     (auto simp: memory_message_state_default_def intro: store_inv_empty step_preserves)

section \<open>An example store\<close>

text \<open>Two writes of one record and a deletion of the first.\<close>

definition sample_indexes :: "string \<Rightarrow> key_values" where
  "sample_indexes stamp =
     [(''messageTimestamp'', VString stamp), (''protocol'', VString ''http://chat'')]"

definition try_put ::
  "'x mext_scheme \<Rightarrow> string \<Rightarrow> message \<Rightarrow> key_values \<Rightarrow> memory_message_state \<Rightarrow> memory_message_state" where
  "try_put E t m ix s = (case store_put E t m ix s of Inr r \<Rightarrow> fst r | Inl _ \<Rightarrow> s)"

definition try_delete ::
  "'x mext_scheme \<Rightarrow> string \<Rightarrow> string \<Rightarrow> memory_message_state \<Rightarrow> memory_message_state" where
  "try_delete E t c s = (case store_delete E t c s of Inr s' \<Rightarrow> s' | Inl _ \<Rightarrow> s)"

lemma reach_try_put: "store_reachable E s \<Longrightarrow> store_reachable E (try_put E t m ix s)"
  by (auto simp: try_put_def split: sum.splits intro: reach_step [OF _ step_put])

lemma reach_try_delete: "store_reachable E s \<Longrightarrow> store_reachable E (try_delete E t c s)"
  by (auto simp: try_delete_def split: sum.splits intro: reach_step [OF _ step_delete])

definition sample_store :: memory_message_state where
  "sample_store =
     try_delete plain_mext ''did:a'' ''bafyRecordsWrite5''
       (try_put plain_mext ''did:a'' (sample_write 12) (sample_indexes ''@12'')
         (try_put plain_mext ''did:a'' (sample_write 9) (sample_indexes ''@9'')
           (try_put plain_mext ''did:a'' (sample_write 5) (sample_indexes ''@5'')
             (store_open ''epoch'' memory_message_state_default))))"

lemma sample_store_reachable: "store_reachable plain_mext sample_store"
  unfolding sample_store_def
  by (intro reach_try_delete reach_try_put reach_step [OF reach_start step_open])

section \<open>Properties\<close>

text \<open>
  C2: the invariant of the message store. In every store that can be reached from the empty
  one by opening, putting, deleting, committing transitions and clearing, each row is stored
  under the CID of its message; each feed entry lies at a position between one and the tenant's
  head, is found under its CID in the position index and has its message; each indexed position
  has its entry; and each stored fingerprint is the XOR of the hashes of the CIDs that are live
  in its scope.
\<close>

theorem reachable_store_invariant:
  assumes "store_reachable E s"
  shows "(\<forall>t c row. bt_get (ms_messages s) (t, c) = Some row
            \<longrightarrow> mr_cid row = c \<and> message_cid E (mr_message row) = Inr c)
    \<and> (\<forall>t p e. bt_get (ms_entries s) (t, p) = Some e
            \<longrightarrow> 0 < p \<and> p \<le> head_of s t
              \<and> bt_get (ms_positions_by_cid s) (t, fe_message_cid e) = Some p
              \<and> bt_get (ms_messages s) (t, fe_message_cid e) \<noteq> None)
    \<and> (\<forall>t c p. bt_get (ms_positions_by_cid s) (t, c) = Some p
            \<longrightarrow> (\<exists>e. bt_get (ms_entries s) (t, p) = Some e \<and> fe_message_cid e = c))
    \<and> (\<forall>t scope. bt_get_or 0 (ms_fingerprints s) (t, scope)
            = xor_over (cid_contribution E) (live_cids s t scope))"
  using reachable_inv [OF assms]
  by (simp add: store_inv_def rows_ok_def feed_ok_def fingerprints_ok_def entry_ok_def)

theorem reachable_store_invariant_witness:
  "\<forall>t scope. bt_get_or 0 (ms_fingerprints sample_store) (t, scope)
     = xor_over (cid_contribution plain_mext) (live_cids sample_store t scope)"
  using reachable_store_invariant [OF sample_store_reachable] by blast

end
