(* ===== verification/Paging.thy ===== *)
theory Paging
  imports Prelude
begin

text \<open>
  The contract of a paged reader and its client: a loop that asks for page after page until the
  reader reports that nothing is left. The replication feed, the event log and store queries are
  paged readers; each is shown to meet the contract in its own theory.
\<close>

text \<open>
  A reader answers a page request at a cursor with events, the next cursor and whether the source
  is drained. \<open>pending\<close> is what is still to be read at a cursor and \<open>lag\<close> bounds how many
  further requests make progress.
\<close>

locale paged_reader =
  fixes read_page :: "'cursor \<Rightarrow> 'event list \<times> 'cursor \<times> bool"
    and pending :: "'cursor \<Rightarrow> 'event list"
    and lag :: "'cursor \<Rightarrow> nat"
    and valid :: "'cursor \<Rightarrow> bool"
  assumes page_valid: "\<lbrakk>valid c; read_page c = (es, c', d)\<rbrakk> \<Longrightarrow> valid c'"
    and page_splits: "\<lbrakk>valid c; read_page c = (es, c', d)\<rbrakk> \<Longrightarrow> pending c = es @ pending c'"
    and page_drained: "\<lbrakk>valid c; read_page c = (es, c', True)\<rbrakk> \<Longrightarrow> pending c' = []"
    and page_progress: "\<lbrakk>valid c; read_page c = (es, c', False)\<rbrakk> \<Longrightarrow> lag c' < lag c"

fun drain :: "('cursor \<Rightarrow> 'event list \<times> 'cursor \<times> bool) \<Rightarrow> nat \<Rightarrow> 'cursor \<Rightarrow> 'event list \<times> bool" where
  "drain read_page 0 c = ([], False)"
| "drain read_page (Suc fuel) c =
     (case read_page c of (es, c', drained) \<Rightarrow>
        if drained then (es, True)
        else (case drain read_page fuel c' of (es', finished) \<Rightarrow> (es @ es', finished)))"

context paged_reader
begin

text \<open>Draining terminates and delivers every pending event exactly once, in order.\<close>

lemma drain_delivers: "\<lbrakk>valid c; lag c < fuel\<rbrakk> \<Longrightarrow> drain read_page fuel c = (pending c, True)"
proof (induction fuel arbitrary: c)
  case (Suc fuel)
  obtain es c' d where page: "read_page c = (es, c', d)" by (metis prod_cases3)
  show ?case
  proof (cases d)
    case True
    with page page_splits [OF Suc.prems(1) page] page_drained [of c es c'] Suc.prems(1) show ?thesis by simp
  next
    case False
    have "lag c' < lag c" using page_progress [of c es c'] page False Suc.prems(1) by simp
    then have "drain read_page fuel c' = (pending c', True)"
      using Suc.IH [OF page_valid [OF Suc.prems(1) page]] Suc.prems(2) by simp
    with page False page_splits [OF Suc.prems(1) page] show ?thesis by simp
  qed
qed simp

end

end
