(* ===== verification/FeedReading.thy ===== *)
theory FeedReading
  imports StoreInvariant Paging
begin

text \<open>
  Reading the feed: on a store that satisfies the invariant a read with a valid cursor never
  fails, returns the live entries after the cursor in order, and hands back a cursor from which
  reading continues without loss or repetition. The store's reader meets the contract of
  \<open>Paging\<close>, so draining it page by page terminates and delivers everything.
\<close>

section \<open>Positions\<close>

lemma positions_after_append:
  assumes "positions_after start head = done @ rest" and "done \<noteq> []"
  shows "rest = positions_after (last done) head" and "start < last done" and "last done \<le> head"
proof -
  let ?a = "unat start" and ?b = "unat head" and ?k = "length done"
  have len: "length (positions_after start head) = ?b - ?a" by (simp add: positions_after_def del: upt_Suc)
  have "?k + length rest = ?b - ?a" using arg_cong [OF assms(1), of length] len by simp
  then have k: "0 < ?k" "?k \<le> ?b - ?a" using assms(2) by auto
  have nth: "done ! i = of_nat (?a + 1 + i)" if "i < ?k" for i
  proof -
    have "done ! i = positions_after start head ! i" using assms(1) that by (simp add: nth_append)
    with that k show ?thesis by (simp add: positions_after_def del: upt_Suc)
  qed
  have last: "last done = of_nat (?a + ?k)"
    using nth [of "?k - 1"] k assms(2) by (simp add: last_conv_nth)
  have le: "?a + ?k \<le> ?b" using k by linarith
  then have bound: "?a + ?k < 2 ^ 64" using unat_lt_64 [of head] by linarith
  have "unat (of_nat m :: u64) = m" if "m < 2 ^ 64" for m
    using that by (simp add: unat_of_nat take_bit_nat_eq_self)
  from this [OF bound] have unat_last: "unat (last done) = ?a + ?k" unfolding last .
  then show "start < last done" "last done \<le> head"
    using k le by (simp_all add: word_less_nat_alt word_le_nat_alt)
  have "rest = drop ?k (positions_after start head)" using assms(1) by simp
  also have "\<dots> = map of_nat [?a + 1 + ?k ..< ?b + 1]"
    by (simp add: positions_after_def drop_map del: upt_Suc)
  also have "\<dots> = positions_after (last done) head"
    by (simp add: positions_after_def unat_last add.commute del: upt_Suc)
  finally show "rest = positions_after (last done) head" .
qed

lemma positions_after_self [simp]: "positions_after p p = []"
  by (simp add: positions_after_def)

lemma positions_after_nonempty: "start < head \<Longrightarrow> positions_after start head \<noteq> []"
  by (simp add: positions_after_def word_less_nat_alt)

section \<open>Scanning\<close>

definition live_entry :: "'x ext_scheme \<Rightarrow> memory_message_state \<Rightarrow> string \<Rightarrow> filters option \<Rightarrow> u64 \<Rightarrow> bool" where
  "live_entry E s t fs p =
     (case bt_get (ms_entries s) (t, p) of None \<Rightarrow> False | Some e \<Rightarrow> matches_filters E (fe_indexes e) fs)"

definition live_after :: "'x ext_scheme \<Rightarrow> memory_message_state \<Rightarrow> string \<Rightarrow> filters option \<Rightarrow> u64 \<Rightarrow> u64 list" where
  "live_after E s t fs start = filter (live_entry E s t fs) (positions_after start (head_of s t))"

text \<open>An event faithfully reports the entry and the message stored at its position.\<close>

definition reports :: "memory_message_state \<Rightarrow> string \<Rightarrow> event_log_entry \<Rightarrow> u64 \<Rightarrow> bool" where
  "reports s t ev p \<longleftrightarrow>
     (\<exists>e row. bt_get (ms_entries s) (t, p) = Some e
        \<and> bt_get (ms_messages s) (t, fe_message_cid e) = Some row
        \<and> ele_seq ev = u64_to_string p \<and> ele_message_cid ev = Some (fe_message_cid e)
        \<and> ele_indexes ev = fe_indexes e
        \<and> me_message (ele_event ev) =
            (mr_message row)\<lparr>msg_fields := snd (take_encoded_data (msg_fields (mr_message row)))\<rparr>)"

lemma take_encoded_data_kind:
  "fst (take_encoded_data f) = None \<or> (\<exists>x. fst (take_encoded_data f) = Some (VString x))"
  by (cases f rule: take_encoded_data.cases) auto

lemma log_event_reports:
  assumes "store_inv E s" and "bt_get (ms_entries s) (t, p) = Some e"
  obtains ev where "log_event E s t p e = Inr ev" and "reports s t ev p"
proof -
  have "entry_ok s t p e" by (rule feed_ok_entry [OF store_invD(2) [OF assms(1)] assms(2)])
  then obtain row where row: "bt_get (ms_messages s) (t, fe_message_cid e) = Some row"
    by (auto simp: entry_ok_def)
  with store_invD(1) [OF assms(1)]
  have c: "mr_cid row = fe_message_cid e" "message_cid E (mr_message row) = Inr (fe_message_cid e)"
    by (auto simp: rows_ok_def)
  have "\<exists>ev. log_event E s t p e = Inr ev \<and> reports s t ev p"
    using take_encoded_data_kind [of "msg_fields (mr_message row)"] row c assms(2)
    by (auto simp: log_event_def reports_def case_prod_beta Let_def)
  with that show ?thesis by blast
qed

lemma log_scan_pages:
  assumes "store_inv E s"
  shows "length evs < n \<Longrightarrow>
    \<exists>new last' done rest. log_scan E s t fs n ps (evs, last0) = Inr (evs @ new, last')
      \<and> ps = done @ rest \<and> last' = (if done = [] then last0 else last done)
      \<and> (ps \<noteq> [] \<longrightarrow> done \<noteq> [])
      \<and> list_all2 (reports s t) new (filter (live_entry E s t fs) done)
      \<and> length (evs @ new) \<le> n \<and> (length (evs @ new) < n \<longrightarrow> rest = [])"
proof (induction ps arbitrary: evs last0)
  case Nil
  then show ?case by simp
next
  case (Cons p ps)
  show ?case
  proof (cases "live_entry E s t fs p")
    case False
    then have "log_scan E s t fs n (p # ps) (evs, last0) = log_scan E s t fs n ps (evs, p)"
      by (auto simp: live_entry_def split: option.splits)
    moreover obtain new last' "done" rest where "log_scan E s t fs n ps (evs, p) = Inr (evs @ new, last')"
      "ps = done @ rest" "last' = (if done = [] then p else last done)"
      "list_all2 (reports s t) new (filter (live_entry E s t fs) done)"
      "length (evs @ new) \<le> n" "length (evs @ new) < n \<longrightarrow> rest = []"
      using Cons.IH [OF Cons.prems] by blast
    ultimately show ?thesis using False by (intro exI [of _ new] exI [of _ last'] exI [of _ "p # done"] exI [of _ rest]) auto
  next
    case True
    then obtain e where e: "bt_get (ms_entries s) (t, p) = Some e" "matches_filters E (fe_indexes e) fs"
      by (auto simp: live_entry_def split: option.splits)
    obtain ev where ev: "log_event E s t p e = Inr ev" "reports s t ev p"
      by (rule log_event_reports [OF assms e(1)])
    show ?thesis
    proof (cases "length (evs @ [ev]) \<ge> n")
      case full: True
      with e ev True Cons.prems show ?thesis
        by (intro exI [of _ "[ev]"] exI [of _ p] exI [of _ "[p]"] exI [of _ ps]) auto
    next
      case more: False
      then obtain new last' "done" rest
        where scan: "log_scan E s t fs n ps (evs @ [ev], p) = Inr ((evs @ [ev]) @ new, last')"
        "ps = done @ rest" "last' = (if done = [] then p else last done)"
        "list_all2 (reports s t) new (filter (live_entry E s t fs) done)"
        "length ((evs @ [ev]) @ new) \<le> n" "length ((evs @ [ev]) @ new) < n \<longrightarrow> rest = []"
        using Cons.IH [of "evs @ [ev]" p] by auto
      with e ev True more show ?thesis
        by (intro exI [of _ "ev # new"] exI [of _ last'] exI [of _ "p # done"] exI [of _ rest]) auto
    qed
  qed
qed

section \<open>Reading\<close>

lemma check_log_cursor_token:
  assumes "p \<le> head_of s t"
    and "\<And>e c. bt_get (ms_entries s) (t, p) = Some e \<Longrightarrow> mcid = Some c \<Longrightarrow> fe_message_cid e = c"
  shows "check_log_cursor E t (Some (build_token E t (ms_epoch s) p mcid)) s = Inr p"
  using assms
  by (cases mcid; cases "bt_get (ms_entries s) (t, p)")
     (simp_all add: check_log_cursor_def Let_def validate_feed_cursor_def not_less [symmetric])

lemma check_log_cursor_Inr:
  assumes "check_log_cursor E t cursor s = Inr p"
  shows "(case cursor of None \<Rightarrow> 0
      | Some c \<Rightarrow> (case parse_feed_position (pt_position c) of Inl _ \<Rightarrow> 0 | Inr p \<Rightarrow> p)) = p"
    and "p \<le> head_of s t"
proof -
  have "p \<le> head_of s t \<and> (case cursor of None \<Rightarrow> 0
      | Some c \<Rightarrow> (case parse_feed_position (pt_position c) of Inl _ \<Rightarrow> 0 | Inr p \<Rightarrow> p)) = p"
  proof (cases cursor)
    case None
    with assms show ?thesis by (simp add: check_log_cursor_def)
  next
    case (Some c)
    with assms show ?thesis
      by (auto simp: check_log_cursor_def Let_def validate_feed_cursor_def rbind_Inr_iff
          split: if_splits option.splits)
  qed
  then show "p \<le> head_of s t" and "(case cursor of None \<Rightarrow> 0
      | Some c \<Rightarrow> (case parse_feed_position (pt_position c) of Inl _ \<Rightarrow> 0 | Inr p \<Rightarrow> p)) = p"
    by blast+
qed

definition valid_filters :: "filters option \<Rightarrow> bool" where
  "valid_filters fs = (case fs of None \<Rightarrow> True | Some f \<Rightarrow> has_valid_subtree_filters f)"

text \<open>The outcome of one read, relative to the position the cursor stands for.\<close>

definition page_ok ::
  "'x mext_scheme \<Rightarrow> memory_message_state \<Rightarrow> string \<Rightarrow> filters option \<Rightarrow> u64 option \<Rightarrow> u64
    \<Rightarrow> event_log_read_result \<Rightarrow> bool" where
  "page_ok E s t fs limit start r \<longleftrightarrow>
     (\<exists>token next read.
        rr_cursor r = Some token \<and> check_log_cursor E t (Some token) s = Inr next
        \<and> start \<le> next \<and> (rr_drained r \<longleftrightarrow> next = head_of s t) \<and> (\<not> rr_drained r \<longrightarrow> start < next)
        \<and> live_after E s t fs start = read @ live_after E s t fs next
        \<and> list_all2 (reports s t) (rr_events r) read
        \<and> (case limit of None \<Rightarrow> True | Some l \<Rightarrow> length (rr_events r) \<le> unat l))"

lemma page_ok_empty:
  assumes "rr_events r = []" and "rr_cursor r = Some token" and "rr_drained r"
    and "check_log_cursor E t (Some token) s = Inr start" and "start = head_of s t"
  shows "page_ok E s t fs limit start r"
  unfolding page_ok_def using assms
  by (intro exI [of _ token] exI [of _ start] exI [of _ "[]"]) (simp split: option.splits)

lemma log_cursor_valid:
  assumes "list_all2 (reports s t) events ps" and "p \<le> head_of s t"
  shows "check_log_cursor E t (Some (log_cursor E t (ms_epoch s) events p)) s = Inr p"
proof -
  have "\<exists>q. reports s t (last events) q" if "events \<noteq> []"
    using assms(1) that by (metis last_in_set list_all2_conv_all_nth in_set_conv_nth)
  then show ?thesis
    unfolding log_cursor_def
    by (intro check_log_cursor_token assms(2)) (auto simp: reports_def split: if_splits)
qed

lemma log_read_page:
  assumes inv: "store_inv E s" and fs: "valid_filters (ro_filters opts)"
    and cur: "check_log_cursor E t (ro_cursor opts) s = Inr start" and lim: "ro_limit opts \<noteq> Some 0"
  shows "\<exists>r. log_read E t opts s = Inr r \<and> page_ok E s t (ro_filters opts) (ro_limit opts) start r"
proof -
  let ?head = "head_of s t"
  let ?max = "case ro_limit opts of None \<Rightarrow> u64_max | Some l \<Rightarrow> l"
  note start = check_log_cursor_Inr [OF cur]
  have flt: "\<not> (case ro_filters opts of None \<Rightarrow> False | Some fs \<Rightarrow> \<not> has_valid_subtree_filters fs)"
    using fs by (simp add: valid_filters_def split: option.splits)
  have max0: "?max \<noteq> 0" using lim by (auto simp: u64_max_def split: option.splits)
  show ?thesis
  proof (cases "start = ?head")
    case True
    have zero: "check_log_cursor E t (Some (build_token E t (ms_epoch s) start None)) s = Inr start"
      by (rule check_log_cursor_token) (simp_all add: start)
    show ?thesis
    proof (cases "?head = 0")
      case head0: True
      let ?anchor = "case ro_cursor opts of Some c \<Rightarrow> c | None \<Rightarrow> build_token E t (ms_epoch s) 0 None"
      have "check_log_cursor E t (Some ?anchor) s = Inr start"
        using cur zero True head0 by (cases "ro_cursor opts") simp_all
      then have "page_ok E s t (ro_filters opts) (ro_limit opts) start
          \<lparr>rr_events = [], rr_cursor = Some ?anchor, rr_drained = True\<rparr>"
        using True by (intro page_ok_empty) simp_all
      then show ?thesis using flt cur head0 by (simp add: log_read_def Let_def)
    next
      case False
      have "page_ok E s t (ro_filters opts) (ro_limit opts) start
          \<lparr>rr_events = [], rr_cursor = Some (build_token E t (ms_epoch s) start None), rr_drained = True\<rparr>"
        using zero True by (intro page_ok_empty) simp_all
      then show ?thesis using flt cur False True max0 start(1) by (simp add: log_read_def Let_def)
    qed
  next
    case False
    with start(2) have less: "start < ?head" by simp
    have "length [] < unat ?max" using max0 by (simp add: unat_gt_0)
    from log_scan_pages [OF inv this, of t "ro_filters opts" "positions_after start ?head" start]
    obtain events last' "done" rest
      where scan: "log_scan E s t (ro_filters opts) (unat ?max) (positions_after start ?head) ([], start)
          = Inr ([] @ events, last')"
      and split: "positions_after start ?head = done @ rest"
      and last': "last' = (if done = [] then start else last done)"
      and ne: "positions_after start ?head \<noteq> [] \<longrightarrow> done \<noteq> []"
      and rep: "list_all2 (reports s t) events (filter (live_entry E s t (ro_filters opts)) done)"
      and len: "length ([] @ events) \<le> unat ?max"
      by blast
    have "done \<noteq> []" using ne positions_after_nonempty [OF less] by blast
    with last' have lst: "last' = last done" by simp
    note pos = positions_after_append [OF split \<open>done \<noteq> []\<close>]
    let ?r = "\<lparr>rr_events = events, rr_cursor = Some (log_cursor E t (ms_epoch s) events last'),
      rr_drained = (?head \<le> last')\<rparr>"
    have "page_ok E s t (ro_filters opts) (ro_limit opts) start ?r"
      unfolding page_ok_def
      using pos split lst len rep log_cursor_valid [OF rep, of last' E]
      by (intro exI [of _ "log_cursor E t (ms_epoch s) events last'"] exI [of _ last']
          exI [of _ "filter (live_entry E s t (ro_filters opts)) done"])
         (auto simp: live_after_def split: option.splits)
    moreover have "log_read E t opts s = Inr ?r"
      using flt cur less start(1) max0 scan by (auto simp: log_read_def Let_def)
    ultimately show ?thesis by blast
  qed
qed

section \<open>Draining a tenant's feed\<close>

definition feed_page ::
  "'x mext_scheme \<Rightarrow> string \<Rightarrow> filters option \<Rightarrow> u64 option \<Rightarrow> memory_message_state \<Rightarrow> progress_token
    \<Rightarrow> string list \<times> progress_token \<times> bool" where
  "feed_page E t fs limit s token =
     (case log_read E t \<lparr>ro_cursor = Some token, ro_limit = limit, ro_filters = fs\<rparr> s of
        Inl _ \<Rightarrow> ([], token, True)
      | Inr r \<Rightarrow> (map ele_seq (rr_events r),
                  case rr_cursor r of None \<Rightarrow> token | Some c \<Rightarrow> c, rr_drained r))"

definition feed_valid ::
  "'x mext_scheme \<Rightarrow> string \<Rightarrow> filters option \<Rightarrow> u64 option \<Rightarrow> memory_message_state \<Rightarrow> progress_token \<Rightarrow> bool" where
  "feed_valid E t fs limit s token \<longleftrightarrow>
     store_inv E s \<and> valid_filters fs \<and> limit \<noteq> Some 0
     \<and> check_log_cursor E t (Some token) s = Inr (token_position token)"

definition feed_pending ::
  "'x mext_scheme \<Rightarrow> string \<Rightarrow> filters option \<Rightarrow> memory_message_state \<Rightarrow> progress_token \<Rightarrow> string list" where
  "feed_pending E t fs s token = map u64_to_string (live_after E s t fs (token_position token))"

definition feed_lag :: "string \<Rightarrow> memory_message_state \<Rightarrow> progress_token \<Rightarrow> nat" where
  "feed_lag t s token = unat (head_of s t) - unat (token_position token)"

lemma check_log_cursor_position:
  "check_log_cursor E t (Some token) s = Inr p \<Longrightarrow> token_position token = p"
  using check_log_cursor_Inr(1) [of E t "Some token" s p] by (simp add: token_position_def)

lemma feed_page_outcome:
  assumes "feed_valid E t fs limit s c" and "feed_page E t fs limit s c = (es, c', d)"
  shows "feed_valid E t fs limit s c' \<and> feed_pending E t fs s c = es @ feed_pending E t fs s c'
    \<and> (d \<longrightarrow> token_position c' = head_of s t) \<and> (\<not> d \<longrightarrow> token_position c < token_position c')
    \<and> token_position c' \<le> head_of s t"
proof -
  let ?opts = "\<lparr>ro_cursor = Some c, ro_limit = limit, ro_filters = fs\<rparr>"
  have valid: "store_inv E s" "valid_filters fs" "limit \<noteq> Some 0"
    and cur: "check_log_cursor E t (Some c) s = Inr (token_position c)"
    using assms(1) by (simp_all add: feed_valid_def)
  obtain r where r: "log_read E t ?opts s = Inr r" and ok: "page_ok E s t fs limit (token_position c) r"
    using log_read_page [of E s ?opts t] valid cur by auto
  from ok obtain token q read where tok: "rr_cursor r = Some token"
    and q: "check_log_cursor E t (Some token) s = Inr q"
    and facts: "rr_drained r \<longleftrightarrow> q = head_of s t" "\<not> rr_drained r \<longrightarrow> token_position c < q"
      "live_after E s t fs (token_position c) = read @ live_after E s t fs q"
      "list_all2 (reports s t) (rr_events r) read"
    unfolding page_ok_def by blast
  have nxt: "check_log_cursor E t (Some c') s = Inr q"
    using q r tok assms(2) by (simp add: feed_page_def)
  have pos: "token_position c' = q" by (rule check_log_cursor_position [OF nxt])
  have "map ele_seq (rr_events r) = map u64_to_string read"
    using facts(4) by (induction rule: list_all2_induct) (auto simp: reports_def)
  with facts pos nxt valid r assms(2) check_log_cursor_Inr(2) [OF nxt] show ?thesis
    by (auto simp: feed_valid_def feed_pending_def feed_page_def)
qed

interpretation feed: paged_reader "feed_page E t fs limit s" "feed_pending E t fs s" "feed_lag t s"
  "feed_valid E t fs limit s" for E :: "'x mext_scheme" and t fs limit s
proof unfold_locales
  fix c es c' d
  assume c: "feed_valid E t fs limit s c"
  show "feed_valid E t fs limit s c'" if "feed_page E t fs limit s c = (es, c', d)"
    using feed_page_outcome [OF c that] by blast
  show "feed_pending E t fs s c = es @ feed_pending E t fs s c'" if "feed_page E t fs limit s c = (es, c', d)"
    using feed_page_outcome [OF c that] by blast
  show "feed_pending E t fs s c' = []" if "feed_page E t fs limit s c = (es, c', True)"
    using feed_page_outcome [OF c that] by (simp add: feed_pending_def live_after_def)
  show "feed_lag t s c' < feed_lag t s c" if "feed_page E t fs limit s c = (es, c', False)"
    using feed_page_outcome [OF c that]
    by (auto simp: feed_lag_def word_less_nat_alt word_le_nat_alt intro: diff_less_mono2)
qed

section \<open>Properties\<close>

text \<open>
  C5: a read of the feed never fails on a reachable store when its filters are well formed, its
  cursor is valid and its limit is not zero. It returns the matching live entries after the
  cursor in position order, at most \<open>limit\<close> of them, each with the stored message and
  indexes; the returned cursor is itself valid, what was pending before is what was returned
  followed by what is pending at the returned cursor; and the read reports \<open>drained\<close> exactly
  when the cursor has reached the head, otherwise the cursor has moved forward.
\<close>

theorem log_read_is_exact:
  assumes "store_reachable E s" and "valid_filters (ro_filters opts)"
    and "check_log_cursor E t (ro_cursor opts) s = Inr start" and "ro_limit opts \<noteq> Some 0"
  shows "\<exists>r token next read.
      log_read E t opts s = Inr r \<and> rr_cursor r = Some token
      \<and> check_log_cursor E t (Some token) s = Inr next
      \<and> (rr_drained r \<longleftrightarrow> next = head_of s t) \<and> (\<not> rr_drained r \<longrightarrow> start < next)
      \<and> live_after E s t (ro_filters opts) start = read @ live_after E s t (ro_filters opts) next
      \<and> list_all2 (reports s t) (rr_events r) read
      \<and> (case ro_limit opts of None \<Rightarrow> True | Some l \<Rightarrow> length (rr_events r) \<le> unat l)"
  using log_read_page [OF reachable_inv [OF assms(1)] assms(2-4)] unfolding page_ok_def by blast

theorem log_read_is_exact_witness:
  "\<exists>r. log_read plain_mext ''did:a'' event_log_read_options_default sample_store = Inr r
     \<and> (\<exists>read. list_all2 (reports sample_store ''did:a'') (rr_events r) read)"
proof -
  have "valid_filters (ro_filters event_log_read_options_default)"
    "check_log_cursor plain_mext ''did:a'' (ro_cursor event_log_read_options_default) sample_store = Inr 0"
    "ro_limit event_log_read_options_default \<noteq> Some 0"
    by (simp_all add: event_log_read_options_default_def valid_filters_def check_log_cursor_def)
  from log_read_is_exact [OF sample_store_reachable this] show ?thesis by blast
qed

text \<open>
  C4: draining a feed page by page terminates and delivers every matching live entry exactly
  once, in order, whatever the page size: starting at a valid cursor, as many requests as there
  are positions up to the head (plus one) suffice.
\<close>

theorem drain_feed_complete:
  assumes "store_reachable E s" and "valid_filters fs" and "limit \<noteq> Some 0"
    and "check_log_cursor E t (Some token) s = Inr start"
  shows "drain (feed_page E t fs limit s) (unat (head_of s t) + 1) token
    = (map u64_to_string (live_after E s t fs start), True)"
proof -
  have pos: "token_position token = start" by (rule check_log_cursor_position [OF assms(4)])
  have "feed_valid E t fs limit s token"
    using assms reachable_inv [OF assms(1)] pos by (simp add: feed_valid_def)
  moreover have "feed_lag t s token < unat (head_of s t) + 1" by (simp add: feed_lag_def less_Suc_eq_le)
  ultimately have "drain (feed_page E t fs limit s) (unat (head_of s t) + 1) token = (feed_pending E t fs s token, True)"
    by (rule feed.drain_delivers)
  then show ?thesis by (simp add: feed_pending_def pos)
qed

theorem drain_feed_complete_witness:
  "drain (feed_page plain_mext ''did:a'' None (Some 1) sample_store) (unat (head_of sample_store ''did:a'') + 1)
     (build_token plain_mext ''did:a'' (ms_epoch sample_store) 0 None)
   = (map u64_to_string (live_after plain_mext sample_store ''did:a'' None 0), True)"
  by (rule drain_feed_complete [OF sample_store_reachable _ _ check_log_cursor_token])
     (simp_all add: valid_filters_def)

end
