(* ===== verification/RecordsState.thy ===== *)
theory RecordsState
  imports Messages
begin

text \<open>
  The latest-state order of Records messages and transition planning
  (\<open>handlers/records/state.rs\<close>): prune over delete over write, then message timestamp, then
  message CID. The main result is convergence: replaying the planned transitions of any
  collection of state messages for one record leaves the same winner, in whatever order and
  multiplicity the messages arrive.
\<close>

section \<open>Order\<close>

datatype records_state_class = ClassWrite | ClassDelete | ClassPrune

fun class_rank :: "records_state_class \<Rightarrow> nat" where
  "class_rank ClassWrite = 0"
| "class_rank ClassDelete = 1"
| "class_rank ClassPrune = 2"

instantiation records_state_class :: linorder
begin

definition less_eq_records_state_class :: "records_state_class \<Rightarrow> records_state_class \<Rightarrow> bool" where
  "less_eq_records_state_class a b = (class_rank a \<le> class_rank b)"

definition less_records_state_class :: "records_state_class \<Rightarrow> records_state_class \<Rightarrow> bool" where
  "less_records_state_class a b = (class_rank a < class_rank b)"

instance
proof
  fix a b :: records_state_class
  show "a \<le> b \<Longrightarrow> b \<le> a \<Longrightarrow> a = b"
    by (cases a; cases b) (auto simp: less_eq_records_state_class_def)
qed (auto simp: less_eq_records_state_class_def less_records_state_class_def)

end

record records_state_order =
  so_class :: records_state_class
  so_message_timestamp :: instant
  so_message_cid :: string
  so_record_id :: string

definition state_order :: "'x mext_scheme \<Rightarrow> message \<Rightarrow> (string, records_state_order) result" where
  "state_order E m =
     (let key = (case msg_descriptor m of
          DescriptorRecords (RecordsWrite d) \<Rightarrow>
            (case record_id m of
               None \<Rightarrow> Inl ''RecordsStateRecordIdMissing: RecordsWrite recordId is required''
             | Some r \<Rightarrow> Inr (ClassWrite, wd_message_timestamp d, r))
        | DescriptorRecords (RecordsDelete d) \<Rightarrow>
            Inr (if dd_prune d then ClassPrune else ClassDelete, dd_message_timestamp d, dd_record_id d)
        | _ \<Rightarrow> Inl ''RecordsStateMessageExpected: message must be RecordsWrite or RecordsDelete'')
      in rbind key (\<lambda>(class, timestamp, rid).
           rbind (message_cid E m) (\<lambda>c.
             Inr \<lparr>so_class = class, so_message_timestamp = timestamp, so_message_cid = c,
                  so_record_id = rid\<rparr>)))"

definition compare_order :: "records_state_order \<Rightarrow> records_state_order \<Rightarrow> ordering" where
  "compare_order l r =
     ord_then (ord_cmp (so_class l) (so_class r))
       (ord_then (ord_cmp (so_message_timestamp l) (so_message_timestamp r))
         (ord_cmp (so_message_cid l) (so_message_cid r)))"

definition record_id_mismatch :: string where
  "record_id_mismatch = ''RecordsStateRecordIdMismatch''"

definition compare_records_state :: "'x mext_scheme \<Rightarrow> message \<Rightarrow> message \<Rightarrow> (string, ordering) result" where
  "compare_records_state E left right =
     rbind (state_order E left) (\<lambda>l.
     rbind (state_order E right) (\<lambda>r.
       if so_record_id l \<noteq> so_record_id r then Inl record_id_mismatch
       else Inr (compare_order l r)))"

section \<open>Planning\<close>

datatype records_transition_plan =
    PlanDuplicate string
  | PlanSuperseded string string
  | PlanApply string "string list"

text \<open>
  The loop over the retained messages: an early return is \<open>Inl\<close>, the collected orders are
  \<open>Inr\<close>.
\<close>

fun scan_retained :: "'x mext_scheme \<Rightarrow> records_state_order \<Rightarrow> message list \<Rightarrow> records_state_order list
    \<Rightarrow> (string, records_transition_plan + records_state_order list) result" where
  "scan_retained E candidate [] states = Inr (Inr states)"
| "scan_retained E candidate (m # ms) states =
     rbind (state_order E m) (\<lambda>state.
       if so_record_id state \<noteq> so_record_id candidate then Inl record_id_mismatch
       else if so_message_cid state = so_message_cid candidate
         then Inr (Inl (PlanDuplicate (so_message_cid candidate)))
       else scan_retained E candidate ms (states @ [state]))"

definition plan_states :: "records_state_order \<Rightarrow> records_state_order list \<Rightarrow> records_transition_plan" where
  "plan_states candidate states =
     (case max_by compare_order states of
        Some winner \<Rightarrow>
          if compare_order candidate winner \<noteq> Greater
            then PlanSuperseded (so_message_cid candidate) (so_message_cid winner)
          else PlanApply (so_message_cid candidate)
                 (sort (map so_message_cid
                    (filter (\<lambda>s. compare_order s candidate = Less) states)))
      | None \<Rightarrow>
          PlanApply (so_message_cid candidate)
            (sort (map so_message_cid (filter (\<lambda>s. compare_order s candidate = Less) states))))"

definition plan_records_transition ::
  "'x mext_scheme \<Rightarrow> message \<Rightarrow> message list \<Rightarrow> (string, records_transition_plan) result" where
  "plan_records_transition E candidate retained =
     rbind (state_order E candidate) (\<lambda>c.
     rbind (scan_retained E c retained []) (\<lambda>r.
       case r of Inl plan \<Rightarrow> Inr plan | Inr states \<Rightarrow> Inr (plan_states c states)))"

section \<open>Lemmas\<close>

lemma compare_order_reverse: "compare_order r l = ord_reverse (compare_order l r)"
  by (simp add: compare_order_def ord_reverse_then)

interpretation state_cmp: comparison compare_order UNIV
proof unfold_locales
  fix x y z :: records_state_order
  show "compare_order y x = ord_reverse (compare_order x y)" by (rule compare_order_reverse)
  show "is_le (compare_order x y) \<Longrightarrow> is_le (compare_order y z) \<Longrightarrow> is_le (compare_order x z)"
    by (auto simp: compare_order_def ordering_simps)
qed

lemma compare_order_Equal:
  "compare_order l r = Equal \<longleftrightarrow> so_class l = so_class r
     \<and> so_message_timestamp l = so_message_timestamp r \<and> so_message_cid l = so_message_cid r"
  by (simp add: compare_order_def ordering_simps)

lemma compare_order_neq_cid:
  "so_message_cid l \<noteq> so_message_cid r \<Longrightarrow> compare_order l r \<noteq> Equal"
  by (simp add: compare_order_Equal)

lemma compare_order_less_iff: "compare_order l r = Less \<longleftrightarrow> compare_order r l = Greater"
  using compare_order_reverse [of r l] by (simp add: ordering_simps)

lemma compare_order_le_antisym:
  "is_le (compare_order l r) \<Longrightarrow> is_le (compare_order r l) \<Longrightarrow> compare_order l r = Equal"
  using compare_order_reverse [of r l] by (cases "compare_order l r") auto

lemma compare_order_less_trans:
  "compare_order x y = Less \<Longrightarrow> compare_order y z = Less \<Longrightarrow> compare_order x z = Less"
  by (auto simp: compare_order_def ordering_simps)

text \<open>The strongest retained message decides: the candidate applies iff it beats them all.\<close>

lemma max_by_Some:
  assumes "max_by compare_order states = Some w"
  shows "w \<in> set states" and "s \<in> set states \<Longrightarrow> is_le (compare_order s w)"
proof -
  obtain x xs where [simp]: "states = x # xs" using assms by (cases states) auto
  have w: "w = max_by_from compare_order x xs" using assms by simp
  show "w \<in> set states" using state_cmp.max_by_from_in [of x xs] w by auto
  show "is_le (compare_order s w)" if "s \<in> set states"
    using state_cmp.max_by_from_ge [of x xs s] that w by simp
qed

lemma plan_states_apply:
  assumes "\<forall>s \<in> set states. compare_order s c = Less"
  shows "plan_states c states = PlanApply (so_message_cid c) (sort (map so_message_cid states))"
proof -
  have all: "filter (\<lambda>s. compare_order s c = Less) states = states"
    using assms by simp
  show ?thesis
  proof (cases "max_by compare_order states")
    case None
    with all show ?thesis by (simp add: plan_states_def)
  next
    case (Some w)
    with max_by_Some(1) [OF Some] assms have "compare_order c w = Greater"
      by (simp add: compare_order_less_iff)
    with Some all show ?thesis by (simp add: plan_states_def)
  qed
qed

lemma plan_states_superseded:
  assumes "s \<in> set states" and "compare_order c s \<noteq> Greater"
  obtains w where "plan_states c states = PlanSuperseded (so_message_cid c) (so_message_cid w)"
    and "w \<in> set states" and "\<forall>t \<in> set states. is_le (compare_order t w)"
proof -
  obtain w where w: "max_by compare_order states = Some w"
    using assms(1) by (cases states) auto
  have "compare_order c w \<noteq> Greater"
  proof
    assume "compare_order c w = Greater"
    then have "compare_order w c = Less" by (simp add: compare_order_less_iff)
    moreover have "is_le (compare_order c s)" using assms(2) by (simp add: ordering_simps)
    moreover have "is_le (compare_order s w)" by (rule max_by_Some(2) [OF w assms(1)])
    ultimately have "is_le (compare_order c w)"
      using state_cmp.cmp_trans [of c s w] by blast
    with \<open>compare_order c w = Greater\<close> show False by simp
  qed
  with w have "plan_states c states = PlanSuperseded (so_message_cid c) (so_message_cid w)"
    by (simp add: plan_states_def)
  with that max_by_Some [OF w] show ?thesis by blast
qed

lemma scan_retained_all:
  assumes "list_all2 (\<lambda>m s. state_order E m = Inr s) ms states"
    and "\<forall>s \<in> set states. so_record_id s = so_record_id c \<and> so_message_cid s \<noteq> so_message_cid c"
  shows "scan_retained E c ms acc = Inr (Inr (acc @ states))"
  using assms by (induction ms states arbitrary: acc rule: list_all2_induct) auto

lemma scan_retained_duplicate:
  assumes "\<forall>m \<in> set ms. \<exists>s. state_order E m = Inr s \<and> so_record_id s = so_record_id c"
    and "m \<in> set ms" and "state_order E m = Inr s" and "so_message_cid s = so_message_cid c"
  shows "scan_retained E c ms acc = Inr (Inl (PlanDuplicate (so_message_cid c)))"
  using assms(1,2)
proof (induction ms arbitrary: acc)
  case (Cons n ms)
  then obtain t where t: "state_order E n = Inr t" "so_record_id t = so_record_id c" by auto
  show ?case
  proof (cases "so_message_cid t = so_message_cid c")
    case False
    with Cons.prems t assms(3,4) have "m \<in> set ms" by auto
    with Cons t False show ?thesis by simp
  qed (use t in simp)
qed simp

lemma state_order_without_encoded_data [simp]:
  "state_order E (without_encoded_data m) = state_order E m"
  by (simp add: state_order_def split: descriptor.split records.split)

lemma state_order_cid:
  "state_order E m = Inr s \<Longrightarrow> cid_of_message E (without_encoded_data m) = Some (so_message_cid s)"
  by (auto simp: state_order_def Let_def rbind_Inr_iff message_cid_def split: prod.splits)

section \<open>Replaying transitions\<close>

text \<open>
  What a node does with the plan, reduced to the state messages: a candidate that applies
  replaces the messages it outranks, any other candidate changes nothing.
\<close>

definition apply_transition :: "'x mext_scheme \<Rightarrow> message \<Rightarrow> message list \<Rightarrow> (string, message list) result" where
  "apply_transition E m retained =
     rbind (plan_records_transition E m retained) (\<lambda>plan.
       case plan of
         PlanApply _ outranked \<Rightarrow>
           Inr (filter (\<lambda>n. \<forall>c \<in> set outranked. message_cid E n \<noteq> Inr c) retained @ [m])
       | _ \<Rightarrow> Inr retained)"

text \<open>State messages of one record, told apart by their CIDs.\<close>

definition state_messages :: "'x mext_scheme \<Rightarrow> string \<Rightarrow> message set \<Rightarrow> bool" where
  "state_messages E rid M \<longleftrightarrow>
     (\<forall>m \<in> M. \<exists>s. state_order E m = Inr s \<and> so_record_id s = rid)
     \<and> inj_on (cid_of_message E) (without_encoded_data ` M)"

lemma state_messages_order:
  assumes "state_messages E rid M" and "m \<in> M"
  obtains s where "state_order E m = Inr s" and "so_record_id s = rid"
  using assms by (auto simp: state_messages_def)

lemma state_messages_same_cid:
  assumes "state_messages E rid M" and "m \<in> M" and "n \<in> M"
    and "state_order E m = Inr s" and "state_order E n = Inr t"
    and "so_message_cid s = so_message_cid t"
  shows "s = t"
proof -
  have "cid_of_message E (without_encoded_data m) = cid_of_message E (without_encoded_data n)"
    using state_order_cid [OF assms(4)] state_order_cid [OF assms(5)] assms(6) by simp
  then have "without_encoded_data m = without_encoded_data n"
    using assms(1-3) by (auto simp: state_messages_def dest: inj_onD)
  then have "state_order E m = state_order E n"
    using state_order_without_encoded_data by metis
  with assms(4,5) show ?thesis by simp
qed

lemma message_cid_state: "state_order E m = Inr s \<Longrightarrow> message_cid E m = Inr (so_message_cid s)"
  by (simp add: message_cid_def state_order_cid)

lemma apply_transition_single:
  assumes "state_messages E rid M" and "m \<in> M" and "w \<in> M"
    and m: "state_order E m = Inr sm" and w: "state_order E w = Inr sw"
  shows "apply_transition E m [w] = Inr [if compare_order sm sw = Greater then m else w]"
proof -
  have rid: "so_record_id sm = rid" "so_record_id sw = rid"
    using assms by (auto simp: state_messages_def)
  show ?thesis
  proof (cases "so_message_cid sm = so_message_cid sw")
    case True
    with state_messages_same_cid [OF assms(1-3) m w] have "sm = sw" by simp
    with m w rid show ?thesis
      by (simp add: apply_transition_def plan_records_transition_def compare_order_Equal [THEN iffD2])
  next
    case False
    have scan: "scan_retained E sm [w] [] = Inr (Inr [sw])"
      using w rid False by simp
    show ?thesis
      using m w scan compare_order_less_iff [of sw sm]
      by (simp add: apply_transition_def plan_records_transition_def plan_states_def message_cid_state
          del: scan_retained.simps)
  qed
qed

lemma apply_transition_empty:
  "state_order E m = Inr s \<Longrightarrow> apply_transition E m [] = Inr [m]"
  by (simp add: apply_transition_def plan_records_transition_def plan_states_def)

lemma replay_winner:
  assumes "state_messages E rid M" and "set ms \<subseteq> M" and "ms \<noteq> []"
  shows "\<exists>w sw. try_fold (apply_transition E) ms [] = Inr [w] \<and> w \<in> set ms \<and> state_order E w = Inr sw
    \<and> (\<forall>n \<in> set ms. \<forall>sn. state_order E n = Inr sn \<longrightarrow> is_le (compare_order sn sw))"
  using assms(2,3)
proof (induction ms rule: rev_induct)
  case (snoc m ms)
  obtain sm where m: "state_order E m = Inr sm"
    using state_messages_order [OF assms(1), of m] snoc.prems by auto
  show ?case
  proof (cases "ms = []")
    case True
    with m show ?thesis by (simp add: apply_transition_empty state_cmp.cmp_refl)
  next
    case False
    from snoc.IH snoc.prems False obtain w sw where fold: "try_fold (apply_transition E) ms [] = Inr [w]"
      and w: "w \<in> set ms" "state_order E w = Inr sw"
      and max: "\<forall>n \<in> set ms. \<forall>sn. state_order E n = Inr sn \<longrightarrow> is_le (compare_order sn sw)"
      by auto
    have step: "apply_transition E m [w] = Inr [if compare_order sm sw = Greater then m else w]"
      using apply_transition_single [OF assms(1) _ _ m w(2)] snoc.prems w(1) by auto
    show ?thesis
    proof (cases "compare_order sm sw = Greater")
      case True
      have "is_le (compare_order sn sm)" if "n \<in> set ms" "state_order E n = Inr sn" for n sn
      proof -
        have "is_le (compare_order sw sm)"
          using True compare_order_reverse [of sw sm] by (simp add: ordering_simps)
        with max that show ?thesis using state_cmp.cmp_trans [of sn sw sm] by blast
      qed
      with fold step True m show ?thesis
        by (auto simp: try_fold_append state_cmp.cmp_refl)
    next
      case False
      with fold step m w max show ?thesis by (auto simp: try_fold_append ordering_simps)
    qed
  qed
qed simp

section \<open>Properties\<close>

text \<open>
  C1: convergence. Take any two sequences of state messages of one record that contain the same
  messages, in whatever order and however often repeated. Replaying the planned transitions of
  either from an empty store succeeds and leaves a single winner with the same message CID,
  and that winner is not outranked by any of the messages.
\<close>

theorem replay_converges:
  assumes "state_messages E rid (set ms)" and "set ms = set ms'" and "ms \<noteq> []"
  shows "\<exists>w w'. try_fold (apply_transition E) ms [] = Inr [w]
     \<and> try_fold (apply_transition E) ms' [] = Inr [w']
     \<and> message_cid E w = message_cid E w'
     \<and> (\<forall>n \<in> set ms. \<exists>order. compare_records_state E n w = Inr order \<and> order \<noteq> Greater)"
proof -
  from replay_winner [OF assms(1) order_refl assms(3)] obtain w sw
    where w: "try_fold (apply_transition E) ms [] = Inr [w]" "w \<in> set ms" "state_order E w = Inr sw"
      and max: "\<forall>n \<in> set ms. \<forall>sn. state_order E n = Inr sn \<longrightarrow> is_le (compare_order sn sw)"
    by blast
  have "ms' \<noteq> []" using assms(2,3) by auto
  with replay_winner [OF assms(1), of ms'] assms(2) obtain w' sw'
    where w': "try_fold (apply_transition E) ms' [] = Inr [w']" "w' \<in> set ms" "state_order E w' = Inr sw'"
      and max': "\<forall>n \<in> set ms. \<forall>sn. state_order E n = Inr sn \<longrightarrow> is_le (compare_order sn sw')"
    by auto
  have "is_le (compare_order sw sw')" "is_le (compare_order sw' sw)"
    using max max' w(2,3) w'(2,3) by blast+
  then have "compare_order sw sw' = Equal"
    by (rule compare_order_le_antisym)
  then have same: "message_cid E w = message_cid E w'"
    using w(3) w'(3) by (simp add: message_cid_state compare_order_Equal)
  have "\<exists>order. compare_records_state E n w = Inr order \<and> order \<noteq> Greater" if n: "n \<in> set ms" for n
  proof -
    obtain sn where sn: "state_order E n = Inr sn" "so_record_id sn = rid"
      using state_messages_order [OF assms(1) n] by blast
    moreover have "so_record_id sw = rid" using assms(1) w(2,3) by (auto simp: state_messages_def)
    ultimately show ?thesis
      using w(3) max n by (auto simp: compare_records_state_def ordering_simps)
  qed
  with w w' same show ?thesis by blast
qed

lemma sample_orders:
  "state_order plain_mext (sample_write t) =
     Inr \<lparr>so_class = ClassWrite, so_message_timestamp = t,
          so_message_cid = ''bafyRecordsWrite'' @ nat_to_string (nat t), so_record_id = ''rec''\<rparr>"
  "state_order plain_mext (sample_delete t prune) =
     Inr \<lparr>so_class = (if prune then ClassPrune else ClassDelete), so_message_timestamp = t,
          so_message_cid = ''bafyRecordsDelete'' @ nat_to_string (nat t), so_record_id = ''rec''\<rparr>"
  by (simp_all add: state_order_def sample_write_def sample_delete_def record_id_def write_fields_def
      message_cid_def without_encoded_data_def plain_mext_def plain_ext_def ext.defs kind_as_str_def)

theorem replay_converges_witness:
  "\<exists>w w'. try_fold (apply_transition plain_mext) [sample_write 5, sample_delete 2 False, sample_write 9] []
         = Inr [w]
     \<and> try_fold (apply_transition plain_mext) [sample_write 9, sample_write 5, sample_delete 2 False, sample_write 9] []
         = Inr [w']
     \<and> message_cid plain_mext w = message_cid plain_mext w'"
proof -
  let ?ms = "[sample_write 5, sample_delete 2 False, sample_write 9]"
  have "\<forall>m \<in> set ?ms. \<exists>s. state_order plain_mext m = Inr s \<and> so_record_id s = ''rec''"
    by (simp add: sample_orders)
  moreover have "inj_on (cid_of_message plain_mext) (without_encoded_data ` set ?ms)"
  proof -
    have "distinct (map (\<lambda>m. cid_of_message plain_mext (without_encoded_data m)) ?ms)" by code_simp
    then show ?thesis by (auto simp: inj_on_def)
  qed
  ultimately have "state_messages plain_mext ''rec'' (set ?ms)" by (simp add: state_messages_def)
  moreover have "set ?ms = set [sample_write 9, sample_write 5, sample_delete 2 False, sample_write 9]"
    by auto
  ultimately show ?thesis using replay_converges [of plain_mext "''rec''" ?ms] by (metis list.distinct(1))
qed

text \<open>
  C16: the decision of the planner on every branch. For retained state messages of the
  candidate's record it answers \<open>Duplicate\<close> exactly when a retained message has the candidate's
  CID; otherwise \<open>Apply\<close>, naming all retained messages in CID order, when the candidate
  outranks every one of them; otherwise \<open>Superseded\<close>, naming a retained message that no other
  outranks.
\<close>

theorem plan_decides:
  assumes "state_order E candidate = Inr c"
    and "list_all2 (\<lambda>m s. state_order E m = Inr s) retained states"
    and "\<forall>s \<in> set states. so_record_id s = so_record_id c"
  shows "if \<exists>s \<in> set states. so_message_cid s = so_message_cid c
         then plan_records_transition E candidate retained = Inr (PlanDuplicate (so_message_cid c))
         else if \<forall>s \<in> set states. compare_order s c = Less
         then plan_records_transition E candidate retained =
                Inr (PlanApply (so_message_cid c) (sort (map so_message_cid states)))
         else \<exists>w \<in> set states. (\<forall>t \<in> set states. is_le (compare_order t w))
                \<and> plan_records_transition E candidate retained =
                    Inr (PlanSuperseded (so_message_cid c) (so_message_cid w))"
proof (cases "\<exists>s \<in> set states. so_message_cid s = so_message_cid c")
  case True
  then obtain s where s: "s \<in> set states" "so_message_cid s = so_message_cid c" by blast
  obtain m where m: "m \<in> set retained" "state_order E m = Inr s"
    using assms(2) s(1) by (induction rule: list_all2_induct) auto
  have "\<forall>m \<in> set retained. \<exists>s. state_order E m = Inr s \<and> so_record_id s = so_record_id c"
    using assms(2,3) by (induction rule: list_all2_induct) auto
  from scan_retained_duplicate [OF this m s(2)] True assms(1) show ?thesis
    by (simp add: plan_records_transition_def)
next
  case False
  with assms(3) have "scan_retained E c retained [] = Inr (Inr states)"
    using scan_retained_all [OF assms(2), of c "[]"] by simp
  with assms(1) have plan: "plan_records_transition E candidate retained = Inr (plan_states c states)"
    by (simp add: plan_records_transition_def)
  show ?thesis
  proof (cases "\<forall>s \<in> set states. compare_order s c = Less")
    case True
    then show ?thesis using False plan plan_states_apply [OF True] by simp
  next
    case ex: False
    then obtain s where "s \<in> set states" "compare_order c s \<noteq> Greater"
      by (auto simp: compare_order_less_iff)
    then obtain w where "plan_states c states = PlanSuperseded (so_message_cid c) (so_message_cid w)"
      "w \<in> set states" "\<forall>t \<in> set states. is_le (compare_order t w)"
      by (rule plan_states_superseded)
    with False ex plan show ?thesis by auto
  qed
qed

theorem plan_decides_witness:
  "\<exists>w. plan_records_transition plain_mext (sample_write 9) [sample_write 5, sample_delete 2 False]
     = Inr (PlanSuperseded ''bafyRecordsWrite9'' w)"
proof -
  let ?c = "\<lparr>so_class = ClassWrite, so_message_timestamp = 9, so_message_cid = ''bafyRecordsWrite9'',
    so_record_id = ''rec''\<rparr>"
  let ?s = "\<lparr>so_class = ClassWrite, so_message_timestamp = 5, so_message_cid = ''bafyRecordsWrite5'',
    so_record_id = ''rec''\<rparr>"
  let ?d = "\<lparr>so_class = ClassDelete, so_message_timestamp = 2, so_message_cid = ''bafyRecordsDelete2'',
    so_record_id = ''rec''\<rparr>"
  have dec: "nat_to_string 9 = ''9''" "nat_to_string 5 = ''5''" "nat_to_string 2 = ''2''" by code_simp+
  have "compare_order ?d ?c \<noteq> Less" by code_simp
  with plan_decides [of plain_mext "sample_write 9" ?c "[sample_write 5, sample_delete 2 False]" "[?s, ?d]"]
  show ?thesis by (auto simp: sample_orders dec)
qed

end
