(* ===== verification/EventLog.thy ===== *)
theory EventLog
  imports Feed Paging
begin

text \<open>
  The in-memory event log of \<open>stores/memory.rs\<close>: per-tenant sequences of events with bounded
  retention, replay from a progress token, and live subscriptions. A listener is a callback; the
  model names it by a handle and returns the messages each operation delivers to it. A sequence
  number is a \<open>u64\<close> whose successor wraps, as in the release profile.
\<close>

section \<open>State\<close>

record stored_event =
  se_event :: message_event
  se_indexes :: key_values
  se_message_cid :: string

type_synonym listener = nat

record stored_subscription =
  ss_listener :: listener
  ss_filters :: "filters option"

type_synonym tenant_log = "(u64, stored_event) btree"

record event_log_inner =
  el_is_open :: bool
  el_tenant_logs :: "(string, tenant_log) btree"
  el_tenant_seqs :: "(string, u64) btree"
  el_subscriptions :: "(string \<times> string, stored_subscription) btree"

record memory_event_log =
  mel_inner :: event_log_inner
  mel_epoch :: string
  mel_max_events_per_tenant :: nat

definition event_log_inner_default :: event_log_inner where
  "event_log_inner_default =
     \<lparr>el_is_open = False, el_tenant_logs = [], el_tenant_seqs = [], el_subscriptions = []\<rparr>"

definition default_max_events_per_tenant :: nat where
  "default_max_events_per_tenant = 10000"

text \<open>\<open>Default\<close> draws the epoch from a random source; it is the argument here.\<close>

definition event_log_default :: "string \<Rightarrow> memory_event_log" where
  "event_log_default generated =
     \<lparr>mel_inner = event_log_inner_default, mel_epoch = generated,
      mel_max_events_per_tenant = default_max_events_per_tenant\<rparr>"

definition event_log_new :: "string \<Rightarrow> nat \<Rightarrow> memory_event_log" where
  "event_log_new generated max_events_per_tenant =
     (event_log_default generated)\<lparr>mel_max_events_per_tenant := max_events_per_tenant\<rparr>"

definition event_log_with_epoch :: "string \<Rightarrow> memory_event_log" where
  "event_log_with_epoch epoch =
     \<lparr>mel_inner = event_log_inner_default, mel_epoch = epoch,
      mel_max_events_per_tenant = default_max_events_per_tenant\<rparr>"

datatype subscription_error_code =
    SubProgressGap
  | DeliveryAuthorizationFailed
  | DeliveryFailed
  | RecordsDeliveryAuthorizationFailed
  | RecordsDeliveryFailed
  | RecordsProjectionFailed

record subscription_error =
  se_code :: subscription_error_code
  se_detail :: string

datatype subscription_message =
    SubEvent (sm_cursor: progress_token) message_event "string option" "string option"
      "bool option" "string option" "string option"
  | SubEose (sm_cursor: progress_token)
  | SubError (sm_cursor: progress_token) subscription_error

record event_log_subscribe_options =
  so_cursor :: "progress_token option"
  so_filters :: "filters option"

record event_log_replay_bounds =
  rb_oldest :: progress_token
  rb_latest :: progress_token

datatype event_log_trim_bound = TrimSequence u64 | TrimTimestamp string

section \<open>Operations\<close>

definition log_of :: "event_log_inner \<Rightarrow> string \<Rightarrow> tenant_log" where
  "log_of inner tenant = bt_get_or [] (el_tenant_logs inner) tenant"

definition seq_of :: "event_log_inner \<Rightarrow> string \<Rightarrow> u64" where
  "seq_of inner tenant = bt_get_or 0 (el_tenant_seqs inner) tenant"

definition restore_tenant ::
  "string \<Rightarrow> u64 \<Rightarrow> (u64 \<times> message_event \<times> key_values \<times> string) list \<Rightarrow> event_log_inner
    \<Rightarrow> event_log_inner" where
  "restore_tenant tenant next_seq events inner =
     (let log = foldl (\<lambda>log (seq, event, indexes, mcid).
                  bt_insert seq \<lparr>se_event = event, se_indexes = indexes, se_message_cid = mcid\<rparr> log)
                (log_of inner tenant) events
      in inner\<lparr>el_tenant_logs := bt_insert tenant log (el_tenant_logs inner),
               el_tenant_seqs := bt_insert tenant next_seq (el_tenant_seqs inner)\<rparr>)"

definition event_log_open :: "event_log_inner \<Rightarrow> event_log_inner" where
  "event_log_open inner = inner\<lparr>el_is_open := True\<rparr>"

definition event_log_close :: "event_log_inner \<Rightarrow> event_log_inner" where
  "event_log_close inner =
     inner\<lparr>el_is_open := False, el_tenant_logs := [], el_tenant_seqs := [], el_subscriptions := []\<rparr>"

text \<open>The eviction loop: while there are too many events, the oldest one is removed.\<close>

function evict :: "nat \<Rightarrow> tenant_log \<Rightarrow> tenant_log" where
  "evict max_events log =
     (if length log > max_events
      then (case log of [] \<Rightarrow> log | (oldest, _) # _ \<Rightarrow> evict max_events (bt_remove oldest log))
      else log)"
  by pat_completeness auto
termination
  by (relation "measure (\<lambda>(_, log). length log)") (auto simp: bt_remove_def less_Suc_eq_le)

declare evict.simps [simp del]

definition deliver_live ::
  "'x ext_scheme \<Rightarrow> string \<Rightarrow> progress_token \<Rightarrow> message_event \<Rightarrow> key_values \<Rightarrow> event_log_inner
    \<Rightarrow> (listener \<times> subscription_message) list" where
  "deliver_live E tenant token event indexes inner =
     map (\<lambda>(_, sub). (ss_listener sub,
            SubEvent token event (Some (pt_position token)) (pt_message_cid token) None None None))
       (filter (\<lambda>((subscription_tenant, _), sub).
          subscription_tenant = tenant \<and> matches_filters E indexes (ss_filters sub))
        (el_subscriptions inner))"

definition emit ::
  "'x ext_scheme \<Rightarrow> string \<Rightarrow> nat \<Rightarrow> string \<Rightarrow> message_event \<Rightarrow> key_values \<Rightarrow> string \<Rightarrow> event_log_inner
    \<Rightarrow> event_log_inner \<times> progress_token option \<times> (listener \<times> subscription_message) list" where
  "emit E epoch max_events_per_tenant tenant event indexes mcid inner =
     (if \<not> el_is_open inner then (inner, None, [])
      else
        let seq = seq_of inner tenant + 1;
            log = bt_insert seq \<lparr>se_event = event, se_indexes = indexes, se_message_cid = mcid\<rparr>
                    (log_of inner tenant);
            inner' = inner\<lparr>el_tenant_seqs := bt_insert tenant seq (el_tenant_seqs inner),
                           el_tenant_logs := bt_insert tenant (evict max_events_per_tenant log)
                             (el_tenant_logs inner)\<rparr>;
            token = build_token E tenant epoch seq (Some mcid)
        in (inner', Some token, deliver_live E tenant token event indexes inner'))"

definition replay_bounds_of ::
  "'x ext_scheme \<Rightarrow> string \<Rightarrow> string \<Rightarrow> tenant_log \<Rightarrow> (progress_token \<times> progress_token) option" where
  "replay_bounds_of E tenant epoch log =
     (if log = [] then None
      else Some (build_token E tenant epoch (fst (hd log)) (Some (se_message_cid (snd (hd log)))),
                 build_token E tenant epoch (fst (last log)) (Some (se_message_cid (snd (last log))))))"

definition progress_gap_from_log ::
  "'x ext_scheme \<Rightarrow> string \<Rightarrow> string \<Rightarrow> progress_token \<Rightarrow> progress_gap_reason \<Rightarrow> tenant_log option
    \<Rightarrow> event_log_error" where
  "progress_gap_from_log E tenant epoch requested reason log =
     feed_progress_gap requested (Option.bind log (replay_bounds_of E tenant epoch)) reason"

definition progress_gap ::
  "'x ext_scheme \<Rightarrow> event_log_inner \<Rightarrow> string \<Rightarrow> string \<Rightarrow> progress_token \<Rightarrow> progress_gap_reason
    \<Rightarrow> event_log_error" where
  "progress_gap E inner tenant epoch requested reason =
     progress_gap_from_log E tenant epoch requested reason (bt_get (el_tenant_logs inner) tenant)"

definition validate_cursor ::
  "'x ext_scheme \<Rightarrow> event_log_inner \<Rightarrow> string \<Rightarrow> string \<Rightarrow> progress_token \<Rightarrow> (event_log_error, u64) result" where
  "validate_cursor E inner tenant epoch cursor =
     (if pt_stream_id cursor \<noteq> derive_stream_id E tenant
        then Inl (progress_gap E inner tenant epoch cursor StreamMismatch)
      else if pt_epoch cursor \<noteq> epoch
        then Inl (progress_gap E inner tenant epoch cursor EpochMismatch)
      else
        case parse_feed_position (pt_position cursor) of
          Inl _ \<Rightarrow> Inl (InvalidProgressToken (pt_position cursor))
        | Inr seq \<Rightarrow>
            (case bt_get (el_tenant_logs inner) tenant of
               None \<Rightarrow> Inr seq
             | Some log \<Rightarrow>
                 (case log of
                    [] \<Rightarrow> Inr seq
                  | (oldest, _) # _ \<Rightarrow>
                      if seq < saturating_sub oldest 1
                        then Inl (progress_gap_from_log E tenant epoch cursor TokenTooOld (Some log))
                      else Inr seq)))"

text \<open>
  The loop that \<open>read\<close> and \<open>read_events\<close> share: skip what the cursor has seen and what does not
  match, collect, and stop once \<open>limit\<close> events are collected. The length test comes after the
  push, so a limit of zero still yields one event.
\<close>

definition event_entry :: "u64 \<Rightarrow> stored_event \<Rightarrow> event_log_entry" where
  "event_entry seq e =
     \<lparr>ele_seq = u64_to_string seq, ele_event = se_event e, ele_indexes = se_indexes e,
      ele_message_cid = Some (se_message_cid e), ele_encoded_data = None\<rparr>"

fun read_loop ::
  "'x ext_scheme \<Rightarrow> u64 option \<Rightarrow> filters option \<Rightarrow> nat \<Rightarrow> tenant_log \<Rightarrow> event_log_entry list
    \<Rightarrow> event_log_entry list \<times> bool" where
  "read_loop E cursor_seq filters limit [] events = (events, True)"
| "read_loop E cursor_seq filters limit ((seq, e) # log) events =
     (if (case cursor_seq of None \<Rightarrow> False | Some c \<Rightarrow> seq \<le> c)
        then read_loop E cursor_seq filters limit log events
      else if \<not> matches_filters E (se_indexes e) filters
        then read_loop E cursor_seq filters limit log events
      else
        let events' = events @ [event_entry seq e]
        in if length events' \<ge> limit then (events', False)
           else read_loop E cursor_seq filters limit log events')"

text \<open>The source unwraps the position of an entry it has just printed.\<close>

definition entry_position :: "event_log_entry \<Rightarrow> u64" where
  "entry_position entry = (case parse_feed_position (ele_seq entry) of Inr p \<Rightarrow> p | Inl _ \<Rightarrow> 0)"

definition read_events ::
  "'x ext_scheme \<Rightarrow> event_log_inner \<Rightarrow> string \<Rightarrow> string \<Rightarrow> progress_token option \<Rightarrow> u64 option
    \<Rightarrow> filters option \<Rightarrow> (event_log_error, event_log_read_result) result" where
  "read_events E inner tenant epoch cursor limit filters =
     rbind (case cursor of
              None \<Rightarrow> Inr None
            | Some c \<Rightarrow> rbind (validate_cursor E inner tenant epoch c) (\<lambda>seq. Inr (Some seq)))
       (\<lambda>cursor_seq.
          let bound = unat (case limit of None \<Rightarrow> u64_max | Some l \<Rightarrow> l);
              (events, drained) = read_loop E cursor_seq filters bound (log_of inner tenant) []
          in Inr \<lparr>rr_events = events,
                  rr_cursor = (if events = [] then cursor
                     else Some (build_token E tenant epoch (entry_position (last events))
                                  (ele_message_cid (last events)))),
                  rr_drained = drained\<rparr>)"

definition event_log_read ::
  "'x ext_scheme \<Rightarrow> event_log_inner \<Rightarrow> string \<Rightarrow> string \<Rightarrow> event_log_read_options option
    \<Rightarrow> (event_log_error, event_log_read_result) result" where
  "event_log_read E inner tenant epoch options =
     (let options = (case options of None \<Rightarrow> event_log_read_options_default | Some opts \<Rightarrow> opts)
      in read_events E inner tenant epoch (ro_cursor options) (ro_limit options) (ro_filters options))"

text \<open>
  \<open>subscribe\<close> takes the lock three times: to validate the cursor, to register the listener, and to
  read the events to replay. Other operations may run in between, so registering and replaying
  are separate steps; \<open>subscribe\<close> is their composition when nothing intervenes.
\<close>

definition subscribe_register ::
  "'x ext_scheme \<Rightarrow> string \<Rightarrow> string \<Rightarrow> string \<Rightarrow> listener \<Rightarrow> event_log_subscribe_options \<Rightarrow> event_log_inner
    \<Rightarrow> (event_log_error, event_log_inner) result" where
  "subscribe_register E epoch tenant ident listener options inner =
     rbind (case so_cursor options of
              None \<Rightarrow> Inr ()
            | Some c \<Rightarrow> rbind (validate_cursor E inner tenant epoch c) (\<lambda>_. Inr ()))
       (\<lambda>_. Inr (inner\<lparr>el_subscriptions :=
              bt_insert (tenant, ident) \<lparr>ss_listener = listener, ss_filters = so_filters options\<rparr>
                (el_subscriptions inner)\<rparr>))"

definition replay_message ::
  "'x ext_scheme \<Rightarrow> string \<Rightarrow> string \<Rightarrow> event_log_entry \<Rightarrow> subscription_message" where
  "replay_message E tenant epoch entry =
     SubEvent (build_token E tenant epoch (entry_position entry) (ele_message_cid entry))
       (ele_event entry) (Some (ele_seq entry)) (ele_message_cid entry) None None None"

definition subscribe_replay ::
  "'x ext_scheme \<Rightarrow> string \<Rightarrow> string \<Rightarrow> event_log_subscribe_options \<Rightarrow> event_log_inner
    \<Rightarrow> (event_log_error, subscription_message list) result" where
  "subscribe_replay E epoch tenant options inner =
     (case so_cursor options of
        None \<Rightarrow> Inr []
      | Some cursor \<Rightarrow>
          rbind (read_events E inner tenant epoch (Some cursor) None (so_filters options)) (\<lambda>result.
            Inr (map (replay_message E tenant epoch) (rr_events result)
                 @ [SubEose (case rr_cursor result of None \<Rightarrow> cursor | Some c \<Rightarrow> c)])))"

definition subscribe ::
  "'x ext_scheme \<Rightarrow> string \<Rightarrow> string \<Rightarrow> string \<Rightarrow> listener \<Rightarrow> event_log_subscribe_options option
    \<Rightarrow> event_log_inner \<Rightarrow> event_log_inner \<times> (event_log_error, subscription_message list) result" where
  "subscribe E epoch tenant ident listener options inner =
     (let options = (case options of None \<Rightarrow> \<lparr>so_cursor = None, so_filters = None\<rparr> | Some opts \<Rightarrow> opts)
      in case subscribe_register E epoch tenant ident listener options inner of
           Inl e \<Rightarrow> (inner, Inl e)
         | Inr inner' \<Rightarrow> (inner', subscribe_replay E epoch tenant options inner'))"

definition subscription_close :: "string \<Rightarrow> string \<Rightarrow> event_log_inner \<Rightarrow> event_log_inner" where
  "subscription_close tenant ident inner =
     inner\<lparr>el_subscriptions := bt_remove (tenant, ident) (el_subscriptions inner)\<rparr>"

definition get_replay_bounds ::
  "'x ext_scheme \<Rightarrow> event_log_inner \<Rightarrow> string \<Rightarrow> string \<Rightarrow> event_log_replay_bounds option" where
  "get_replay_bounds E inner tenant epoch =
     (case bt_get (el_tenant_logs inner) tenant of
        None \<Rightarrow> None
      | Some log \<Rightarrow>
          map_option (\<lambda>(oldest, latest). \<lparr>rb_oldest = oldest, rb_latest = latest\<rparr>)
            (replay_bounds_of E tenant epoch log))"

fun trim_keeps :: "event_log_trim_bound \<Rightarrow> u64 \<times> stored_event \<Rightarrow> bool" where
  "trim_keeps (TrimSequence sequence) (seq, _) = (sequence \<le> seq)"
| "trim_keeps (TrimTimestamp timestamp) (_, e) =
     (case bt_get (se_indexes e) ''messageTimestamp'' of
        Some (VString stamp) \<Rightarrow> timestamp \<le> stamp
      | _ \<Rightarrow> True)"

definition trim :: "string \<Rightarrow> event_log_trim_bound \<Rightarrow> event_log_inner \<Rightarrow> event_log_inner" where
  "trim tenant older_than inner =
     (case bt_get (el_tenant_logs inner) tenant of
        None \<Rightarrow> inner
      | Some log \<Rightarrow>
          inner\<lparr>el_tenant_logs := bt_insert tenant (filter (trim_keeps older_than) log)
            (el_tenant_logs inner)\<rparr>)"

section \<open>The retained log is a suffix of the history\<close>

text \<open>The history of a tenant, with the sequence number each event was given.\<close>

definition numbered :: "'a list \<Rightarrow> (u64 \<times> 'a) list" where
  "numbered h = zip (map of_nat [1..<Suc (length h)]) h"

lemma length_numbered [simp]: "length (numbered h) = length h"
  by (simp add: numbered_def del: upt_Suc)

lemma nth_numbered: "i < length h \<Longrightarrow> numbered h ! i = (of_nat (Suc i), h ! i)"
  by (simp add: numbered_def del: upt_Suc)

lemma numbered_snoc: "numbered (h @ [e]) = numbered h @ [(of_nat (Suc (length h)), e)]"
  by (rule nth_equalityI) (auto simp: nth_numbered nth_append less_Suc_eq simp del: of_nat_Suc)

lemma unat_of_nat_64: "n < 2 ^ 64 \<Longrightarrow> unat (of_nat n :: u64) = n"
  by (simp add: unat_of_nat take_bit_nat_eq_self)

lemma of_nat_less_64: "\<lbrakk>m < 2 ^ 64; n < 2 ^ 64\<rbrakk> \<Longrightarrow> (of_nat m :: u64) < of_nat n \<longleftrightarrow> m < n"
  by (simp only: word_less_nat_alt unat_of_nat_64)

lemma sorted_numbered: "length h < 2 ^ 64 \<Longrightarrow> bt_sorted (numbered h)"
proof -
  assume len: "length h < 2 ^ 64"
  show ?thesis
    unfolding bt_sorted_def sorted_wrt_iff_nth_less
  proof (intro allI impI)
    fix i j assume "i < j" "j < length (map fst (numbered h))"
    with len show "map fst (numbered h) ! i < map fst (numbered h) ! j"
      by (simp add: nth_numbered of_nat_less_64 del: of_nat_Suc)
  qed
qed

lemma numbered_key_le:
  assumes "(k, e) \<in> set (numbered h)" and "length h < 2 ^ 64"
  shows "0 < k" and "unat k \<le> length h"
proof -
  obtain i where i: "i < length h" "numbered h ! i = (k, e)"
    using assms(1) by (auto simp: in_set_conv_nth)
  then have "k = of_nat (Suc i)" by (simp add: nth_numbered)
  moreover have "unat (of_nat (Suc i) :: u64) = Suc i"
    using i assms(2) by (intro unat_of_nat_64) simp
  ultimately show "0 < k" "unat k \<le> length h"
    using i(1) by (simp_all add: word_less_nat_alt del: of_nat_Suc)
qed

lemma bt_insert_last:
  "\<forall>p \<in> set m. fst p < key \<Longrightarrow> bt_insert key x m = m @ [(key, x)]"
  by (induction key x m rule: bt_insert.induct) auto

lemma bt_sorted_drop: "bt_sorted m \<Longrightarrow> bt_sorted (drop n m)"
  by (simp add: bt_sorted_def drop_map [symmetric] sorted_wrt_drop)

lemma evict_drop: "bt_sorted log \<Longrightarrow> evict mx log = drop (length log - mx) log"
proof (induction mx log rule: evict.induct)
  case (1 mx log)
  show ?case
  proof (cases "mx < length log")
    case True
    then obtain k e rest where log: "log = (k, e) # rest" by (cases log) auto
    with 1(2) have rest: "bt_remove k log = rest" "bt_sorted rest"
      by (auto simp: bt_remove_def bt_sorted_def filter_id_conv)
    have "evict mx log = evict mx rest"
      using True rest log by (subst evict.simps) simp
    moreover have "evict mx (bt_remove k log) = drop (length rest - mx) rest"
      using 1(1) [OF True log refl] rest by simp
    ultimately show ?thesis using True log rest(1) by (auto simp: Suc_diff_le)
  qed (simp add: evict.simps)
qed

lemma filter_at_least_drop:
  "bt_sorted m \<Longrightarrow> \<exists>n \<le> length m. filter (\<lambda>(k, _). s \<le> k) m = drop n m"
proof (induction m)
  case (Cons x m)
  show ?case
  proof (cases "s \<le> fst x")
    case True
    with Cons.prems have "\<forall>p \<in> set (x # m). s \<le> fst p"
      by (force simp: bt_sorted_def)
    then have "filter (\<lambda>(k, _). s \<le> k) (x # m) = x # m"
      by (simp only: filter_id_conv case_prod_beta)
    then show ?thesis by (intro exI [of _ 0]) simp
  next
    case False
    then have "filter (\<lambda>(k, _). s \<le> k) (x # m) = filter (\<lambda>(k, _). s \<le> k) m"
      by (simp add: case_prod_beta)
    moreover obtain n where "n \<le> length m" "filter (\<lambda>(k, _). s \<le> k) m = drop n m"
      using Cons by (auto simp: bt_sorted_def)
    ultimately show ?thesis by (intro exI [of _ "Suc n"]) simp
  qed
qed simp

lemma numbered_after:
  fixes h :: "'a list"
  assumes "length h < 2 ^ 64" and "n \<le> unat p"
  shows "filter (\<lambda>(k, _). p < k) (drop n (numbered h)) = drop (unat p) (numbered h)"
proof -
  let ?m = "numbered h"
  have key: "p < fst (?m ! i) \<longleftrightarrow> unat p \<le> i" if "i < length h" for i
    using that assms(1) unat_of_nat_64 [of "Suc i"]
    by (simp add: nth_numbered word_less_nat_alt less_Suc_eq_le del: of_nat_Suc)
  have "\<not> p < fst x" if "x \<in> set (take (unat p) ?m)" for x
    using that key by (auto simp: in_set_conv_nth)
  then have head: "filter (\<lambda>(k, _). p < k) (take (unat p) ?m) = []"
    by (auto simp: filter_empty_conv)
  have "p < fst x" if "x \<in> set (drop (unat p) ?m)" for x
    using that key by (auto simp: in_set_conv_nth)
  then have tail: "filter (\<lambda>(k, _). p < k) (drop (unat p) ?m) = drop (unat p) ?m"
    by (auto simp: filter_id_conv)
  have cut: "drop n (xs @ ys) = drop n xs @ ys" if "n \<le> length xs \<or> ys = []" for xs ys :: "(u64 \<times> 'a) list"
    using that by auto
  have "drop n (take (unat p) ?m @ drop (unat p) ?m) = drop n (take (unat p) ?m) @ drop (unat p) ?m"
    using assms(2) by (intro cut) auto
  then have "drop n ?m = drop n (take (unat p) ?m) @ drop (unat p) ?m" by simp
  moreover have "filter (\<lambda>(k, _). p < k) (drop n (take (unat p) ?m)) = []"
    using head by (auto simp: filter_empty_conv dest!: in_set_dropD)
  ultimately show ?thesis using tail by simp
qed

text \<open>
  Runs of the log, with the full history of each tenant since the log was last cleared. Sequence
  numbers do not wrap within 2^64 events, which is the only bound on runs; trimming is by
  sequence number.
\<close>

inductive log_run ::
  "'x ext_scheme \<Rightarrow> string \<Rightarrow> nat \<Rightarrow> (string \<Rightarrow> stored_event list) \<Rightarrow> event_log_inner \<Rightarrow> bool"
  for E epoch mx where
  run_new: "log_run E epoch mx (\<lambda>_. []) event_log_inner_default"
| run_open: "log_run E epoch mx h s \<Longrightarrow> log_run E epoch mx h (event_log_open s)"
| run_close: "log_run E epoch mx h s \<Longrightarrow> log_run E epoch mx (\<lambda>_. []) (event_log_close s)"
| run_emit:
    "\<lbrakk>log_run E epoch mx h s; Suc (length (h t)) < 2 ^ 64; emit E epoch mx t ev ix c s = (s', tok, out)\<rbrakk>
     \<Longrightarrow> log_run E epoch mx
           (if el_is_open s
            then h(t := h t @ [\<lparr>se_event = ev, se_indexes = ix, se_message_cid = c\<rparr>]) else h) s'"
| run_register:
    "\<lbrakk>log_run E epoch mx h s; subscribe_register E epoch t i l opts s = Inr s'\<rbrakk> \<Longrightarrow> log_run E epoch mx h s'"
| run_unsubscribe: "log_run E epoch mx h s \<Longrightarrow> log_run E epoch mx h (subscription_close t i s)"
| run_trim: "log_run E epoch mx h s \<Longrightarrow> log_run E epoch mx h (trim t (TrimSequence n) s)"

definition retains :: "nat \<Rightarrow> stored_event list \<Rightarrow> u64 \<Rightarrow> tenant_log \<Rightarrow> bool" where
  "retains mx h seq log \<longleftrightarrow>
     length h < 2 ^ 64 \<and> seq = of_nat (length h) \<and> length log \<le> mx
     \<and> (\<exists>n \<le> length h. log = drop n (numbered h))"

lemma retains_sorted: "retains mx h seq log \<Longrightarrow> bt_sorted log"
  by (auto simp: retains_def bt_sorted_drop sorted_numbered)

lemma retains_emit:
  assumes "retains mx h seq log" and "Suc (length h) < 2 ^ 64"
  shows "retains mx (h @ [e]) (seq + 1) (evict mx (bt_insert (seq + 1) e log))"
proof -
  from assms(1) obtain n where n: "n \<le> length h" "log = drop n (numbered h)"
    and seq: "seq = of_nat (length h)" and len: "length h < 2 ^ 64"
    by (auto simp: retains_def)
  have next_seq: "seq + 1 = of_nat (Suc (length h))" by (simp add: seq)
  have "fst p < seq + 1" if "p \<in> set log" for p
    using that n(2) in_set_dropD [of p n "numbered h"] numbered_key_le(2) [of "fst p" "snd p" h] len
      unat_of_nat_64 [OF assms(2)]
    by (auto simp: next_seq word_less_nat_alt simp del: of_nat_Suc)
  then have "bt_insert (seq + 1) e log = log @ [(of_nat (Suc (length h)), e)]"
    by (subst bt_insert_last) (simp_all add: next_seq)
  also have "\<dots> = drop n (numbered (h @ [e]))"
    using n by (simp add: numbered_snoc)
  finally have ins: "bt_insert (seq + 1) e log = drop n (numbered (h @ [e]))" .
  have "bt_sorted (drop n (numbered (h @ [e])))"
    using assms(2) by (intro bt_sorted_drop sorted_numbered) simp
  then have "evict mx (bt_insert (seq + 1) e log)
      = drop (length (h @ [e]) - n - mx + n) (numbered (h @ [e]))"
    by (simp add: ins evict_drop)
  moreover have "length (h @ [e]) - n - mx + n \<le> length (h @ [e])" using n(1) by simp
  ultimately show ?thesis
    using assms(2) n(1) unfolding retains_def next_seq by auto
qed

lemma retains_trim:
  assumes "retains mx h seq log"
  shows "retains mx h seq (filter (trim_keeps (TrimSequence s)) log)"
proof -
  from assms obtain n where n: "n \<le> length h" "log = drop n (numbered h)" "length log \<le> mx"
    by (auto simp: retains_def)
  have keeps: "trim_keeps (TrimSequence s) = (\<lambda>(k, _). s \<le> k)" by auto
  obtain m where m: "m \<le> length log" "filter (\<lambda>(k, _). s \<le> k) log = drop m log"
    using filter_at_least_drop [OF retains_sorted [OF assms]] by blast
  then have "filter (trim_keeps (TrimSequence s)) log = drop (m + n) (numbered h)"
    by (simp add: keeps n(2))
  moreover have "m + n \<le> length h" using m(1) n by simp
  moreover have "length (filter (trim_keeps (TrimSequence s)) log) \<le> mx"
    using n(3) length_filter_le [of "trim_keeps (TrimSequence s)" log] by linarith
  ultimately show ?thesis
    using assms unfolding retains_def by blast
qed

lemma log_of_update [simp]:
  "log_of (s\<lparr>el_tenant_logs := bt_insert t l (el_tenant_logs s')\<rparr>) u =
     (if u = t then l else log_of s' u)"
  by (simp add: log_of_def bt_get_or_def bt_get_insert)

lemma seq_of_update [simp]:
  "seq_of (s\<lparr>el_tenant_seqs := bt_insert t n (el_tenant_seqs s')\<rparr>) u =
     (if u = t then n else seq_of s' u)"
  by (simp add: seq_of_def bt_get_or_def bt_get_insert)

lemma of_trim [simp]:
  "log_of (trim t b s) u = (if u = t then filter (trim_keeps b) (log_of s t) else log_of s u)"
  "seq_of (trim t b s) u = seq_of s u"
  by (auto simp: trim_def log_of_def seq_of_def bt_get_or_def bt_get_insert split: option.splits)

lemma log_run_retains: "log_run E epoch mx h s \<Longrightarrow> retains mx (h t) (seq_of s t) (log_of s t)"
proof (induction arbitrary: t rule: log_run.induct)
  case (run_emit h s u ev ix c s' tok out)
  then show ?case
    using retains_emit [OF run_emit.IH [of u] run_emit.hyps(2)]
    by (auto simp: emit_def Let_def log_of_def seq_of_def bt_get_or_def bt_get_insert split: if_splits)
next
  case (run_trim h s u n)
  then show ?case
    using retains_trim [OF run_trim.IH [of u]] by simp
qed (auto simp: event_log_inner_default_def event_log_open_def event_log_close_def log_of_def seq_of_def
    bt_get_or_def retains_def numbered_def subscribe_register_def subscription_close_def rbind_Inr_iff)

section \<open>Reading\<close>

definition due ::
  "'x ext_scheme \<Rightarrow> filters option \<Rightarrow> stored_event list \<Rightarrow> u64 \<Rightarrow> (u64 \<times> stored_event) list" where
  "due E filters h p =
     filter (\<lambda>(_, e). matches_filters E (se_indexes e) filters) (drop (unat p) (numbered h))"

lemma read_loop_takes:
  "read_loop E cursor_seq filters limit log events =
     (let n = max 1 (limit - length events);
          found = filter (\<lambda>(_, e). matches_filters E (se_indexes e) filters)
            (filter (\<lambda>(seq, _). \<not> (case cursor_seq of None \<Rightarrow> False | Some c \<Rightarrow> seq \<le> c)) log)
      in (events @ map (\<lambda>(seq, e). event_entry seq e) (take n found), length found < n))"
proof (induction E cursor_seq filters limit log events rule: read_loop.induct)
  case (2 E cursor_seq filters limit seq e log events)
  show ?case
  proof (cases "(case cursor_seq of None \<Rightarrow> False | Some c \<Rightarrow> seq \<le> c) \<or> \<not> matches_filters E (se_indexes e) filters")
    case True
    then show ?thesis using 2(1,2) by auto
  next
    case False
    then show ?thesis
      using 2(3) [OF _ _ refl] by (auto simp: Let_def take_Cons' max_def not_less_eq_eq)
  qed
qed simp

lemma entry_position_entry [simp]: "entry_position (event_entry seq e) = seq"
  by (simp add: entry_position_def event_entry_def)

lemma validate_token:
  assumes "retains mx h seq log" and "log \<noteq> []" and "bt_get (el_tenant_logs s) t = Some log"
  shows "validate_cursor E s t epoch (build_token E t epoch p m) =
     (if unat p < length h - length log
      then Inl (progress_gap_from_log E t epoch (build_token E t epoch p m) TokenTooOld (Some log))
      else Inr p)"
proof -
  from assms(1) obtain n where n: "n \<le> length h" "log = drop n (numbered h)" "length h < 2 ^ 64"
    by (auto simp: retains_def)
  with assms(2) have "n < length h" by auto
  then have hd_log: "log = (of_nat (Suc n), h ! n) # drop (Suc n) (numbered h)"
    using n(2) by (simp add: Cons_nth_drop_Suc [symmetric] nth_numbered)
  have "unat (of_nat (Suc n) :: u64) = Suc n" using \<open>n < length h\<close> n(3) by (intro unat_of_nat_64) simp
  then have "p < saturating_sub (of_nat (Suc n)) 1 \<longleftrightarrow> unat p < n"
    by (simp add: saturating_sub_def word_less_nat_alt unat_sub_if' del: of_nat_Suc)
  moreover have "length h - length log = n" using n by simp
  ultimately show ?thesis
    using assms(3) by (simp add: validate_cursor_def hd_log)
qed

lemma due_read:
  assumes "retains mx h seq log" and "length h - length log \<le> unat p"
  shows "filter (\<lambda>(_, e). matches_filters E (se_indexes e) filters)
     (filter (\<lambda>(k, _). \<not> k \<le> p) log) = due E filters h p"
proof -
  from assms(1) obtain n where n: "n \<le> length h" "log = drop n (numbered h)" "length h < 2 ^ 64"
    by (auto simp: retains_def)
  with assms(2) have "n \<le> unat p" by simp
  from numbered_after [OF n(3) this] show ?thesis by (simp add: due_def n(2) not_le)
qed

lemma log_of_Some: "log_of s t \<noteq> [] \<Longrightarrow> bt_get (el_tenant_logs s) t = Some (log_of s t)"
  by (auto simp: log_of_def bt_get_or_def split: option.splits)

definition page_result ::
  "'x ext_scheme \<Rightarrow> string \<Rightarrow> string \<Rightarrow> progress_token \<Rightarrow> nat \<Rightarrow> (u64 \<times> stored_event) list
    \<Rightarrow> event_log_read_result" where
  "page_result E t epoch token n found =
     (let page = take n found in
      \<lparr>rr_events = map (\<lambda>(seq, e). event_entry seq e) page,
       rr_cursor = Some (if page = [] then token
          else build_token E t epoch (fst (last page)) (Some (se_message_cid (snd (last page))))),
       rr_drained = (length found < n)\<rparr>)"

lemma read_events_exact:
  assumes "log_run E epoch mx h s" and "log_of s t \<noteq> []"
  shows "read_events E s t epoch (Some (build_token E t epoch p m)) limit filters =
     (if unat p < length (h t) - length (log_of s t)
      then Inl (progress_gap_from_log E t epoch (build_token E t epoch p m) TokenTooOld (Some (log_of s t)))
      else Inr (page_result E t epoch (build_token E t epoch p m)
             (max 1 (unat (case limit of None \<Rightarrow> u64_max | Some l \<Rightarrow> l))) (due E filters (h t) p)))"
proof -
  note ret = log_run_retains [OF assms(1), of t]
  note val = validate_token [OF ret assms(2) log_of_Some [OF assms(2)], of E epoch p m]
  show ?thesis
  proof (cases "unat p < length (h t) - length (log_of s t)")
    case True
    then show ?thesis by (simp add: read_events_def val)
  next
    case False
    then show ?thesis
      using due_read [OF ret, of p E filters]
      by (auto simp: read_events_def val read_loop_takes page_result_def Let_def not_less last_map
          case_prod_beta event_entry_def entry_position_def)
  qed
qed

section \<open>Draining a tenant's log\<close>

lemma filter_after_last:
  assumes "bt_sorted xs" and "0 < n" and "xs \<noteq> []"
  shows "filter (\<lambda>(k, _). fst (last (take n xs)) < k) xs = drop n xs"
proof -
  let ?page = "take n xs"
  have "?page \<noteq> []" using assms by simp
  have strict: "sorted_wrt (\<lambda>x y. fst x < fst y) (?page @ drop n xs)"
    using assms(1) by (simp add: bt_sorted_def sorted_wrt_map)
  then have "\<forall>x \<in> set (drop n xs). fst (last ?page) < fst x"
    using \<open>?page \<noteq> []\<close> unfolding sorted_wrt_append by (metis last_in_set)
  moreover have "\<not> fst (last ?page) < fst x" if "x \<in> set ?page" for x
  proof -
    have page: "?page = butlast ?page @ [last ?page]" using \<open>?page \<noteq> []\<close> by simp
    from strict have "sorted_wrt (\<lambda>x y. fst x < fst y) (butlast ?page @ [last ?page])"
      unfolding page [symmetric] sorted_wrt_append by blast
    then have "\<forall>y \<in> set (butlast ?page). fst y < fst (last ?page)"
      unfolding sorted_wrt_append by simp
    moreover from that have "x \<in> set (butlast ?page) \<or> x = last ?page"
      using arg_cong [OF page, of set] by auto
    ultimately show ?thesis by auto
  qed
  ultimately have "filter (\<lambda>(k, _). fst (last ?page) < k) ?page = []"
    and "filter (\<lambda>(k, _). fst (last ?page) < k) (drop n xs) = drop n xs"
    by (auto simp: filter_empty_conv filter_id_conv)
  then have "filter (\<lambda>(k, _). fst (last ?page) < k) (?page @ drop n xs) = drop n xs"
    by (simp only: filter_append append_Nil)
  then show ?thesis by simp
qed

lemma due_sorted: "length h < 2 ^ 64 \<Longrightarrow> bt_sorted (due E fs h p)"
  using bt_sorted_drop [OF sorted_numbered, of h "unat p"]
  by (simp add: due_def bt_sorted_def sorted_wrt_map sorted_wrt_filter)

lemma due_after:
  assumes "length h < 2 ^ 64" and "unat p \<le> unat q"
  shows "due E fs h q = filter (\<lambda>(k, _). q < k) (due E fs h p)"
  unfolding due_def numbered_after [OF assms, symmetric] filter_filter
  by (rule arg_cong [where f = "\<lambda>P. filter P _"]) auto

lemma due_page:
  assumes "length h < 2 ^ 64" and "0 < n" and "due E fs h p \<noteq> []"
    and "q = fst (last (take n (due E fs h p)))"
  shows "due E fs h q = drop n (due E fs h p)" and "p < q" and "unat q \<le> length h"
proof -
  have "last (take n (due E fs h p)) \<in> set (take n (due E fs h p))" using assms(2,3) by (intro last_in_set) simp
  then have mem: "last (take n (due E fs h p)) \<in> set (due E fs h p)" by (rule in_set_takeD)
  then have "last (take n (due E fs h p)) \<in> set (drop (unat p) (numbered h))" by (auto simp: due_def)
  then have "last (take n (due E fs h p)) \<in> set (filter (\<lambda>(k, _). p < k) (drop (unat p) (numbered h)))"
    by (simp only: numbered_after [OF assms(1) order_refl])
  then show pq: "p < q" by (auto simp: assms(4))
  have "(q, snd (last (take n (due E fs h p)))) \<in> set (numbered h)"
    using mem by (auto simp: due_def assms(4) dest: in_set_dropD)
  then show "unat q \<le> length h" by (rule numbered_key_le(2) [OF _ assms(1)])
  show "due E fs h q = drop n (due E fs h p)"
    using due_after [OF assms(1), of p q E fs] pq
      filter_after_last [OF due_sorted [OF assms(1)] assms(2,3)]
    by (simp add: assms(4) word_less_nat_alt)
qed

definition log_page ::
  "'x ext_scheme \<Rightarrow> string \<Rightarrow> string \<Rightarrow> filters option \<Rightarrow> u64 option \<Rightarrow> event_log_inner \<Rightarrow> progress_token
    \<Rightarrow> event_log_entry list \<times> progress_token \<times> bool" where
  "log_page E epoch t fs limit s token =
     (case event_log_read E s t epoch (Some \<lparr>ro_cursor = Some token, ro_limit = limit, ro_filters = fs\<rparr>) of
        Inl _ \<Rightarrow> ([], token, True)
      | Inr r \<Rightarrow> (rr_events r, case rr_cursor r of None \<Rightarrow> token | Some c \<Rightarrow> c, rr_drained r))"

definition log_valid ::
  "'x ext_scheme \<Rightarrow> string \<Rightarrow> nat \<Rightarrow> string \<Rightarrow> (string \<Rightarrow> stored_event list) \<Rightarrow> event_log_inner
    \<Rightarrow> progress_token \<Rightarrow> bool" where
  "log_valid E epoch mx t h s token \<longleftrightarrow>
     log_run E epoch mx h s \<and> log_of s t \<noteq> []
     \<and> (\<exists>p m. token = build_token E t epoch p m \<and> length (h t) - length (log_of s t) \<le> unat p)"

definition log_pending ::
  "'x ext_scheme \<Rightarrow> string \<Rightarrow> filters option \<Rightarrow> (string \<Rightarrow> stored_event list) \<Rightarrow> progress_token
    \<Rightarrow> event_log_entry list" where
  "log_pending E t fs h token =
     map (\<lambda>(seq, e). event_entry seq e) (due E fs (h t) (token_position token))"

definition log_lag :: "string \<Rightarrow> (string \<Rightarrow> stored_event list) \<Rightarrow> progress_token \<Rightarrow> nat" where
  "log_lag t h token = length (h t) - unat (token_position token)"

lemma log_page_outcome:
  assumes "log_valid E epoch mx t h s c" and "log_page E epoch t fs limit s c = (es, c', d)"
  shows "log_valid E epoch mx t h s c'"
    and "log_pending E t fs h c = es @ log_pending E t fs h c'"
    and "d \<Longrightarrow> log_pending E t fs h c' = []"
    and "\<not> d \<Longrightarrow> log_lag t h c' < log_lag t h c"
proof -
  from assms(1) obtain p m where run: "log_run E epoch mx h s" "log_of s t \<noteq> []"
    and c: "c = build_token E t epoch p m" and old: "length (h t) - length (log_of s t) \<le> unat p"
    by (auto simp: log_valid_def)
  have len: "length (h t) < 2 ^ 64" using log_run_retains [OF run(1)] by (auto simp: retains_def)
  define n where "n = max 1 (unat (case limit of None \<Rightarrow> u64_max | Some l \<Rightarrow> l))"
  then have "0 < n" by simp
  define found where "found = due E fs (h t) p"
  have page: "es = map (\<lambda>(seq, e). event_entry seq e) (take n found)"
      "c' = (if take n found = [] then c
         else build_token E t epoch (fst (last (take n found))) (Some (se_message_cid (snd (last (take n found))))))"
      "d \<longleftrightarrow> length found < n"
    using assms(2) old
    by (simp_all add: log_page_def event_log_read_def c read_events_exact [OF run] page_result_def
        Let_def n_def found_def split: if_splits)
  have goals: "log_valid E epoch mx t h s c' \<and> log_pending E t fs h c = es @ log_pending E t fs h c'
      \<and> (d \<longrightarrow> log_pending E t fs h c' = []) \<and> (\<not> d \<longrightarrow> log_lag t h c' < log_lag t h c)"
  proof (cases "found = []")
    case True
    with page assms(1) \<open>0 < n\<close> show ?thesis by (simp add: log_pending_def c found_def)
  next
    case False
    let ?q = "fst (last (take n found))"
    have c': "c' = build_token E t epoch ?q (Some (se_message_cid (snd (last (take n found)))))"
      using page(2) False \<open>0 < n\<close> by simp
    note q = due_page [OF len \<open>0 < n\<close> False [unfolded found_def] refl, folded found_def]
    have "log_valid E epoch mx t h s c'"
      using run old q(2) unfolding log_valid_def c' by (auto simp: word_less_nat_alt)
    moreover have "log_pending E t fs h c' = map (\<lambda>(seq, e). event_entry seq e) (drop n found)"
      by (simp add: log_pending_def c' q(1))
    moreover have "log_pending E t fs h c = map (\<lambda>(seq, e). event_entry seq e) found"
      by (simp add: log_pending_def c found_def)
    moreover have "log_lag t h c' < log_lag t h c"
      using q(2,3) by (simp add: log_lag_def c c' word_less_nat_alt diff_less_mono2)
    ultimately show ?thesis
      using page(1,3) by (simp add: map_append [symmetric] del: map_append)
  qed
  then show "log_valid E epoch mx t h s c'" "log_pending E t fs h c = es @ log_pending E t fs h c'"
    "d \<Longrightarrow> log_pending E t fs h c' = []" "\<not> d \<Longrightarrow> log_lag t h c' < log_lag t h c"
    by auto
qed

interpretation events: paged_reader "log_page E epoch t fs limit s" "log_pending E t fs h" "log_lag t h"
  "log_valid E epoch mx t h s" for E :: "'x ext_scheme" and epoch t fs limit s h mx
  by unfold_locales (blast intro: log_page_outcome | simp add: log_page_outcome)+

section \<open>A concrete log\<close>

definition sample_event :: message_event where
  "sample_event = \<lparr>me_message = sample_write 5, me_initial_write = None\<rparr>"

definition sample_stored :: "string \<Rightarrow> stored_event" where
  "sample_stored c = \<lparr>se_event = sample_event, se_indexes = [], se_message_cid = c\<rparr>"

definition sample_emit :: "string \<Rightarrow> event_log_inner \<Rightarrow> event_log_inner" where
  "sample_emit c s = fst (emit plain_ext ''ep'' 2 ''did:a'' sample_event [] c s)"

definition sample_log :: event_log_inner where
  "sample_log = sample_emit ''c'' (sample_emit ''b'' (sample_emit ''a'' (event_log_open event_log_inner_default)))"

definition sample_history :: "string \<Rightarrow> stored_event list" where
  "sample_history = (\<lambda>_. [])(''did:a'' := map sample_stored [''a'', ''b'', ''c''])"

lemma emit_open: "el_is_open s \<Longrightarrow> el_is_open (fst (emit E epoch mx t ev ix c s))"
  by (simp add: emit_def Let_def)

lemma run_sample_emit:
  "\<lbrakk>log_run plain_ext ''ep'' 2 h s; el_is_open s; Suc (length (h ''did:a'')) < 2 ^ 64\<rbrakk>
   \<Longrightarrow> log_run plain_ext ''ep'' 2 (h(''did:a'' := h ''did:a'' @ [sample_stored c])) (sample_emit c s)
     \<and> el_is_open (sample_emit c s)"
  using run_emit [of plain_ext "''ep''" 2 h s "''did:a''" sample_event "[]" c "sample_emit c s"]
    emit_open [of s plain_ext "''ep''" 2 "''did:a''" sample_event "[]" c]
  by (cases "emit plain_ext ''ep'' 2 ''did:a'' sample_event [] c s")
     (simp add: sample_stored_def sample_emit_def)

lemma sample_log_run: "log_run plain_ext ''ep'' 2 sample_history sample_log"
proof -
  let ?s = "event_log_open event_log_inner_default"
  have zero: "log_run plain_ext ''ep'' 2 (\<lambda>_. []) ?s" "el_is_open ?s"
    by (rule run_open [OF run_new]) (simp add: event_log_open_def)
  note one = run_sample_emit [OF zero, of "''a''", simplified]
  note two = run_sample_emit [OF one [THEN conjunct1] one [THEN conjunct2], of "''b''", simplified]
  note three = run_sample_emit [OF two [THEN conjunct1] two [THEN conjunct2], of "''c''", simplified]
  from three show ?thesis by (simp add: sample_log_def sample_history_def)
qed

lemma sample_log_kept: "log_of sample_log ''did:a'' = [(2, sample_stored ''b''), (3, sample_stored ''c'')]"
  by code_simp

section \<open>Properties\<close>



text \<open>
  What emitting does. On an open log the event gets the next sequence number and is appended,
  the oldest events beyond the limit are evicted and nothing else changes; the token returned
  names the event; and exactly the tenant's subscriptions whose filters match are notified, once
  each, with that token. On a closed log nothing happens.
\<close>

theorem emit_appends_and_notifies:
  assumes "log_run E epoch mx h s" and "Suc (length (h t)) < 2 ^ 64"
    and "emit E epoch mx t ev ix c s = (s', token, out)"
  shows "if el_is_open s
    then (let seq = of_nat (Suc (length (h t)));
              log = log_of s t @ [(seq, \<lparr>se_event = ev, se_indexes = ix, se_message_cid = c\<rparr>)]
          in log_of s' t = drop (length log - mx) log \<and> (\<forall>u. u \<noteq> t \<longrightarrow> log_of s' u = log_of s u)
             \<and> el_subscriptions s' = el_subscriptions s
             \<and> token = Some (build_token E t epoch seq (Some c))
             \<and> out = [(ss_listener sub, SubEvent (build_token E t epoch seq (Some c)) ev
                          (Some (u64_to_string seq)) (Some c) None None None).
                       ((u, i), sub) \<leftarrow> el_subscriptions s, u = t \<and> matches_filters E ix (ss_filters sub)])
    else s' = s \<and> token = None \<and> out = []"
proof (cases "el_is_open s")
  case True
  note ret = log_run_retains [OF assms(1), of t]
  let ?e = "\<lparr>se_event = ev, se_indexes = ix, se_message_cid = c\<rparr>"
  have seq: "seq_of s t + 1 = of_nat (Suc (length (h t)))" using ret by (simp add: retains_def)
  have "fst p < seq_of s t + 1" if "p \<in> set (log_of s t)" for p
    using that ret numbered_key_le(2) [of "fst p" "snd p" "h t"] unat_of_nat_64 [OF assms(2)]
    unfolding seq by (auto simp: retains_def word_less_nat_alt dest!: in_set_dropD simp del: of_nat_Suc)
  then have ins: "bt_insert (seq_of s t + 1) ?e (log_of s t) = log_of s t @ [(seq_of s t + 1, ?e)]"
    by (intro bt_insert_last) blast
  have "bt_sorted (bt_insert (seq_of s t + 1) ?e (log_of s t))"
    using retains_sorted [OF ret] by simp
  note keep = evict_drop [OF this, of mx]
  have pick: "concat (map (\<lambda>((u, i), sub). if P u sub then [f sub] else []) xs)
      = map (\<lambda>(_, sub). f sub) (filter (\<lambda>((u, _), sub). P u sub) xs)" for P f
    and xs :: "((string \<times> string) \<times> stored_subscription) list"
    by (induction xs) auto
  show ?thesis
    using True assms(3) keep [unfolded ins [unfolded seq]] unfolding seq [symmetric]
    by (auto simp: emit_def Let_def ins deliver_live_def pick)
qed (use assms(3) in \<open>simp add: emit_def\<close>)

theorem emit_appends_and_notifies_witness:
  "log_of (sample_emit ''d'' sample_log) ''did:a'' = [(3, sample_stored ''c''), (4, sample_stored ''d'')]"
proof -
  obtain s' token out where step: "emit plain_ext ''ep'' 2 ''did:a'' sample_event [] ''d'' sample_log = (s', token, out)"
    by (metis prod_cases3)
  have "el_is_open sample_log" by code_simp
  moreover have "length (sample_history ''did:a'') = 3" by (simp add: sample_history_def)
  ultimately show ?thesis
    using emit_appends_and_notifies [OF sample_log_run _ step]
    by (simp add: Let_def sample_log_kept sample_emit_def step sample_stored_def)
qed




definition sample_subscribed :: event_log_inner where
  "sample_subscribed = sample_log\<lparr>el_subscriptions :=
     bt_insert (''did:a'', ''s'') \<lparr>ss_listener = 7, ss_filters = None\<rparr> (el_subscriptions sample_log)\<rparr>"

lemma sample_subscribed_run: "log_run plain_ext ''ep'' 2 sample_history sample_subscribed"
  using run_register [OF sample_log_run, of "''did:a''" "''s''" 7 "\<lparr>so_cursor = None, so_filters = None\<rparr>"
      sample_subscribed]
  by (simp add: subscribe_register_def sample_subscribed_def)





end
