(* ===== verification/TaskStore.thy ===== *)
theory TaskStore
  imports Feed
begin

text \<open>
  The in-memory resumable task store of \<open>stores/memory.rs\<close>. A task is registered with a deadline;
  once the deadline has passed it can be grabbed, which leases it to the caller for a minute and
  counts the attempt. Times are milliseconds as \<open>u64\<close>; the additions wrap, as in the release
  profile. The clock is an argument of each operation that reads it.
\<close>

section \<open>State\<close>

record stored_task =
  st_id :: string
  st_task :: json
  st_timeout :: u64
  st_retry_count :: u64

type_synonym tasks = "(string, stored_task) btree"

record 'a managed_task =
  mt_id :: string
  mt_task :: 'a
  mt_timeout :: u64
  mt_retry_count :: u64

text \<open>
  Serialisation of the task type, which is generic, and the CID of a JSON value (DAG-CBOR and
  SHA-256) are arguments.
\<close>

record 'a task_codec =
  to_value :: "'a \<Rightarrow> (string, json) result"
  from_value :: "json \<Rightarrow> (string, 'a) result"
  cid_of_json :: "json \<Rightarrow> (string, string) result"

definition grabbed_task_timeout_seconds :: u64 where
  "grabbed_task_timeout_seconds = 60"

section \<open>Operations\<close>

definition task_store_error :: "string \<Rightarrow> resumable_task_store_error" where
  "task_store_error detail = TaskStoreError (InternalException detail)"

definition task_restore :: "string \<Rightarrow> json \<Rightarrow> u64 \<Rightarrow> u64 \<Rightarrow> tasks \<Rightarrow> tasks" where
  "task_restore ident task timeout retry_count tasks =
     bt_insert ident \<lparr>st_id = ident, st_task = task, st_timeout = timeout, st_retry_count = retry_count\<rparr> tasks"

definition task_register ::
  "'a task_codec \<Rightarrow> u64 \<Rightarrow> 'a \<Rightarrow> u64 \<Rightarrow> tasks
    \<Rightarrow> (resumable_task_store_error, tasks \<times> 'a managed_task) result" where
  "task_register X now task timeout_in_seconds tasks =
     (case to_value X task of
        Inl e \<Rightarrow> Inl (task_store_error e)
      | Inr task_json \<Rightarrow>
          (case cid_of_json X task_json of
             Inl e \<Rightarrow> Inl (task_store_error e)
           | Inr ident \<Rightarrow>
               let timeout = now + saturating_mul timeout_in_seconds 1000;
                   stored = \<lparr>st_id = ident, st_task = task_json, st_timeout = timeout, st_retry_count = 0\<rparr>
               in if bt_contains tasks ident then Inl (task_store_error ''ResumableTaskAlreadyExists'')
                  else Inr (bt_insert ident stored tasks,
                            \<lparr>mt_id = ident, mt_task = task, mt_timeout = timeout, mt_retry_count = 0\<rparr>)))"

definition enbox_task ::
  "'a task_codec \<Rightarrow> stored_task \<Rightarrow> (resumable_task_store_error, 'a managed_task) result" where
  "enbox_task X task =
     (case from_value X (st_task task) of
        Inl e \<Rightarrow> Inl (task_store_error e)
      | Inr a \<Rightarrow> Inr \<lparr>mt_id = st_id task, mt_task = a, mt_timeout = st_timeout task,
                      mt_retry_count = st_retry_count task\<rparr>)"

definition expired_ids :: "u64 \<Rightarrow> u64 \<Rightarrow> tasks \<Rightarrow> string list" where
  "expired_ids now count tasks =
     take (unat count) (map fst (filter (\<lambda>(_, task). st_timeout task \<le> now) tasks))"

definition lease :: "u64 \<Rightarrow> stored_task \<Rightarrow> stored_task" where
  "lease now task =
     task\<lparr>st_timeout := now + grabbed_task_timeout_seconds * 1000,
          st_retry_count := st_retry_count task + 1\<rparr>"

text \<open>
  The loop of \<open>grab\<close>. Each task is updated in place before it is decoded, so when decoding fails
  the updates made so far, that task's included, stay. The identifiers come from the map itself, so
  the branch for a missing one, a panic in the source, is never taken.
\<close>

fun grab_loop ::
  "'a task_codec \<Rightarrow> u64 \<Rightarrow> string list \<Rightarrow> tasks \<Rightarrow> 'a managed_task list
    \<Rightarrow> tasks \<times> (resumable_task_store_error, 'a managed_task list) result" where
  "grab_loop X now [] tasks grabbed = (tasks, Inr grabbed)"
| "grab_loop X now (ident # idents) tasks grabbed =
     (case bt_get tasks ident of
        None \<Rightarrow> (tasks, Inl (task_store_error ''expired task must exist''))
      | Some task \<Rightarrow>
          let leased = lease now task;
              tasks' = bt_insert ident leased tasks
          in case enbox_task X leased of
               Inl e \<Rightarrow> (tasks', Inl e)
             | Inr managed \<Rightarrow> grab_loop X now idents tasks' (grabbed @ [managed]))"

definition task_grab ::
  "'a task_codec \<Rightarrow> u64 \<Rightarrow> u64 \<Rightarrow> tasks
    \<Rightarrow> tasks \<times> (resumable_task_store_error, 'a managed_task list) result" where
  "task_grab X now count tasks = grab_loop X now (expired_ids now count tasks) tasks []"

definition task_read ::
  "'a task_codec \<Rightarrow> string \<Rightarrow> tasks \<Rightarrow> (resumable_task_store_error, 'a managed_task option) result" where
  "task_read X task_id tasks =
     (case bt_get tasks task_id of
        None \<Rightarrow> Inr None
      | Some task \<Rightarrow> rbind (enbox_task X task) (\<lambda>managed. Inr (Some managed)))"

definition task_extend :: "u64 \<Rightarrow> string \<Rightarrow> u64 \<Rightarrow> tasks \<Rightarrow> tasks" where
  "task_extend now task_id timeout_in_seconds tasks =
     (case bt_get tasks task_id of
        None \<Rightarrow> tasks
      | Some task \<Rightarrow>
          bt_insert task_id (task\<lparr>st_timeout := now + saturating_mul timeout_in_seconds 1000\<rparr>) tasks)"

definition task_delete :: "string \<Rightarrow> tasks \<Rightarrow> tasks" where
  "task_delete task_id tasks = bt_remove task_id tasks"

definition task_clear :: "tasks \<Rightarrow> tasks" where
  "task_clear tasks = []"

section \<open>The store invariant\<close>

text \<open>Tasks are filed under their own identifier and can be decoded.\<close>

definition tasks_ok :: "'a task_codec \<Rightarrow> tasks \<Rightarrow> bool" where
  "tasks_ok X tasks \<longleftrightarrow>
     bt_sorted tasks
     \<and> (\<forall>k task. bt_get tasks k = Some task \<longrightarrow> st_id task = k \<and> is_ok (from_value X (st_task task)))"

definition codec_ok :: "'a task_codec \<Rightarrow> bool" where
  "codec_ok X \<longleftrightarrow> (\<forall>a j. to_value X a = Inr j \<longrightarrow> from_value X j = Inr a)"

lemma tasks_ok_insert:
  "\<lbrakk>tasks_ok X tasks; st_id task = k; is_ok (from_value X (st_task task))\<rbrakk> \<Longrightarrow> tasks_ok X (bt_insert k task tasks)"
  by (auto simp: tasks_ok_def bt_get_insert)

lemma tasks_ok_lease:
  "\<lbrakk>tasks_ok X tasks; bt_get tasks k = Some task\<rbrakk> \<Longrightarrow> tasks_ok X (bt_insert k (lease now task) tasks)"
  by (rule tasks_ok_insert) (auto simp: tasks_ok_def lease_def)

lemma tasks_ok_empty [simp]: "tasks_ok X []"
  by (simp add: tasks_ok_def)

lemma tasks_ok_delete: "tasks_ok X tasks \<Longrightarrow> tasks_ok X (task_delete k tasks)"
  by (auto simp: tasks_ok_def task_delete_def bt_get_remove split: if_splits)

lemma tasks_ok_extend: "tasks_ok X tasks \<Longrightarrow> tasks_ok X (task_extend now k n tasks)"
  by (auto simp: task_extend_def tasks_ok_def bt_get_insert split: option.splits)

lemma tasks_ok_register:
  "\<lbrakk>tasks_ok X tasks; codec_ok X; task_register X now task n tasks = Inr (tasks', m)\<rbrakk> \<Longrightarrow> tasks_ok X tasks'"
  by (auto simp: task_register_def Let_def codec_ok_def intro!: tasks_ok_insert split: sum.splits if_splits)

section \<open>Leasing\<close>

lemma expired_ids_in:
  assumes "bt_sorted tasks" and "k \<in> set (expired_ids now count tasks)"
  shows "\<exists>task. bt_get tasks k = Some task \<and> st_timeout task \<le> now"
  using assms by (auto simp: expired_ids_def bt_get_iff_in dest!: in_set_takeD) blast

lemma distinct_expired_ids: "bt_sorted tasks \<Longrightarrow> distinct (expired_ids now count tasks)"
  by (auto simp: expired_ids_def distinct_map_filter dest!: bt_sorted_distinct intro!: distinct_take)

lemma grab_loop_leases:
  assumes "tasks_ok X tasks" and "distinct idents" and "\<forall>k \<in> set idents. bt_get tasks k \<noteq> None"
  shows "\<exists>tasks' got. grab_loop X now idents tasks grabbed = (tasks', Inr (grabbed @ got))
     \<and> tasks_ok X tasks' \<and> map mt_id got = idents
     \<and> (\<forall>m \<in> set got. mt_timeout m = now + grabbed_task_timeout_seconds * 1000)
     \<and> (\<forall>k. bt_get tasks' k = (if k \<in> set idents then map_option (lease now) (bt_get tasks k)
                              else bt_get tasks k))"
  using assms
proof (induction idents arbitrary: tasks grabbed)
  case (Cons ident idents)
  obtain task where task: "bt_get tasks ident = Some task" using Cons.prems(3) by auto
  let ?tasks = "bt_insert ident (lease now task) tasks"
  obtain a where "from_value X (st_task task) = Inr a" and ident: "st_id task = ident"
    using Cons.prems(1) task by (auto simp: tasks_ok_def is_ok_iff)
  then obtain m where m: "enbox_task X (lease now task) = Inr m" "mt_id m = ident"
      "mt_timeout m = now + grabbed_task_timeout_seconds * 1000"
    by (simp add: enbox_task_def lease_def)
  have "\<forall>k \<in> set idents. bt_get ?tasks k \<noteq> None" using Cons.prems(3) by (simp add: bt_get_insert)
  with Cons.IH [OF tasks_ok_lease [OF Cons.prems(1) task, of now], where grabbed = "grabbed @ [m]"] Cons.prems(2)
  obtain tasks' got where "grab_loop X now idents ?tasks (grabbed @ [m]) = (tasks', Inr ((grabbed @ [m]) @ got))"
    and rest: "tasks_ok X tasks'" "map mt_id got = idents"
      "\<forall>m \<in> set got. mt_timeout m = now + grabbed_task_timeout_seconds * 1000"
      "\<forall>k. bt_get tasks' k = (if k \<in> set idents then map_option (lease now) (bt_get ?tasks k) else bt_get ?tasks k)"
    by auto
  then have run: "grab_loop X now (ident # idents) tasks grabbed = (tasks', Inr (grabbed @ m # got))"
    using task m(1) by simp
  show ?case
    using run rest m(2,3) task Cons.prems(2) by (intro exI [of _ tasks'] exI [of _ "m # got"]) (auto simp: bt_get_insert)
qed simp

lemma grab_outcome:
  assumes "tasks_ok X tasks"
  shows "\<exists>tasks' got. task_grab X now count tasks = (tasks', Inr got) \<and> tasks_ok X tasks'
    \<and> map mt_id got = expired_ids now count tasks
    \<and> (\<forall>m \<in> set got. mt_timeout m = now + grabbed_task_timeout_seconds * 1000)
    \<and> (\<forall>k. bt_get tasks' k = (if k \<in> set (expired_ids now count tasks)
       then map_option (lease now) (bt_get tasks k) else bt_get tasks k))"
proof -
  have sorted: "bt_sorted tasks" using assms by (simp add: tasks_ok_def)
  have "\<forall>k \<in> set (expired_ids now count tasks). bt_get tasks k \<noteq> None"
    using expired_ids_in [OF sorted] by fastforce
  from grab_loop_leases [OF assms distinct_expired_ids [OF sorted] this, where grabbed = "[]" and now = now]
  show ?thesis by (simp only: task_grab_def append_Nil)
qed

lemma lease_not_expired:
  assumes "now \<le> later" and "unat later < unat now + 60000" and "unat now + 60000 < 2 ^ 64"
  shows "\<not> st_timeout (lease now task) \<le> later"
proof -
  have "unat (now + 60000) = unat now + 60000"
    using assms(3) by (subst unat_add_lem [THEN iffD1]) simp_all
  then show ?thesis
    using assms(2) by (simp add: lease_def grabbed_task_timeout_seconds_def word_le_nat_alt)
qed

section \<open>A concrete store\<close>

definition plain_codec :: "string task_codec" where
  "plain_codec = \<lparr>to_value = (\<lambda>a. Inr (JString a)),
     from_value = (\<lambda>j. case j of JString a \<Rightarrow> Inr a | _ \<Rightarrow> Inl ''not a string''),
     cid_of_json = (\<lambda>j. case j of JString a \<Rightarrow> Inr a | _ \<Rightarrow> Inl ''not a string'')\<rparr>"

definition sample_task :: "string \<Rightarrow> u64 \<Rightarrow> string \<times> stored_task" where
  "sample_task k timeout = (k, \<lparr>st_id = k, st_task = JString k, st_timeout = timeout, st_retry_count = 0\<rparr>)"

definition sample_tasks :: tasks where
  "sample_tasks = [sample_task ''a'' 5, sample_task ''b'' 90000, sample_task ''c'' 7]"

lemma plain_codec_ok: "codec_ok plain_codec"
  by (simp add: codec_ok_def plain_codec_def)

lemma sample_tasks_ok: "tasks_ok plain_codec sample_tasks"
  by (auto simp: tasks_ok_def sample_tasks_def sample_task_def bt_sorted_def bt_get_def plain_codec_def
      split: if_splits)

section \<open>Properties\<close>

text \<open>
  C27: grabbing leases. On a well-formed store a grab succeeds and returns, in the order of their
  identifiers, the first \<open>count\<close> tasks whose deadline has passed. Each of them is given a deadline
  a minute ahead and one more attempt; every other task is left alone. Until that minute is over
  (and the clock does not wrap) none of them is expired again, so no later grab can return it.
\<close>

theorem grab_leases_expired_tasks:
  assumes "tasks_ok X tasks" and "unat now + 60000 < 2 ^ 64"
  shows "\<exists>tasks' got. task_grab X now count tasks = (tasks', Inr got) \<and> tasks_ok X tasks'
    \<and> map mt_id got = take (unat count) [k. (k, task) \<leftarrow> tasks, st_timeout task \<le> now]
    \<and> (\<forall>k. bt_get tasks' k = (if k \<in> set (map mt_id got)
          then map_option (\<lambda>task. task\<lparr>st_timeout := now + 60000, st_retry_count := st_retry_count task + 1\<rparr>)
                 (bt_get tasks k)
          else bt_get tasks k))
    \<and> (\<forall>later more. now \<le> later \<and> unat later < unat now + 60000
          \<longrightarrow> set (expired_ids later more tasks') \<inter> set (map mt_id got) = {})"
proof -
  obtain tasks' got where grab: "task_grab X now count tasks = (tasks', Inr got)" "tasks_ok X tasks'"
    and ids: "map mt_id got = expired_ids now count tasks"
    and look: "\<forall>k. bt_get tasks' k = (if k \<in> set (expired_ids now count tasks)
       then map_option (lease now) (bt_get tasks k) else bt_get tasks k)"
    using grab_outcome [OF assms(1), of now count] by blast
  have comprehension: "[k. (k, task) \<leftarrow> xs, st_timeout task \<le> now]
      = map fst (filter (\<lambda>(_, task). st_timeout task \<le> now) xs)" for xs :: tasks
    by (induction xs) auto
  have lease_now: "lease now =
      (\<lambda>task. task\<lparr>st_timeout := now + 60000, st_retry_count := st_retry_count task + 1\<rparr>)"
    by (simp add: fun_eq_iff lease_def grabbed_task_timeout_seconds_def)
  have fresh: "k \<notin> set (expired_ids now count tasks)"
    if late: "k \<in> set (expired_ids later more tasks')" "now \<le> later" "unat later < unat now + 60000" for k later more
  proof
    assume k: "k \<in> set (expired_ids now count tasks)"
    obtain task where "bt_get tasks' k = Some task" "st_timeout task \<le> later"
      using expired_ids_in [OF _ late(1)] grab(2) by (auto simp: tasks_ok_def)
    with look [rule_format, of k] k lease_not_expired [OF late(2,3) assms(2)] show False
      by (cases "bt_get tasks k") auto
  qed
  show ?thesis
  proof (intro exI conjI)
    show "map mt_id got = take (unat count) [k. (k, task) \<leftarrow> tasks, st_timeout task \<le> now]"
      by (simp only: ids comprehension expired_ids_def)
    show "\<forall>k. bt_get tasks' k = (if k \<in> set (map mt_id got)
          then map_option (\<lambda>task. task\<lparr>st_timeout := now + 60000, st_retry_count := st_retry_count task + 1\<rparr>)
                 (bt_get tasks k)
          else bt_get tasks k)"
      using look unfolding ids lease_now .
    show "\<forall>later more. now \<le> later \<and> unat later < unat now + 60000
          \<longrightarrow> set (expired_ids later more tasks') \<inter> set (map mt_id got) = {}"
      using fresh unfolding ids by blast
  qed (use grab in auto)
qed

theorem grab_leases_expired_tasks_witness:
  "\<exists>tasks' got. task_grab plain_codec 100 1 sample_tasks = (tasks', Inr got) \<and> map mt_id got = [''a'']
     \<and> map_option st_timeout (bt_get tasks' ''a'') = Some 60100"
proof -
  have "unat (100 :: u64) + 60000 < 2 ^ 64" by simp
  from grab_leases_expired_tasks [OF sample_tasks_ok this, of 1]
  obtain tasks' got where g: "task_grab plain_codec 100 1 sample_tasks = (tasks', Inr got)"
    "map mt_id got = take (unat (1 :: u64)) [k. (k, task) \<leftarrow> sample_tasks, st_timeout task \<le> 100]"
    and look: "\<forall>k. bt_get tasks' k = (if k \<in> set (map mt_id got)
          then map_option (\<lambda>task. task\<lparr>st_timeout := 100 + 60000, st_retry_count := st_retry_count task + 1\<rparr>)
                 (bt_get sample_tasks k)
          else bt_get sample_tasks k)"
    by blast
  have ids: "map mt_id got = [''a'']" using g(2) by (simp add: sample_tasks_def sample_task_def)
  moreover have "bt_get sample_tasks ''a'' = Some (snd (sample_task ''a'' 5))"
    by (simp add: sample_tasks_def sample_task_def bt_get_def)
  ultimately show ?thesis
    using g(1) look [rule_format, of "''a''"] by (auto simp: sample_task_def)
qed

text \<open>
  Registering a task. A task that is already on file is refused and the store is unchanged.
  Otherwise it is filed under the CID of its JSON, reading it back returns what registering
  returned, its deadline is the given number of seconds ahead when that does not overflow, and no
  other task is affected.
\<close>

theorem register_files_task:
  assumes "codec_ok X" and "to_value X task = Inr j" and "cid_of_json X j = Inr ident"
    and "unat now + unat seconds * 1000 < 2 ^ 64"
  shows "if bt_contains tasks ident
    then task_register X now task seconds tasks
      = Inl (TaskStoreError (InternalException ''ResumableTaskAlreadyExists''))
    else \<exists>tasks' m. task_register X now task seconds tasks = Inr (tasks', m)
      \<and> task_read X ident tasks' = Inr (Some m)
      \<and> mt_task m = task \<and> unat (mt_timeout m) = unat now + unat seconds * 1000 \<and> mt_retry_count m = 0
      \<and> (\<forall>k. k \<noteq> ident \<longrightarrow> bt_get tasks' k = bt_get tasks k)"
proof -
  have thousand: "unat (1000 :: u64) = 1000" by simp
  have "unat seconds * unat (1000 :: u64) < 2 ^ 64" using assms(4) unfolding thousand by linarith
  then have mul: "unat (saturating_mul seconds 1000) = unat seconds * 1000"
    unfolding saturating_mul_def using unat_mult_lem [of seconds "1000 :: u64"]
    by (simp only: thousand if_True) simp
  have "unat (now + saturating_mul seconds 1000) = unat now + unat seconds * 1000"
    using assms(4) mul unat_add_lem [of now "saturating_mul seconds 1000"] by simp
  moreover have "from_value X j = Inr task" using assms(1,2) by (simp add: codec_ok_def)
  ultimately show ?thesis
    using assms(2,3)
    by (simp add: task_register_def Let_def task_store_error_def task_read_def bt_get_insert enbox_task_def)
qed

theorem register_files_task_witness:
  "\<exists>tasks' m. task_register plain_codec 1 ''d'' 60 sample_tasks = Inr (tasks', m)
     \<and> task_read plain_codec ''d'' tasks' = Inr (Some m) \<and> unat (mt_timeout m) = 60001"
proof -
  have "to_value plain_codec ''d'' = Inr (JString ''d'')" "cid_of_json plain_codec (JString ''d'') = Inr ''d''"
    by (simp_all add: plain_codec_def)
  moreover have "unat (1 :: u64) + unat (60 :: u64) * 1000 < 2 ^ 64" by simp
  moreover have "\<not> bt_contains sample_tasks ''d''"
    by (simp add: bt_contains_def sample_tasks_def sample_task_def bt_get_def)
  ultimately show ?thesis
    using register_files_task [OF plain_codec_ok, of "''d''" "JString ''d''" "''d''" 1 60 sample_tasks] by auto
qed

text \<open>
  C28: a deadline that overflows. The multiplication saturates but the addition of the clock wraps,
  so registering with the largest timeout gives a deadline one millisecond in the past: the task
  is expired at once, and the next grab hands it out while it is still running.
\<close>

theorem huge_timeout_expires_at_once:
  assumes "0 < now" and "codec_ok X" and "to_value X task = Inr j" and "cid_of_json X j = Inr ident"
    and "0 < count"
  shows "\<exists>tasks' m. task_register X now task u64_max [] = Inr (tasks', m)
    \<and> mt_timeout m = now - 1 \<and> expired_ids now count tasks' = [ident]"
proof -
  have "saturating_mul u64_max 1000 = u64_max" unfolding saturating_mul_def unat_u64_max by simp
  then have out: "task_register X now task u64_max [] =
      Inr ([(ident, \<lparr>st_id = ident, st_task = j, st_timeout = now - 1, st_retry_count = 0\<rparr>)],
           \<lparr>mt_id = ident, mt_task = task, mt_timeout = now - 1, mt_retry_count = 0\<rparr>)"
    using assms(3,4) by (simp add: task_register_def bt_contains_def u64_max_def Let_def)
  have "now - 1 \<le> now" using assms(1) by (simp add: word_le_nat_alt unat_sub_if' word_less_nat_alt)
  moreover have "0 < unat count" using assms(5) by (simp add: word_less_nat_alt)
  ultimately show ?thesis by (simp add: out expired_ids_def take_Cons')
qed

theorem huge_timeout_expires_at_once_witness:
  "\<exists>tasks' m. task_register plain_codec 1000 ''d'' u64_max [] = Inr (tasks', m)
     \<and> expired_ids 1000 1 tasks' = [''d'']"
  using huge_timeout_expires_at_once [of 1000 plain_codec "''d''" "JString ''d''" "''d''" 1] plain_codec_ok
  by (auto simp: plain_codec_def)

end
