(* ===== verification/StateIndex.thy ===== *)
theory StateIndex
  imports Feed
begin

text \<open>
  The in-memory state index of \<open>stores/state_index.rs\<close>: per tenant the set of stored message CIDs,
  overall and per protocol, summarised by the root of a sparse Merkle tree of depth 256 in which a
  subtree with a single leaf collapses to that leaf. Indexing a byte or a default hash out of range
  panics in the source; the functions that can do so return an option, with \<open>None\<close> for a panic.
\<close>

section \<open>State\<close>

type_synonym state_hash = bytes32

record tenant_state =
  ts_global :: "string bset"
  ts_protocols :: "(string, string bset) btree"
  ts_metadata :: "(string, string option) btree"

type_synonym state_index = "(string, tenant_state) btree"

definition tenant_state_default :: tenant_state where
  "tenant_state_default = \<lparr>ts_global = [], ts_protocols = [], ts_metadata = []\<rparr>"

record leaf =
  lf_key_hash :: state_hash
  lf_leaf_hash :: state_hash
  lf_value_cid :: string

section \<open>Hashing\<close>

definition smt_depth :: nat where
  "smt_depth = 256"

definition hash_bytes :: "state_hash \<Rightarrow> u8 list" where
  "hash_bytes h = map (byte_at h) [0..<32]"

definition hash_key :: "'x ext_scheme \<Rightarrow> string \<Rightarrow> state_hash" where
  "hash_key E s = sha256 E (as_bytes s)"

definition leaf_input :: "state_hash \<Rightarrow> string \<Rightarrow> u8 list" where
  "leaf_input key_hash value_cid = 0 # hash_bytes key_hash @ as_bytes value_cid"

definition hash_leaf :: "'x ext_scheme \<Rightarrow> state_hash \<Rightarrow> string \<Rightarrow> state_hash" where
  "hash_leaf E key_hash value_cid = sha256 E (leaf_input key_hash value_cid)"

definition children_input :: "state_hash \<Rightarrow> state_hash \<Rightarrow> u8 list" where
  "children_input left right = hash_bytes left @ hash_bytes right"

definition hash_children :: "'x ext_scheme \<Rightarrow> state_hash \<Rightarrow> state_hash \<Rightarrow> state_hash" where
  "hash_children E left right = sha256 E (children_input left right)"

text \<open>The bits of a hash, most significant first.\<close>

definition get_bit :: "state_hash \<Rightarrow> nat \<Rightarrow> bool option" where
  "get_bit hash depth =
     (let byte_index = depth div 8; bit_index = 7 - depth mod 8
      in if byte_index < 32 then Some (drop_bit bit_index (byte_at hash byte_index) AND 1 = 1) else None)"

fun matches_from :: "state_hash \<Rightarrow> nat \<Rightarrow> bool list \<Rightarrow> bool option" where
  "matches_from key_hash depth [] = Some True"
| "matches_from key_hash depth (b # bits) =
     (case get_bit key_hash depth of
        None \<Rightarrow> None
      | Some c \<Rightarrow> if c = b then matches_from key_hash (Suc depth) bits else Some False)"

definition leaf_matches_prefix :: "state_hash \<Rightarrow> bool list \<Rightarrow> bool option" where
  "leaf_matches_prefix key_hash bits = matches_from key_hash 0 bits"

definition make_leaves :: "'x ext_scheme \<Rightarrow> string bset \<Rightarrow> leaf list" where
  "make_leaves E cids =
     map (\<lambda>value_cid. let key_hash = hash_key E value_cid in
            \<lparr>lf_key_hash = key_hash, lf_leaf_hash = hash_leaf E key_hash value_cid, lf_value_cid = value_cid\<rparr>)
       cids"

text \<open>The table of default hashes, filled from the bottom: zeros at depth 256, then upwards.\<close>

fun default_above :: "'x ext_scheme \<Rightarrow> nat \<Rightarrow> state_hash" where
  "default_above E 0 = 0"
| "default_above E (Suc n) = hash_children E (default_above E n) (default_above E n)"

definition default_hashes :: "'x ext_scheme \<Rightarrow> nat \<Rightarrow> state_hash option" where
  "default_hashes E depth = (if depth \<le> smt_depth then Some (default_above E (smt_depth - depth)) else None)"

text \<open>
  In the recursive case \<open>depth\<close> is below 256, so the bit of every leaf is there to be read.
\<close>

function node_hash :: "'x ext_scheme \<Rightarrow> leaf list \<Rightarrow> nat \<Rightarrow> state_hash option" where
  "node_hash E leaves depth =
     (if leaves = [] then default_hashes E depth
      else if length leaves = 1 \<or> smt_depth \<le> depth then Some (lf_leaf_hash (hd leaves))
      else
        (case (node_hash E (filter (\<lambda>l. get_bit (lf_key_hash l) depth \<noteq> Some True) leaves) (depth + 1),
               node_hash E (filter (\<lambda>l. get_bit (lf_key_hash l) depth = Some True) leaves) (depth + 1)) of
           (Some left_hash, Some right_hash) \<Rightarrow> Some (hash_children E left_hash right_hash)
         | _ \<Rightarrow> None))"
  by pat_completeness auto
termination
  by (relation "measure (\<lambda>(_, _, depth). smt_depth - depth)") (auto simp: smt_depth_def)

declare node_hash.simps [simp del]

definition root_hash :: "'x ext_scheme \<Rightarrow> string bset \<Rightarrow> state_hash option" where
  "root_hash E cids = node_hash E (make_leaves E cids) 0"

text \<open>\<open>filter\<close> with a test that may panic.\<close>

fun filter_leaves :: "bool list \<Rightarrow> leaf list \<Rightarrow> leaf list option" where
  "filter_leaves bits [] = Some []"
| "filter_leaves bits (l # ls) =
     (case leaf_matches_prefix (lf_key_hash l) bits of
        None \<Rightarrow> None
      | Some keep \<Rightarrow> map_option (\<lambda>rest. if keep then l # rest else rest) (filter_leaves bits ls))"

definition subtree_hash :: "'x ext_scheme \<Rightarrow> string bset \<Rightarrow> bool list \<Rightarrow> state_hash option" where
  "subtree_hash E cids bits =
     Option.bind (filter_leaves bits (make_leaves E cids)) (\<lambda>leaves. node_hash E leaves (length bits))"

definition compare_leaves :: "leaf \<Rightarrow> leaf \<Rightarrow> ordering" where
  "compare_leaves left right =
     ord_then (ord_cmp (lf_key_hash left) (lf_key_hash right)) (ord_cmp (lf_value_cid left) (lf_value_cid right))"

definition index_leaves :: "'x ext_scheme \<Rightarrow> string bset \<Rightarrow> bool list \<Rightarrow> string list option" where
  "index_leaves E cids bits =
     map_option (\<lambda>leaves. map lf_value_cid (sort_by compare_leaves leaves))
       (filter_leaves bits (make_leaves E cids))"

section \<open>Operations\<close>

definition protocol_index :: "key_values \<Rightarrow> string option" where
  "protocol_index indexes = (case bt_get indexes ''protocol'' of Some (VString p) \<Rightarrow> Some p | _ \<Rightarrow> None)"

definition remove_protocol_cid :: "string \<Rightarrow> string \<Rightarrow> tenant_state \<Rightarrow> tenant_state" where
  "remove_protocol_cid protocol mcid s =
     (case bt_get (ts_protocols s) protocol of
        None \<Rightarrow> s
      | Some cids \<Rightarrow> s\<lparr>ts_protocols := bt_insert protocol (bs_remove mcid cids) (ts_protocols s)\<rparr>)"

definition tenant_insert :: "string \<Rightarrow> string option \<Rightarrow> tenant_state \<Rightarrow> tenant_state" where
  "tenant_insert mcid protocol s =
     (let previous_protocol = (case bt_get (ts_metadata s) mcid of None \<Rightarrow> None | Some p \<Rightarrow> p);
          s = (if previous_protocol \<noteq> protocol
               then (case previous_protocol of None \<Rightarrow> s | Some previous \<Rightarrow> remove_protocol_cid previous mcid s)
               else s);
          s = s\<lparr>ts_global := bs_insert mcid (ts_global s)\<rparr>;
          s = (case protocol of
                 None \<Rightarrow> s
               | Some p \<Rightarrow> s\<lparr>ts_protocols := bt_insert p (bs_insert mcid (bt_get_or [] (ts_protocols s) p))
                                (ts_protocols s)\<rparr>)
      in s\<lparr>ts_metadata := bt_insert mcid protocol (ts_metadata s)\<rparr>)"

definition index_insert :: "string \<Rightarrow> string \<Rightarrow> key_values \<Rightarrow> state_index \<Rightarrow> state_index" where
  "index_insert tenant mcid indexes tenants =
     bt_insert tenant
       (tenant_insert mcid (protocol_index indexes) (bt_get_or tenant_state_default tenants tenant)) tenants"

definition tenant_delete :: "string \<Rightarrow> tenant_state \<Rightarrow> tenant_state" where
  "tenant_delete mcid s =
     (let removed = bt_get (ts_metadata s) mcid;
          s = s\<lparr>ts_global := bs_remove mcid (ts_global s), ts_metadata := bt_remove mcid (ts_metadata s)\<rparr>
      in case removed of Some (Some protocol) \<Rightarrow> remove_protocol_cid protocol mcid s | _ \<Rightarrow> s)"

definition index_delete :: "string \<Rightarrow> string list \<Rightarrow> state_index \<Rightarrow> state_index" where
  "index_delete tenant mcids tenants =
     (case bt_get tenants tenant of
        None \<Rightarrow> tenants
      | Some s \<Rightarrow> bt_insert tenant (foldl (\<lambda>s mcid. tenant_delete mcid s) s mcids) tenants)"

definition index_clear :: "state_index \<Rightarrow> state_index" where
  "index_clear tenants = []"

definition global_cids :: "state_index \<Rightarrow> string \<Rightarrow> string bset" where
  "global_cids tenants tenant = (case bt_get tenants tenant of None \<Rightarrow> [] | Some s \<Rightarrow> ts_global s)"

definition protocol_cids :: "state_index \<Rightarrow> string \<Rightarrow> string \<Rightarrow> string bset" where
  "protocol_cids tenants tenant protocol =
     (case Option.bind (bt_get tenants tenant) (\<lambda>s. bt_get (ts_protocols s) protocol) of
        None \<Rightarrow> [] | Some cids \<Rightarrow> cids)"

definition get_root :: "'x ext_scheme \<Rightarrow> string \<Rightarrow> state_index \<Rightarrow> state_hash option" where
  "get_root E tenant tenants = root_hash E (global_cids tenants tenant)"

definition get_protocol_root :: "'x ext_scheme \<Rightarrow> string \<Rightarrow> string \<Rightarrow> state_index \<Rightarrow> state_hash option" where
  "get_protocol_root E tenant protocol tenants = root_hash E (protocol_cids tenants tenant protocol)"

definition get_subtree_hash :: "'x ext_scheme \<Rightarrow> string \<Rightarrow> bool list \<Rightarrow> state_index \<Rightarrow> state_hash option" where
  "get_subtree_hash E tenant bits tenants = subtree_hash E (global_cids tenants tenant) bits"

definition get_protocol_subtree_hash ::
  "'x ext_scheme \<Rightarrow> string \<Rightarrow> string \<Rightarrow> bool list \<Rightarrow> state_index \<Rightarrow> state_hash option" where
  "get_protocol_subtree_hash E tenant protocol bits tenants =
     subtree_hash E (protocol_cids tenants tenant protocol) bits"

definition get_leaves :: "'x ext_scheme \<Rightarrow> string \<Rightarrow> bool list \<Rightarrow> state_index \<Rightarrow> string list option" where
  "get_leaves E tenant bits tenants = index_leaves E (global_cids tenants tenant) bits"

definition get_protocol_leaves ::
  "'x ext_scheme \<Rightarrow> string \<Rightarrow> string \<Rightarrow> bool list \<Rightarrow> state_index \<Rightarrow> string list option" where
  "get_protocol_leaves E tenant protocol bits tenants = index_leaves E (protocol_cids tenants tenant protocol) bits"

section \<open>Bits and prefixes\<close>

definition hash_bits :: "state_hash \<Rightarrow> bool list" where
  "hash_bits h = map (\<lambda>i. bit h (255 - i)) [0..<256]"

lemma length_hash_bits [simp]: "length (hash_bits h) = 256"
  by (simp add: hash_bits_def)

lemma nth_hash_bits: "i < 256 \<Longrightarrow> hash_bits h ! i = bit h (255 - i)"
  by (simp add: hash_bits_def)

lemma hash_bits_inject [simp]: "hash_bits g = hash_bits h \<longleftrightarrow> g = h"
proof
  assume eq: "hash_bits g = hash_bits h"
  show "g = h"
  proof (rule bit_word_eqI)
    fix n assume "n < LENGTH(256)"
    then have "hash_bits g ! (255 - n) = bit g n" "hash_bits h ! (255 - n) = bit h n"
      using nth_hash_bits [of "255 - n" g] nth_hash_bits [of "255 - n" h] by simp_all
    with eq show "bit g n = bit h n" by simp
  qed
qed simp

lemma get_bit_hash_bits: "get_bit h d = (if d < 256 then Some (hash_bits h ! d) else None)"
proof (cases "d < 256")
  case True
  obtain q r where d: "d = 8 * q + r" "r < 8" "q \<le> 31"
    using True that [of "d div 8" "d mod 8"] by fastforce
  obtain e where e: "r + e = 7" using d(2) that [of "7 - r"] by simp
  have "255 - d = 8 * (31 - q) + e" using d e by linarith
  moreover have "e < 8" using e by simp
  ultimately have idx: "31 - (255 - d) div 8 = d div 8" "(255 - d) mod 8 = 7 - d mod 8"
    using d e by simp_all
  have "bit (byte_at h (d div 8)) (7 - d mod 8) = bit h (255 - d)"
    using byte_at_bit [of "255 - d" h] unfolding idx by simp
  then show ?thesis
    using True by (simp add: get_bit_def Let_def nth_hash_bits flip: bit_iff_and_drop_bit_eq_1)
qed (simp add: get_bit_def Let_def div_less_iff_less_mult)

definition under :: "bool list \<Rightarrow> state_hash \<Rightarrow> bool" where
  "under bits h \<longleftrightarrow> take (length bits) (hash_bits h) = bits"

lemma under_Nil [simp]: "under [] h"
  by (simp add: under_def)

lemma matches_from_iff:
  "d + length bits \<le> 256 \<Longrightarrow>
     matches_from h d bits = Some (take (length bits) (drop d (hash_bits h)) = bits)"
proof (induction bits arbitrary: d)
  case (Cons b bits)
  then have "drop d (hash_bits h) = hash_bits h ! d # drop (Suc d) (hash_bits h)"
    by (simp add: Cons_nth_drop_Suc)
  with Cons show ?case by (auto simp: get_bit_hash_bits)
qed simp

lemma leaf_matches_prefix_iff: "length bits \<le> 256 \<Longrightarrow> leaf_matches_prefix h bits = Some (under bits h)"
  by (simp add: leaf_matches_prefix_def matches_from_iff under_def)

lemma filter_leaves_under:
  "length bits \<le> 256 \<Longrightarrow> filter_leaves bits ls = Some (filter (\<lambda>l. under bits (lf_key_hash l)) ls)"
  by (induction ls) (auto simp: leaf_matches_prefix_iff)

lemma under_snoc:
  assumes "length bits < 256"
  shows "under (bits @ [b]) h \<longleftrightarrow> under bits h \<and> hash_bits h ! length bits = b"
  using assms by (simp add: under_def take_Suc_conv_app_nth)

lemma under_all: "length bits = 256 \<Longrightarrow> under bits h \<longleftrightarrow> hash_bits h = bits"
  by (simp add: under_def)

section \<open>The tree\<close>

definition leaves_under :: "'x ext_scheme \<Rightarrow> string bset \<Rightarrow> bool list \<Rightarrow> leaf list" where
  "leaves_under E cids bits = filter (\<lambda>l. under bits (lf_key_hash l)) (make_leaves E cids)"

lemma subtree_hash_node:
  "length bits \<le> 256 \<Longrightarrow> subtree_hash E cids bits = node_hash E (leaves_under E cids bits) (length bits)"
  by (simp add: subtree_hash_def filter_leaves_under leaves_under_def)

lemma root_is_subtree: "root_hash E cids = subtree_hash E cids []"
  by (simp add: root_hash_def subtree_hash_node leaves_under_def)

lemma node_hash_total: "depth \<le> 256 \<Longrightarrow> \<exists>h. node_hash E leaves depth = Some h"
proof (induction E leaves depth rule: node_hash.induct)
  case (1 E leaves depth)
  show ?case
  proof (cases "leaves = [] \<or> length leaves = 1 \<or> smt_depth \<le> depth")
    case True
    then show ?thesis using 1(3) by (subst node_hash.simps) (auto simp: default_hashes_def smt_depth_def)
  next
    case False
    then obtain l r where
      "node_hash E (filter (\<lambda>l. get_bit (lf_key_hash l) depth \<noteq> Some True) leaves) (depth + 1) = Some l"
      "node_hash E (filter (\<lambda>l. get_bit (lf_key_hash l) depth = Some True) leaves) (depth + 1) = Some r"
      using 1(1,2) by (auto simp: smt_depth_def)
    with False show ?thesis by (subst node_hash.simps) simp
  qed
qed

lemma leaves_under_children:
  assumes "length bits < 256"
  shows "filter (\<lambda>l. get_bit (lf_key_hash l) (length bits) \<noteq> Some True) (leaves_under E cids bits)
      = leaves_under E cids (bits @ [False])"
    and "filter (\<lambda>l. get_bit (lf_key_hash l) (length bits) = Some True) (leaves_under E cids bits)
      = leaves_under E cids (bits @ [True])"
  using assms
  by (auto simp: leaves_under_def get_bit_hash_bits under_snoc conj_commute intro!: filter_cong)

lemma subtree_hash_step:
  assumes "length bits < 256" and "1 < length (leaves_under E cids bits)"
  obtains l r where "subtree_hash E cids (bits @ [False]) = Some l" "subtree_hash E cids (bits @ [True]) = Some r"
    "subtree_hash E cids bits = Some (hash_children E l r)"
proof -
  obtain l r where lr: "subtree_hash E cids (bits @ [False]) = Some l" "subtree_hash E cids (bits @ [True]) = Some r"
    using node_hash_total [of "Suc (length bits)" E "leaves_under E cids (bits @ [False])"]
      node_hash_total [of "Suc (length bits)" E "leaves_under E cids (bits @ [True])"] assms(1)
    by (auto simp: subtree_hash_node)
  have "subtree_hash E cids bits = node_hash E (leaves_under E cids bits) (length bits)"
    using assms(1) by (intro subtree_hash_node) simp
  also have "\<dots> = Some (hash_children E l r)"
    using assms lr leaves_under_children [OF assms(1), of E cids]
    by (subst node_hash.simps) (auto simp: smt_depth_def subtree_hash_node)
  finally show thesis using lr that by blast
qed

section \<open>Inputs that are hashed\<close>

lemma length_hash_bytes [simp]: "length (hash_bytes h) = 32"
  by (simp add: hash_bytes_def)

lemma hash_bytes_inject [simp]: "hash_bytes g = hash_bytes h \<longleftrightarrow> g = h"
proof
  assume "hash_bytes g = hash_bytes h"
  then have bytes: "byte_at g i = byte_at h i" if "i < 32" for i
    using that by (simp add: hash_bytes_def)
  show "g = h"
  proof (rule bit_word_eqI)
    fix n assume "n < LENGTH(256)"
    then show "bit g n = bit h n"
      using byte_at_bit [of n g] byte_at_bit [of n h] bytes [of "31 - n div 8"] by simp
  qed
qed simp

lemma of_char_inject_8: "(of_char c :: u8) = of_char d \<longleftrightarrow> c = d"
proof -
  have "unat (of_nat (of_char c) :: u8) = of_char c" for c
  proof -
    have "(of_char c :: nat) < 2 ^ 8" by (cases c) (simp add: of_char_def horner_sum_bound)
    then show ?thesis by (simp only: unat_of_nat) (simp add: take_bit_nat_eq_self)
  qed
  then show ?thesis by (metis of_char_eq_iff of_nat_of_char)
qed

lemma as_bytes_inject [simp]: "as_bytes s = as_bytes t \<longleftrightarrow> s = t"
  by (simp add: as_bytes_def inj_map_eq_map inj_def of_char_inject_8)

lemma children_input_inject [simp]:
  "children_input l r = children_input l' r' \<longleftrightarrow> l = l' \<and> r = r'"
  by (simp add: children_input_def)

lemma leaf_input_inject [simp]: "leaf_input k c = leaf_input k' c' \<longleftrightarrow> k = k' \<and> c = c'"
  by (simp add: leaf_input_def)

lemma leaf_input_not_children: "length c \<noteq> 31 \<Longrightarrow> leaf_input k c \<noteq> children_input l r"
  by (auto simp: leaf_input_def children_input_def as_bytes_def dest!: arg_cong [of _ _ length])

text \<open>Everything that is hashed to compute the hash of a subtree.\<close>

function subtree_inputs :: "'x ext_scheme \<Rightarrow> string bset \<Rightarrow> bool list \<Rightarrow> u8 list list" where
  "subtree_inputs E cids bits =
     (let leaves = leaves_under E cids bits in
      if leaves = [] then map (\<lambda>n. children_input (default_above E n) (default_above E n)) [0..<256 - length bits]
      else if length leaves = 1 \<or> 256 \<le> length bits
        then [leaf_input (lf_key_hash (hd leaves)) (lf_value_cid (hd leaves))]
      else children_input (the (subtree_hash E cids (bits @ [False]))) (the (subtree_hash E cids (bits @ [True])))
        # subtree_inputs E cids (bits @ [False]) @ subtree_inputs E cids (bits @ [True]))"
  by pat_completeness auto
termination
  by (relation "measure (\<lambda>(_, _, bits). 256 - length bits)") auto

declare subtree_inputs.simps [simp del]

definition root_inputs :: "'x ext_scheme \<Rightarrow> string bset \<Rightarrow> u8 list list" where
  "root_inputs E cids = map as_bytes cids @ subtree_inputs E cids []"

text \<open>
  No two of the inputs collide and none hashes to the all-zero placeholder of an empty leaf.
\<close>

definition collision_free :: "'x ext_scheme \<Rightarrow> u8 list set \<Rightarrow> bool" where
  "collision_free E S \<longleftrightarrow> inj_on (sha256 E) S \<and> 0 \<notin> sha256 E ` S"

lemma make_leaves_mem:
  "l \<in> set (make_leaves E cids) \<longleftrightarrow>
     (\<exists>c \<in> set cids. l = \<lparr>lf_key_hash = hash_key E c, lf_leaf_hash = hash_leaf E (hash_key E c) c, lf_value_cid = c\<rparr>)"
  by (auto simp: make_leaves_def Let_def)

lemma leaf_under_fields:
  assumes "l \<in> set (leaves_under E cids bits)"
  shows "lf_value_cid l \<in> set cids" and "lf_key_hash l = hash_key E (lf_value_cid l)"
    and "lf_leaf_hash l = sha256 E (leaf_input (lf_key_hash l) (lf_value_cid l))"
    and "under bits (lf_key_hash l)"
  using assms by (auto simp: leaves_under_def make_leaves_mem hash_leaf_def)

lemma leaves_under_split:
  "length bits < 256 \<Longrightarrow> set (leaves_under E cids bits)
     = set (leaves_under E cids (bits @ [False])) \<union> set (leaves_under E cids (bits @ [True]))"
  by (auto simp: leaves_under_def under_snoc)

lemma subtree_single:
  assumes "length bits \<le> 256" and "leaves_under E cids bits = [l]"
  shows "subtree_hash E cids bits = Some (sha256 E (leaf_input (lf_key_hash l) (lf_value_cid l)))"
    and "leaf_input (lf_key_hash l) (lf_value_cid l) \<in> set (subtree_inputs E cids bits)"
proof -
  have "l \<in> set (leaves_under E cids bits)" using assms(2) by simp
  note leaf = leaf_under_fields [OF this]
  show "subtree_hash E cids bits = Some (sha256 E (leaf_input (lf_key_hash l) (lf_value_cid l)))"
    using assms by (simp add: subtree_hash_node node_hash.simps [of E "[l]"] leaf(3))
  show "leaf_input (lf_key_hash l) (lf_value_cid l) \<in> set (subtree_inputs E cids bits)"
    using assms(2) by (subst subtree_inputs.simps) simp
qed

lemma subtree_inner:
  assumes "length bits < 256" and "length (leaves_under E cids bits) \<noteq> 1"
  shows "\<exists>l r. subtree_hash E cids (bits @ [False]) = Some l \<and> subtree_hash E cids (bits @ [True]) = Some r
    \<and> subtree_hash E cids bits = Some (sha256 E (children_input l r))
    \<and> children_input l r \<in> set (subtree_inputs E cids bits)
    \<and> (\<forall>b. set (subtree_inputs E cids (bits @ [b])) \<subseteq> set (subtree_inputs E cids bits))"
proof (cases "leaves_under E cids bits = []")
  case True
  let ?n = "256 - Suc (length bits)"
  have n: "256 - length bits = Suc ?n" using assms(1) by simp
  have empty: "leaves_under E cids (bits @ [b]) = []" for b
    using leaves_under_split [OF assms(1), of E cids] True by (cases b) auto
  have "subtree_hash E cids (bits @ [b]) = Some (default_above E ?n)" for b
    using assms(1) empty [of b] by (simp add: subtree_hash_node node_hash.simps default_hashes_def smt_depth_def)
  moreover have "subtree_hash E cids bits = Some (default_above E (256 - length bits))"
    using assms(1) True by (simp add: subtree_hash_node node_hash.simps default_hashes_def smt_depth_def)
  then have "subtree_hash E cids bits = Some (sha256 E (children_input (default_above E ?n) (default_above E ?n)))"
    unfolding n by (simp add: hash_children_def)
  moreover have "children_input (default_above E ?n) (default_above E ?n) \<in> set (subtree_inputs E cids bits)"
    using True n by (subst subtree_inputs.simps) auto
  moreover have "set (subtree_inputs E cids (bits @ [b])) \<subseteq> set (subtree_inputs E cids bits)" for b
    using True empty [of b] n by (subst (1 2) subtree_inputs.simps) auto
  ultimately show ?thesis by blast
next
  case False
  with assms(2) have many: "1 < length (leaves_under E cids bits)"
    by (cases "leaves_under E cids bits") auto
  from subtree_hash_step [OF assms(1) this] obtain l r where lr:
    "subtree_hash E cids (bits @ [False]) = Some l" "subtree_hash E cids (bits @ [True]) = Some r"
    "subtree_hash E cids bits = Some (hash_children E l r)" by blast
  have "subtree_inputs E cids bits
      = children_input l r # subtree_inputs E cids (bits @ [False]) @ subtree_inputs E cids (bits @ [True])"
    using False many assms(1) lr by (subst subtree_inputs.simps) (simp add: Let_def)
  then have "children_input l r \<in> set (subtree_inputs E cids bits)"
    "set (subtree_inputs E cids (bits @ [b])) \<subseteq> set (subtree_inputs E cids bits)" for b
    by (cases b; auto)+
  with lr show ?thesis by (auto simp: hash_children_def)
qed

lemma collision_freeD:
  assumes "collision_free E S"
  shows "\<lbrakk>sha256 E x = sha256 E y; x \<in> S; y \<in> S\<rbrakk> \<Longrightarrow> x = y" and "x \<in> S \<Longrightarrow> sha256 E x \<noteq> 0"
  using assms by (auto simp: collision_free_def dest: inj_onD)

lemma single_leaves_equal:
  assumes "collision_free E S" and "length bits \<le> 256"
    and "subtree_hash E A bits = subtree_hash E B bits"
    and "set (subtree_inputs E A bits) \<subseteq> S" and "set (subtree_inputs E B bits) \<subseteq> S"
    and "leaves_under E A bits = [l]" and "leaves_under E B bits = [m]"
  shows "l = m"
proof -
  have "leaf_input (lf_key_hash l) (lf_value_cid l) = leaf_input (lf_key_hash m) (lf_value_cid m)"
    using subtree_single [OF assms(2,6)] subtree_single [OF assms(2,7)] assms(3-5)
    by (intro collision_freeD(1) [OF assms(1)]) auto
  moreover have "l \<in> set (leaves_under E A bits)" "m \<in> set (leaves_under E B bits)"
    using assms(6,7) by simp_all
  ultimately show ?thesis
    using leaf_under_fields(3) [of l E A bits] leaf_under_fields(3) [of m E B bits]
    by (auto intro: leaf.equality)
qed

lemma single_not_inner:
  assumes "collision_free E S" and "length bits < 256"
    and "subtree_hash E A bits = subtree_hash E B bits"
    and "set (subtree_inputs E A bits) \<subseteq> S" and "set (subtree_inputs E B bits) \<subseteq> S"
    and "leaves_under E A bits = [m]" and "length (lf_value_cid m) \<noteq> 31"
  shows "length (leaves_under E B bits) = 1"
proof (rule ccontr)
  assume "length (leaves_under E B bits) \<noteq> 1"
  from subtree_inner [OF assms(2) this]
  obtain l r where B: "subtree_hash E B bits = Some (sha256 E (children_input l r))"
      "children_input l r \<in> set (subtree_inputs E B bits)" by blast
  have "leaf_input (lf_key_hash m) (lf_value_cid m) = children_input l r"
    using subtree_single [OF less_imp_le [OF assms(2)] assms(6)] B assms(3-5)
    by (intro collision_freeD(1) [OF assms(1)]) auto
  with leaf_input_not_children [OF assms(7)] show False by blast
qed

lemma distinct_constant_short:
  assumes "distinct (map f xs)" and "\<And>x y. \<lbrakk>x \<in> set xs; y \<in> set xs\<rbrakk> \<Longrightarrow> f x = f y"
  shows "xs = [] \<or> (\<exists>x. xs = [x])"
proof (rule ccontr)
  assume "\<not> ?thesis"
  then obtain x y zs where "xs = x # y # zs" by (metis list.exhaust)
  with assms(1) assms(2) [of x y] show False by simp
qed

lemma at_most_one_leaf:
  assumes "collision_free E S" and "\<forall>c \<in> set C. as_bytes c \<in> S" and "length bits = 256" and "distinct C"
  shows "leaves_under E C bits = [] \<or> (\<exists>l. leaves_under E C bits = [l])"
proof -
  have same: "lf_value_cid l = lf_value_cid m"
    if lm: "l \<in> set (leaves_under E C bits)" "m \<in> set (leaves_under E C bits)" for l m
  proof -
    have "hash_bits (lf_key_hash l) = bits" "hash_bits (lf_key_hash m) = bits"
      using leaf_under_fields(4) [OF lm(1)] leaf_under_fields(4) [OF lm(2)]
      unfolding under_all [OF assms(3)] .
    then have "hash_bits (lf_key_hash l) = hash_bits (lf_key_hash m)" by (rule trans [OF _ sym])
    then have "hash_key E (lf_value_cid l) = hash_key E (lf_value_cid m)"
      unfolding hash_bits_inject leaf_under_fields(2) [OF lm(1)] leaf_under_fields(2) [OF lm(2)] .
    then have "as_bytes (lf_value_cid l) = as_bytes (lf_value_cid m)"
      unfolding hash_key_def
      by (rule collision_freeD(1) [OF assms(1)])
         (use assms(2) leaf_under_fields(1) [OF lm(1)] leaf_under_fields(1) [OF lm(2)] in blast)+
    then show ?thesis by simp
  qed
  have "map lf_value_cid (make_leaves E C) = C" by (simp add: make_leaves_def Let_def comp_def)
  then have "distinct (map lf_value_cid (leaves_under E C bits))"
    using assms(4) by (simp add: leaves_under_def distinct_map_filter)
  then show ?thesis using same by (rule distinct_constant_short)
qed

lemma bottom_equal:
  assumes "collision_free E S" and "length bits = 256"
    and "subtree_hash E A bits = subtree_hash E B bits"
    and "set (subtree_inputs E A bits) \<subseteq> S" and "set (subtree_inputs E B bits) \<subseteq> S"
    and "leaves_under E A bits = [] \<or> (\<exists>l. leaves_under E A bits = [l])"
    and "leaves_under E B bits = [] \<or> (\<exists>l. leaves_under E B bits = [l])"
  shows "leaves_under E A bits = leaves_under E B bits"
proof -
  have le: "length bits \<le> 256" using assms(2) by simp
  have zero: "subtree_hash E C bits = Some 0" if "leaves_under E C bits = []" for C
    using that assms(2) by (simp add: subtree_hash_node node_hash.simps default_hashes_def smt_depth_def)
  have nonzero: "subtree_hash E C bits \<noteq> Some 0"
    if C: "leaves_under E C bits = [l]" "set (subtree_inputs E C bits) \<subseteq> S" for C l
    using subtree_single [OF le C(1)] C(2) collision_freeD(2) [OF assms(1)] by auto
  show ?thesis
    using assms(6,7) zero nonzero [OF _ assms(4)] nonzero [OF _ assms(5)] assms(3)
      single_leaves_equal [OF assms(1) le assms(3-5)] by metis
qed

lemma subtree_equal:
  assumes "collision_free E S" and "\<forall>c \<in> set A \<union> set B. length c \<noteq> 31 \<and> as_bytes c \<in> S"
    and "distinct A" and "distinct B"
    and "length bits \<le> 256" and "subtree_hash E A bits = subtree_hash E B bits"
    and "set (subtree_inputs E A bits) \<subseteq> S" and "set (subtree_inputs E B bits) \<subseteq> S"
  shows "set (leaves_under E A bits) = set (leaves_under E B bits)"
  using assms(5-8)
proof (induction "256 - length bits" arbitrary: bits)
  case 0
  then have len: "length bits = 256" by simp
  then show ?case
    using bottom_equal [OF assms(1) len 0(3-5)] at_most_one_leaf [OF assms(1) _ len assms(3)]
      at_most_one_leaf [OF assms(1) _ len assms(4)] assms(2) by auto
next
  case (Suc n)
  then have len: "length bits < 256" by simp
  show ?case
  proof (cases "length (leaves_under E A bits) = 1 \<or> length (leaves_under E B bits) = 1")
    case False
    then have ne: "length (leaves_under E A bits) \<noteq> 1" "length (leaves_under E B bits) \<noteq> 1" by auto
    obtain l r where A: "subtree_hash E A (bits @ [False]) = Some l" "subtree_hash E A (bits @ [True]) = Some r"
        "subtree_hash E A bits = Some (sha256 E (children_input l r))"
        "children_input l r \<in> set (subtree_inputs E A bits)"
        "\<forall>b. set (subtree_inputs E A (bits @ [b])) \<subseteq> set (subtree_inputs E A bits)"
      using subtree_inner [OF len ne(1)] by blast
    obtain l' r' where B: "subtree_hash E B (bits @ [False]) = Some l'"
        "subtree_hash E B (bits @ [True]) = Some r'"
        "subtree_hash E B bits = Some (sha256 E (children_input l' r'))"
        "children_input l' r' \<in> set (subtree_inputs E B bits)"
        "\<forall>b. set (subtree_inputs E B (bits @ [b])) \<subseteq> set (subtree_inputs E B bits)"
      using subtree_inner [OF len ne(2)] by blast
    have "children_input l r = children_input l' r'"
      using Suc.prems(2-4) A(3,4) B(3,4) by (intro collision_freeD(1) [OF assms(1)]) auto
    then have "subtree_hash E A (bits @ [b]) = subtree_hash E B (bits @ [b])" for b
      using A(1,2) B(1,2) by (cases b) simp_all
    then have "set (leaves_under E A (bits @ [b])) = set (leaves_under E B (bits @ [b]))" for b
      using Suc.hyps(1) [of "bits @ [b]"] Suc.hyps(2) len A(5) [rule_format, of b] B(5) [rule_format, of b]
        Suc.prems(3,4) by auto
    then show ?thesis by (simp add: leaves_under_split [OF len])
  next
    case True
    have long: "length (lf_value_cid m) \<noteq> 31" if "m \<in> set (leaves_under E A bits) \<union> set (leaves_under E B bits)" for m
      using that assms(2) leaf_under_fields(1) [of m] by blast
    obtain l m where "leaves_under E A bits = [l]" "leaves_under E B bits = [m]"
      using True single_not_inner [OF assms(1) len Suc.prems(2-4)] long
        single_not_inner [OF assms(1) len Suc.prems(2) [symmetric] Suc.prems(4,3)]
      by (auto simp: length_Suc_conv)
    with single_leaves_equal [OF assms(1) Suc.prems] show ?thesis by simp
  qed
qed

section \<open>Membership\<close>

text \<open>
  What the index promises its clients: which CIDs it holds, overall and per group, after each
  operation. A client that applies a sequence of operations ends with a membership that the last
  operation on each CID determines.
\<close>

datatype ('c, 'g) index_op = Put 'c "'g option" | Drop 'c

fun op_cid :: "('c, 'g) index_op \<Rightarrow> 'c" where
  "op_cid (Put c _) = c"
| "op_cid (Drop c) = c"

fun last_op :: "'c \<Rightarrow> ('c, 'g) index_op list \<Rightarrow> ('c, 'g) index_op option" where
  "last_op c [] = None"
| "last_op c (x # xs) =
     (case last_op c xs of None \<Rightarrow> if op_cid x = c then Some x else None | Some y \<Rightarrow> Some y)"

locale cid_index =
  fixes put :: "'c \<Rightarrow> 'g option \<Rightarrow> 's \<Rightarrow> 's"
    and drop_cid :: "'c \<Rightarrow> 's \<Rightarrow> 's"
    and members :: "'s \<Rightarrow> 'c set"
    and group_members :: "'s \<Rightarrow> 'g \<Rightarrow> 'c set"
    and ok :: "'s \<Rightarrow> bool"
  assumes put_ok: "ok s \<Longrightarrow> ok (put c g s)"
    and drop_ok: "ok s \<Longrightarrow> ok (drop_cid c s)"
    and put_members: "ok s \<Longrightarrow> members (put c g s) = insert c (members s)"
    and drop_members: "ok s \<Longrightarrow> members (drop_cid c s) = members s - {c}"
    and put_groups: "ok s \<Longrightarrow>
      group_members (put c g s) k = (group_members s k - {c}) \<union> (if g = Some k then {c} else {})"
    and drop_groups: "ok s \<Longrightarrow> group_members (drop_cid c s) k = group_members s k - {c}"
begin

fun apply_op :: "('c, 'g) index_op \<Rightarrow> 's \<Rightarrow> 's" where
  "apply_op (Put c g) s = put c g s"
| "apply_op (Drop c) s = drop_cid c s"

lemma apply_ok: "ok s \<Longrightarrow> ok (apply_op x s)"
  by (cases x) (auto simp: put_ok drop_ok)

lemma fold_ok: "ok s \<Longrightarrow> ok (fold apply_op xs s)"
  by (induction xs arbitrary: s) (auto simp: apply_ok)

lemma fold_members:
  "ok s \<Longrightarrow> c \<in> members (fold apply_op xs s) \<longleftrightarrow>
     (case last_op c xs of None \<Rightarrow> c \<in> members s | Some (Put _ _) \<Rightarrow> True | Some (Drop _) \<Rightarrow> False)"
proof (induction xs arbitrary: s)
  case (Cons x xs)
  show ?case
    using Cons.IH [OF apply_ok [OF Cons.prems, of x]] Cons.prems
    by (cases x) (auto simp: put_members drop_members split: option.splits index_op.splits)
qed simp

lemma fold_groups:
  "ok s \<Longrightarrow> c \<in> group_members (fold apply_op xs s) k \<longleftrightarrow>
     (case last_op c xs of None \<Rightarrow> c \<in> group_members s k | Some (Put _ g) \<Rightarrow> g = Some k | Some (Drop _) \<Rightarrow> False)"
proof (induction xs arbitrary: s)
  case (Cons x xs)
  show ?case
    using Cons.IH [OF apply_ok [OF Cons.prems, of x]] Cons.prems
    by (cases x) (auto simp: put_groups drop_groups split: option.splits index_op.splits if_splits)
qed simp

lemma same_last_ops:
  assumes "ok s" and "\<And>c. last_op c xs = last_op c ys"
  shows "members (fold apply_op xs s) = members (fold apply_op ys s)"
    and "group_members (fold apply_op xs s) k = group_members (fold apply_op ys s) k"
  using fold_members [OF assms(1)] fold_groups [OF assms(1)] assms(2) by (auto intro: set_eqI)

end

definition tenant_ok :: "tenant_state \<Rightarrow> bool" where
  "tenant_ok s \<longleftrightarrow>
     bs_sorted (ts_global s) \<and> set (ts_global s) = {c. bt_get (ts_metadata s) c \<noteq> None}
     \<and> (\<forall>p. bs_sorted (bt_get_or [] (ts_protocols s) p)
          \<and> set (bt_get_or [] (ts_protocols s) p) = {c. bt_get (ts_metadata s) c = Some (Some p)})"

abbreviation protocol_members :: "tenant_state \<Rightarrow> string \<Rightarrow> string bset" where
  "protocol_members s p \<equiv> bt_get_or [] (ts_protocols s) p"

lemma remove_protocol_cid_simps [simp]:
  "ts_global (remove_protocol_cid p c s) = ts_global s"
  "ts_metadata (remove_protocol_cid p c s) = ts_metadata s"
  "protocol_members (remove_protocol_cid p c s) q =
     (if q = p then bs_remove c (protocol_members s p) else protocol_members s q)"
  by (auto simp: remove_protocol_cid_def bt_get_or_def bt_get_insert bs_remove_def split: option.splits)

lemma tenant_insert_simps:
  "ts_global (tenant_insert c g s) = bs_insert c (ts_global s)"
  "ts_metadata (tenant_insert c g s) = bt_insert c g (ts_metadata s)"
  "protocol_members (tenant_insert c g s) p =
     (let old = (case bt_get (ts_metadata s) c of None \<Rightarrow> None | Some q \<Rightarrow> q);
          kept = (if old \<noteq> g \<and> old = Some p then bs_remove c (protocol_members s p) else protocol_members s p)
      in if g = Some p then bs_insert c kept else kept)"
  by (auto simp: tenant_insert_def Let_def bt_get_or_def bt_get_insert remove_protocol_cid_def bs_remove_def
      split: option.splits)

lemma tenant_delete_simps:
  "ts_global (tenant_delete c s) = bs_remove c (ts_global s)"
  "ts_metadata (tenant_delete c s) = bt_remove c (ts_metadata s)"
  "protocol_members (tenant_delete c s) p =
     (if bt_get (ts_metadata s) c = Some (Some p) then bs_remove c (protocol_members s p) else protocol_members s p)"
  by (auto simp: tenant_delete_def Let_def bt_get_or_def bt_get_insert remove_protocol_cid_def bs_remove_def
      split: option.splits)

lemma tenant_ok_default [simp]: "tenant_ok tenant_state_default"
  by (simp add: tenant_ok_def tenant_state_default_def bt_get_or_def)

interpretation tenant: cid_index tenant_insert tenant_delete "\<lambda>s. set (ts_global s)"
  "\<lambda>s p. set (protocol_members s p)" tenant_ok
proof unfold_locales
  fix s c g k assume ok: "tenant_ok s"
  have old: "bt_get (ts_metadata s) c = Some (Some p) \<longleftrightarrow> c \<in> set (protocol_members s p)" for p
    using ok by (simp add: tenant_ok_def)
  show "set (protocol_members (tenant_insert c g s) k)
      = (set (protocol_members s k) - {c}) \<union> (if g = Some k then {c} else {})"
    using old by (auto simp: tenant_insert_simps Let_def split: option.splits if_splits)
  show "set (protocol_members (tenant_delete c s) k) = set (protocol_members s k) - {c}"
    using old [of k] by (auto simp: tenant_delete_simps)
  show "tenant_ok (tenant_insert c g s)"
    using ok old unfolding tenant_ok_def
    by (auto simp: tenant_insert_simps Let_def bt_get_insert split: option.splits if_splits)
  show "tenant_ok (tenant_delete c s)"
    using ok unfolding tenant_ok_def by (auto simp: tenant_delete_simps bt_get_remove)
qed (simp_all add: tenant_insert_simps tenant_delete_simps)

section \<open>Requests\<close>

datatype index_request = IndexInsert string key_values | IndexDelete "string list"

fun serve :: "string \<Rightarrow> index_request \<Rightarrow> state_index \<Rightarrow> state_index" where
  "serve tenant (IndexInsert c indexes) idx = index_insert tenant c indexes idx"
| "serve tenant (IndexDelete cs) idx = index_delete tenant cs idx"

fun request_ops :: "index_request \<Rightarrow> (string, string) index_op list" where
  "request_ops (IndexInsert c indexes) = [Put c (protocol_index indexes)]"
| "request_ops (IndexDelete cs) = map Drop cs"

abbreviation tenant_of :: "state_index \<Rightarrow> string \<Rightarrow> tenant_state" where
  "tenant_of idx t \<equiv> bt_get_or tenant_state_default idx t"

lemma index_cids:
  "global_cids idx t = ts_global (tenant_of idx t)"
  "protocol_cids idx t p = protocol_members (tenant_of idx t) p"
  by (auto simp: global_cids_def protocol_cids_def bt_get_or_def tenant_state_default_def split: option.splits)

lemma delete_default: "tenant_delete c tenant_state_default = tenant_state_default"
  by (simp add: tenant_delete_def tenant_state_default_def bs_remove_def bt_remove_def)

lemma drops_default: "fold tenant.apply_op (map Drop cs) tenant_state_default = tenant_state_default"
  by (induction cs) (simp_all add: delete_default)

lemma foldl_delete: "foldl (\<lambda>s c. tenant_delete c s) s cs = fold tenant.apply_op (map Drop cs) s"
  by (induction cs arbitrary: s) simp_all

lemma serve_tenant: "tenant_of (serve t r idx) t = fold tenant.apply_op (request_ops r) (tenant_of idx t)"
  by (cases r) (auto simp: index_insert_def index_delete_def bt_get_or_def bt_get_insert foldl_delete
      drops_default split: option.splits)

lemma serve_all_tenant:
  "tenant_of (fold (serve t) rs idx) t = fold tenant.apply_op (concat (map request_ops rs)) (tenant_of idx t)"
  by (induction rs arbitrary: idx) (simp_all add: serve_tenant)

lemma served_ok: "tenant_ok (tenant_of (fold (serve t) rs []) t)"
  unfolding serve_all_tenant by (rule tenant.fold_ok) (simp add: bt_get_or_def)

lemma filter_make_leaves:
  "map lf_value_cid (leaves_under E cids bits) = filter (\<lambda>c. under bits (hash_key E c)) cids"
  by (induction cids) (simp_all add: leaves_under_def make_leaves_def Let_def)

lemma long_prefix_unmatched:
  "\<lbrakk>d \<le> 256; 256 < d + length bits\<rbrakk> \<Longrightarrow> matches_from h d bits \<noteq> Some True"
  by (induction bits arbitrary: d) (auto simp: get_bit_hash_bits)

lemma long_prefix_filter:
  "256 < length bits \<Longrightarrow> filter_leaves bits ls = None \<or> filter_leaves bits ls = Some []"
  using long_prefix_unmatched [of 0 bits]
  by (induction ls) (auto simp: leaf_matches_prefix_def split: option.splits)

section \<open>Properties\<close>

text \<open>
  C29: the index holds what the last request on each message says. After any sequence of inserts
  and deletes for a tenant, a CID is in the tenant's set iff the last request that mentions it was
  an insert, and in the set of a protocol iff that insert carried this protocol; the sets are
  kept sorted and without duplicates.
\<close>

theorem state_index_tracks_last_request:
  "(c \<in> set (global_cids (fold (serve t) rs []) t) \<longleftrightarrow>
      (\<exists>g. last_op c (concat (map request_ops rs)) = Some (Put c g)))
   \<and> (c \<in> set (protocol_cids (fold (serve t) rs []) t p) \<longleftrightarrow>
      last_op c (concat (map request_ops rs)) = Some (Put c (Some p)))
   \<and> bs_sorted (global_cids (fold (serve t) rs []) t) \<and> bs_sorted (protocol_cids (fold (serve t) rs []) t p)"
proof -
  let ?ops = "concat (map request_ops rs)" and ?init = "tenant_of [] t"
  have init: "ts_global ?init = []" "protocol_members ?init p = []" and ok: "tenant_ok ?init"
    by (simp_all add: bt_get_or_def) (simp_all add: tenant_state_default_def)
  have cid: "op_cid y = c" if "last_op c xs = Some y" for xs :: "(string, string) index_op list" and y
    using that by (induction xs) (auto split: option.splits if_splits)
  have "c \<in> set (global_cids (fold (serve t) rs []) t) \<longleftrightarrow> (\<exists>g. last_op c ?ops = Some (Put c g))"
    using cid [of ?ops] unfolding index_cids serve_all_tenant tenant.fold_members [OF ok] init
    by (auto split: option.splits index_op.splits)
  moreover have "c \<in> set (protocol_cids (fold (serve t) rs []) t p) \<longleftrightarrow> last_op c ?ops = Some (Put c (Some p))"
    using cid [of ?ops] unfolding index_cids serve_all_tenant tenant.fold_groups [OF ok] init
    by (auto split: option.splits index_op.splits)
  ultimately show ?thesis
    using served_ok [of t rs] by (simp add: index_cids tenant_ok_def)
qed

text \<open>
  C30: equal roots mean equal contents. Take the indexes of a tenant on two nodes, each after any
  requests. If no two of the byte strings hashed for the two trees collide, none hashes to the
  all-zero placeholder, and no CID is 31 characters long (the length at which the input of a leaf
  could pass for that of an inner node; CIDs of messages have 59), then the two roots are equal iff
  the two nodes hold the same messages.
\<close>

theorem equal_roots_equal_contents:
  assumes "A = global_cids (fold (serve t) rs []) t" and "B = global_cids (fold (serve t) rs' []) t"
    and "collision_free E (set (root_inputs E A) \<union> set (root_inputs E B))"
    and "\<forall>c \<in> set A \<union> set B. length c \<noteq> 31"
  shows "get_root E t (fold (serve t) rs []) = get_root E t (fold (serve t) rs' []) \<longleftrightarrow> set A = set B"
proof
  have sorted: "bs_sorted A" "bs_sorted B"
    using served_ok [of t] by (simp_all add: assms(1,2) index_cids tenant_ok_def)
  have all: "lf_value_cid ` set (leaves_under E C []) = set C" for C
    using filter_make_leaves [of E C "[]"] by (simp flip: set_map)
  assume "get_root E t (fold (serve t) rs []) = get_root E t (fold (serve t) rs' [])"
  then have "subtree_hash E A [] = subtree_hash E B []"
    by (simp add: get_root_def assms(1,2) root_is_subtree)
  then have "set (leaves_under E A []) = set (leaves_under E B [])"
    using assms(4) sorted
    by (intro subtree_equal [OF assms(3)]) (auto simp: root_inputs_def bs_sorted_def)
  then show "set A = set B" using all by metis
next
  assume "set A = set B"
  then have "A = B"
    using served_ok [of t] by (intro bs_sorted_unique) (simp_all add: assms(1,2) index_cids tenant_ok_def)
  then show "get_root E t (fold (serve t) rs []) = get_root E t (fold (serve t) rs' [])"
    by (simp add: get_root_def assms(1,2))
qed

definition sample_ext :: ext where
  "sample_ext = plain_ext\<lparr>sha256 := (\<lambda>bs. of_nat (length bs) * 256 + (if bs = [] then 0 else ucast (last bs)))\<rparr>"

theorem equal_roots_equal_contents_witness:
  "get_root sample_ext ''t'' (fold (serve ''t'') [IndexInsert ''a'' []] [])
     \<noteq> get_root sample_ext ''t'' (fold (serve ''t'') [IndexInsert ''a'' [], IndexDelete [''a''], IndexInsert ''b'' []] [])"
proof -
  have A: "global_cids (fold (serve ''t'') [IndexInsert ''a'' []] []) ''t'' = [''a'']"
    and B: "global_cids (fold (serve ''t'') [IndexInsert ''a'' [], IndexDelete [''a''], IndexInsert ''b'' []] []) ''t'' = [''b'']"
    by code_simp+
  have single: "root_inputs sample_ext [c] = [as_bytes c, leaf_input (hash_key sample_ext c) c]" for c
    by (simp add: root_inputs_def subtree_inputs.simps leaves_under_def make_leaves_def Let_def)
  have hash: "sha256 sample_ext bs = of_nat (length bs) * 256 + (if bs = [] then 0 else ucast (last bs))" for bs
    by (simp add: sample_ext_def plain_ext_def)
  have "collision_free sample_ext (set (root_inputs sample_ext [''a'']) \<union> set (root_inputs sample_ext [''b'']))"
    unfolding collision_free_def single
    by (simp add: inj_on_def hash leaf_input_def as_bytes_def)
  then show ?thesis
    using equal_roots_equal_contents [OF A [symmetric] B [symmetric], of sample_ext] by simp
qed

text \<open>
  Subtree hashes compose, which is what lets two nodes find their differences by descending.
  Asking for a prefix of more than 256 bits panics and every other request succeeds. Above the
  bottom, a prefix with no messages has the default hash of its depth, a prefix with one message
  has the hash of that leaf, and any other prefix hashes its two extensions.
\<close>

theorem subtree_hash_composes:
  "(subtree_hash E cids bits = None \<longleftrightarrow> 256 < length bits)
   \<and> (length bits < 256 \<longrightarrow>
       subtree_hash E cids bits =
         (case filter (\<lambda>c. under bits (hash_key E c)) cids of
            [] \<Rightarrow> Some (default_above E (256 - length bits))
          | [c] \<Rightarrow> Some (hash_leaf E (hash_key E c) c)
          | _ \<Rightarrow> Some (hash_children E (the (subtree_hash E cids (bits @ [False])))
                       (the (subtree_hash E cids (bits @ [True]))))))"
proof (intro conjI impI)
  show "subtree_hash E cids bits = None \<longleftrightarrow> 256 < length bits"
  proof (cases "length bits \<le> 256")
    case True
    then show ?thesis
      using node_hash_total [of "length bits" E "leaves_under E cids bits"] by (auto simp: subtree_hash_node)
  next
    case False
    then show ?thesis
      using long_prefix_filter [of bits "make_leaves E cids"]
      by (auto simp: subtree_hash_def node_hash.simps [of E "[]"] default_hashes_def smt_depth_def)
  qed
next
  assume len: "length bits < 256"
  note cids = filter_make_leaves [of E cids bits, symmetric]
  show "subtree_hash E cids bits =
         (case filter (\<lambda>c. under bits (hash_key E c)) cids of
            [] \<Rightarrow> Some (default_above E (256 - length bits))
          | [c] \<Rightarrow> Some (hash_leaf E (hash_key E c) c)
          | _ \<Rightarrow> Some (hash_children E (the (subtree_hash E cids (bits @ [False])))
                       (the (subtree_hash E cids (bits @ [True])))))"
  proof (cases "leaves_under E cids bits" rule: remdups_adj.cases)
    case 1
    with len show ?thesis
      by (simp add: cids subtree_hash_node node_hash.simps [of E "[]"] default_hashes_def smt_depth_def)
  next
    case (2 l)
    then have "l \<in> set (leaves_under E cids bits)" by simp
    from leaf_under_fields [OF this] show ?thesis
      using subtree_single(1) [OF less_imp_le [OF len] 2] 2 by (simp add: cids hash_leaf_def)
  next
    case (3 l m ls)
    then have "1 < length (leaves_under E cids bits)" by simp
    from subtree_hash_step [OF len this] obtain l' r' where
      "subtree_hash E cids (bits @ [False]) = Some l'" "subtree_hash E cids (bits @ [True]) = Some r'"
      "subtree_hash E cids bits = Some (hash_children E l' r')" by blast
    with 3 show ?thesis by (simp add: cids)
  qed
qed

theorem subtree_hash_composes_witness:
  "subtree_hash plain_ext [''a''] [] = Some (hash_leaf plain_ext (hash_key plain_ext ''a'') ''a'')"
  using subtree_hash_composes [of plain_ext "[''a'']" "[]"] by simp

end
