(* ===== verification/Serde.thy ===== *)
theory Serde
  imports Values
begin

text \<open>
  The readers that \<open>#[derive(Deserialize)]\<close> generates, over JSON values. A struct is read from an object,
  where a repeated known field is refused and an unknown one is refused or skipped as the struct
  says, or from an array with one element per field in the order of declaration. An optional field
  may be absent or null. A unit variant is its name, or an object with the name as only key and
  null as value. When an input has several faults, the derived reader reports the first one in
  the text; which of them is reported is not modelled.
\<close>

datatype de_error =
    UnknownField string
  | DuplicateField string
  | MissingField string
  | InvalidType
  | InvalidLength nat
  | UnknownVariant string
  | DeCustom string

type_synonym 'a de = "(de_error, 'a) result"
type_synonym de_fields = "(string \<times> json) list"

fun de_string :: "json \<Rightarrow> string de" where
  "de_string (JString s) = Inr s"
| "de_string _ = Inl InvalidType"

fun de_bool :: "json \<Rightarrow> bool de" where
  "de_bool (JBool b) = Inr b"
| "de_bool _ = Inl InvalidType"

fun de_vec :: "(json \<Rightarrow> 'a de) \<Rightarrow> json \<Rightarrow> 'a list de" where
  "de_vec reader (JArray js) = try_map reader js"
| "de_vec reader _ = Inl InvalidType"

fun de_variant :: "(string \<times> 'a) list \<Rightarrow> json \<Rightarrow> 'a de" where
  "de_variant variants (JString s) = ok_or (UnknownVariant s) (map_of variants s)"
| "de_variant variants (JObject [(s, JNull)]) = ok_or (UnknownVariant s) (map_of variants s)"
| "de_variant variants _ = Inl InvalidType"

fun known_fields :: "bool \<Rightarrow> string list \<Rightarrow> de_fields \<Rightarrow> de_fields \<Rightarrow> de_fields de" where
  "known_fields deny_unknown names [] seen = Inr seen"
| "known_fields deny_unknown names ((key, j) # rest) seen =
     (if key \<notin> set names then
        (if deny_unknown then Inl (UnknownField key) else known_fields deny_unknown names rest seen)
      else if key \<in> fst ` set seen then Inl (DuplicateField key)
      else known_fields deny_unknown names rest (seen @ [(key, j)]))"

fun de_struct :: "bool \<Rightarrow> string list \<Rightarrow> json \<Rightarrow> de_fields de" where
  "de_struct deny_unknown names (JObject kvs) = known_fields deny_unknown names kvs []"
| "de_struct deny_unknown names (JArray js) =
     (if length js = length names then Inr (zip names js) else Inl (InvalidLength (length js)))"
| "de_struct deny_unknown names _ = Inl InvalidType"

definition de_required :: "string \<Rightarrow> (json \<Rightarrow> 'a de) \<Rightarrow> de_fields \<Rightarrow> 'a de" where
  "de_required key reader fs = rbind (ok_or (MissingField key) (map_of fs key)) reader"

definition de_optional :: "string \<Rightarrow> (json \<Rightarrow> 'a de) \<Rightarrow> de_fields \<Rightarrow> 'a option de" where
  "de_optional key reader fs =
     (case map_of fs key of
        None \<Rightarrow> Inr None
      | Some JNull \<Rightarrow> Inr None
      | Some j \<Rightarrow> rbind (reader j) (\<lambda>a. Inr (Some a)))"

lemmas de_simps = de_required_def de_optional_def rbind_def

end
