(* ===== verification/Scopes.thy ===== *)
theory Scopes
  imports Messages Serde
begin

text \<open>
  Permission scopes, \<open>permissions/scopes.rs\<close>: the three kinds of scope with their selectors, the
  operations a scope covers, the containment test against a target, and the JSON form of a scope.
  The theorems show that reading back a written scope gives the scope, that only legal scopes are
  read or written, and that the containment test is containment of paths segment by segment.
\<close>

section \<open>Scopes\<close>

datatype scope_protocols_method = ScopeConfigure | ScopeProtocolsQuery

datatype scope_records_method = ScopeRead | ScopeWrite | ScopeDelete

text \<open>
  \<open>MessagesSelector\<close> and \<open>RecordsSelector\<close> have the same two variants, so one type serves both; the
  newtypes \<open>ContextId\<close> and \<open>ProtocolPath\<close> are the text they wrap.
\<close>

datatype selector = SelContextId string | SelProtocolPath string

record protocols_scope =
  pscope_method :: scope_protocols_method
  pscope_protocol :: "string option"

record messages_scope =
  mscope_protocol :: "string option"
  mscope_selector :: "selector option"

record records_scope =
  rscope_method :: scope_records_method
  rscope_protocol :: string
  rscope_selector :: "selector option"

datatype permission_scope =
    ScopeProtocols protocols_scope
  | ScopeMessages messages_scope
  | ScopeRecords records_scope

fun is_unscoped :: "permission_scope \<Rightarrow> bool" where
  "is_unscoped (ScopeMessages s) = (mscope_protocol s = None \<and> mscope_selector s = None)"
| "is_unscoped _ = False"

definition selector_needs_protocol :: string where
  "selector_needs_protocol = ''Messages permission scope selectors require protocol''"

fun scope_validate :: "permission_scope \<Rightarrow> (string, unit) result" where
  "scope_validate (ScopeMessages s) =
     (if mscope_protocol s = None \<and> mscope_selector s \<noteq> None then Inl selector_needs_protocol
      else Inr ())"
| "scope_validate _ = Inr ()"

fun scope_method :: "permission_scope \<Rightarrow> string" where
  "scope_method (ScopeProtocols s) =
     (case pscope_method s of ScopeConfigure \<Rightarrow> ''Configure'' | ScopeProtocolsQuery \<Rightarrow> ''Query'')"
| "scope_method (ScopeMessages s) = ''Read''"
| "scope_method (ScopeRecords s) =
     (case rscope_method s of ScopeRead \<Rightarrow> ''Read'' | ScopeWrite \<Rightarrow> ''Write'' | ScopeDelete \<Rightarrow> ''Delete'')"

fun scope_interface :: "permission_scope \<Rightarrow> interface" where
  "scope_interface (ScopeProtocols s) = IProtocols"
| "scope_interface (ScopeMessages s) = IMessages"
| "scope_interface (ScopeRecords s) = IRecords"

fun scope_covers :: "permission_scope \<Rightarrow> message_kind \<Rightarrow> bool" where
  "scope_covers (ScopeMessages s) (KindMessages m) =
     (m = MMessagesRead \<or> m = MMessagesQuery \<or> m = MMessagesSubscribe)"
| "scope_covers (ScopeRecords s) (KindRecords m) =
     (case rscope_method s of
        ScopeRead \<Rightarrow> m = MRecordsRead \<or> m = MRecordsQuery \<or> m = MRecordsSubscribe \<or> m = MRecordsCount
      | ScopeWrite \<Rightarrow> m = MRecordsWrite
      | ScopeDelete \<Rightarrow> m = MRecordsDelete)"
| "scope_covers (ScopeProtocols s) (KindProtocols m) =
     (case pscope_method s of
        ScopeConfigure \<Rightarrow> m = MProtocolsConfigure
      | ScopeProtocolsQuery \<Rightarrow> m = MProtocolsQuery)"
| "scope_covers _ _ = False"

fun scope_protocol :: "permission_scope \<Rightarrow> string option" where
  "scope_protocol (ScopeProtocols s) = pscope_protocol s"
| "scope_protocol (ScopeMessages s) = mscope_protocol s"
| "scope_protocol (ScopeRecords s) = Some (rscope_protocol s)"

fun scope_selector :: "permission_scope \<Rightarrow> selector option" where
  "scope_selector (ScopeProtocols s) = None"
| "scope_selector (ScopeMessages s) = mscope_selector s"
| "scope_selector (ScopeRecords s) = rscope_selector s"

definition scope_context_id :: "permission_scope \<Rightarrow> string option" where
  "scope_context_id scope = (case scope_selector scope of Some (SelContextId c) \<Rightarrow> Some c | _ \<Rightarrow> None)"

definition scope_protocol_path :: "permission_scope \<Rightarrow> string option" where
  "scope_protocol_path scope =
     (case scope_selector scope of Some (SelProtocolPath p) \<Rightarrow> Some p | _ \<Rightarrow> None)"

section \<open>Targets\<close>

text \<open>The borrowed and the owned target have the same fields.\<close>

record scope_target =
  tgt_protocol :: "string option"
  tgt_context_id :: "string option"
  tgt_protocol_path :: "string option"

definition target_of_filter :: "messages_filter \<Rightarrow> scope_target" where
  "target_of_filter f =
     \<lparr>tgt_protocol = mf_protocol f,
      tgt_context_id = mf_context_id_prefix f,
      tgt_protocol_path =
        (case mf_protocol_path f of Some p \<Rightarrow> Some p | None \<Rightarrow> mf_protocol_path_prefix f)\<rparr>"

definition matches_subtree :: "string \<Rightarrow> string option \<Rightarrow> bool" where
  "matches_subtree scope target =
     (target = Some scope \<or>
      (case target of
         None \<Rightarrow> False
       | Some v \<Rightarrow> starts_with v scope \<and> length scope < length v \<and> v ! length scope = slash))"

definition matches_protocol_target :: "permission_scope \<Rightarrow> scope_target \<Rightarrow> bool" where
  "matches_protocol_target scope target =
     (let protocol_match = (scope_protocol scope = None \<or> scope_protocol scope = tgt_protocol target);
          context_id_match = (case scope_context_id scope of
            None \<Rightarrow> True | Some c \<Rightarrow> matches_subtree c (tgt_context_id target));
          protocol_path_match = (case scope_protocol_path scope of
            None \<Rightarrow> True | Some p \<Rightarrow> matches_subtree p (tgt_protocol_path target))
      in protocol_match \<and> context_id_match \<and> protocol_path_match)"

section \<open>JSON form\<close>

definition optional_entry :: "string \<Rightarrow> string option \<Rightarrow> (string \<times> json) list" where
  "optional_entry key v = (case v of None \<Rightarrow> [] | Some s \<Rightarrow> [(key, JString s)])"

definition scope_to_json :: "permission_scope \<Rightarrow> (string, json) result" where
  "scope_to_json scope =
     rbind (scope_validate scope) (\<lambda>_.
       Inr (JObject
         ([(''interface'', JString (interface_as_str (scope_interface scope))),
           (''method'', JString (scope_method scope))]
          @ optional_entry ''protocol'' (scope_protocol scope)
          @ optional_entry ''contextId'' (scope_context_id scope)
          @ optional_entry ''protocolPath'' (scope_protocol_path scope))))"

text \<open>Reading goes through the derived reader of \<open>RawPermissionScope\<close>, which refuses unknown fields.\<close>

record raw_permission_scope =
  raw_interface :: string
  raw_method :: string
  raw_protocol :: "string option"
  raw_context_id :: "string option"
  raw_protocol_path :: "string option"

definition raw_of_json :: "json \<Rightarrow> raw_permission_scope de" where
  "raw_of_json j =
     rbind (de_struct True [''interface'', ''method'', ''protocol'', ''contextId'', ''protocolPath''] j) (\<lambda>fs.
     rbind (de_required ''interface'' de_string fs) (\<lambda>i.
     rbind (de_required ''method'' de_string fs) (\<lambda>m.
     rbind (de_optional ''protocol'' de_string fs) (\<lambda>p.
     rbind (de_optional ''contextId'' de_string fs) (\<lambda>c.
     rbind (de_optional ''protocolPath'' de_string fs) (\<lambda>t.
       Inr \<lparr>raw_interface = i, raw_method = m, raw_protocol = p, raw_context_id = c,
            raw_protocol_path = t\<rparr>))))))"

text \<open>The case that both selectors are present has been refused by then.\<close>

definition raw_selector :: "raw_permission_scope \<Rightarrow> selector option" where
  "raw_selector raw =
     (case (raw_context_id raw, raw_protocol_path raw) of
        (Some c, _) \<Rightarrow> Some (SelContextId c)
      | (None, Some p) \<Rightarrow> Some (SelProtocolPath p)
      | (None, None) \<Rightarrow> None)"

definition records_scope_of :: "scope_records_method \<Rightarrow> raw_permission_scope \<Rightarrow> (de_error, permission_scope) result" where
  "records_scope_of method raw =
     rbind (ok_or (DeCustom ''Records permission scopes require protocol'') (raw_protocol raw)) (\<lambda>protocol.
       Inr (ScopeRecords \<lparr>rscope_method = method, rscope_protocol = protocol,
                          rscope_selector = raw_selector raw\<rparr>))"

definition protocols_scope_of :: "scope_protocols_method \<Rightarrow> raw_permission_scope \<Rightarrow> (de_error, permission_scope) result" where
  "protocols_scope_of method raw =
     (if raw_context_id raw \<noteq> None \<or> raw_protocol_path raw \<noteq> None
      then Inl (DeCustom ''Protocols permission scopes cannot contain contextId or protocolPath'')
      else Inr (ScopeProtocols \<lparr>pscope_method = method, pscope_protocol = raw_protocol raw\<rparr>))"

definition scope_of_raw :: "raw_permission_scope \<Rightarrow> (de_error, permission_scope) result" where
  "scope_of_raw raw =
     (let pair = (raw_interface raw, raw_method raw)
      in if raw_context_id raw \<noteq> None \<and> raw_protocol_path raw \<noteq> None
           then Inl (DeCustom ''permission scope cannot contain both contextId and protocolPath'')
         else if pair = (''Protocols'', ''Configure'') then protocols_scope_of ScopeConfigure raw
         else if pair = (''Protocols'', ''Query'') then protocols_scope_of ScopeProtocolsQuery raw
         else if pair = (''Messages'', ''Read'') then
           (if raw_selector raw \<noteq> None \<and> raw_protocol raw = None
            then Inl (DeCustom selector_needs_protocol)
            else Inr (ScopeMessages \<lparr>mscope_protocol = raw_protocol raw,
                                     mscope_selector = raw_selector raw\<rparr>))
         else if pair = (''Records'', ''Read'') then records_scope_of ScopeRead raw
         else if pair = (''Records'', ''Write'') then records_scope_of ScopeWrite raw
         else if pair = (''Records'', ''Delete'') then records_scope_of ScopeDelete raw
         else Inl (DeCustom (''unsupported permission scope interface/method pair: ''
                @ raw_interface raw @ ''/'' @ raw_method raw)))"

definition scope_of_json :: "json \<Rightarrow> (de_error, permission_scope) result" where
  "scope_of_json j = rbind (raw_of_json j) scope_of_raw"

section \<open>Lemmas\<close>

lemma matches_subtree_iff:
  "matches_subtree scope target \<longleftrightarrow>
     (\<exists>v. target = Some v \<and> prefix (split_on slash scope) (split_on slash v))"
proof -
  have "starts_with v scope \<and> length scope < length v \<and> v ! length scope = slash
      \<longleftrightarrow> starts_with v (scope @ ''/'')" for v
  proof
    assume v: "starts_with v scope \<and> length scope < length v \<and> v ! length scope = slash"
    then obtain r where r: "v = scope @ r" by (auto simp: starts_with_iff)
    with v show "starts_with v (scope @ ''/'')" by (cases r) (auto simp: starts_with_iff)
  next
    assume "starts_with v (scope @ ''/'')"
    then show "starts_with v scope \<and> length scope < length v \<and> v ! length scope = slash"
      by (auto simp: starts_with_iff nth_append)
  qed
  then show ?thesis
    by (auto simp: matches_subtree_def subtree_iff_segments [symmetric] split: option.splits)
qed

lemma matches_subtree_trans:
  "matches_subtree a (Some b) \<Longrightarrow> matches_subtree b t \<Longrightarrow> matches_subtree a t"
  by (auto simp: matches_subtree_iff intro: prefix_order.trans)

lemma scope_covers_interface: "scope_covers scope kind \<Longrightarrow> kind_interface kind = scope_interface scope"
  by (cases "(scope, kind)" rule: scope_covers.cases) auto

lemma scope_of_json_valid: "scope_of_json j = Inr scope \<Longrightarrow> scope_validate scope = Inr ()"
  by (auto simp: scope_of_json_def rbind_def scope_of_raw_def Let_def protocols_scope_of_def
        records_scope_of_def split: sum.splits if_splits)

lemma raw_of_written:
  "raw_of_json (JObject ([(''interface'', JString i), (''method'', JString m)]
     @ optional_entry ''protocol'' p @ optional_entry ''contextId'' c @ optional_entry ''protocolPath'' t))
   = Inr \<lparr>raw_interface = i, raw_method = m, raw_protocol = p, raw_context_id = c, raw_protocol_path = t\<rparr>"
  by (cases p; cases c; cases t) (simp_all add: raw_of_json_def optional_entry_def de_simps)

lemma selector_parts:
  "raw_selector \<lparr>raw_interface = i, raw_method = m, raw_protocol = p,
     raw_context_id = scope_context_id scope, raw_protocol_path = scope_protocol_path scope\<rparr>
   = scope_selector scope"
  "\<not> (scope_context_id scope \<noteq> None \<and> scope_protocol_path scope \<noteq> None)"
  by (auto simp: raw_selector_def scope_context_id_def scope_protocol_path_def
      split: option.splits selector.splits)

lemma scope_of_written:
  assumes "scope_validate scope = Inr ()"
  shows "scope_of_raw \<lparr>raw_interface = interface_as_str (scope_interface scope),
    raw_method = scope_method scope, raw_protocol = scope_protocol scope,
    raw_context_id = scope_context_id scope, raw_protocol_path = scope_protocol_path scope\<rparr> = Inr scope"
proof (cases scope)
  case (ScopeProtocols s)
  then show ?thesis
    by (cases "pscope_method s")
      (simp_all add: scope_of_raw_def protocols_scope_of_def scope_context_id_def scope_protocol_path_def)
next
  case (ScopeMessages s)
  then show ?thesis
    using assms selector_parts [where scope = scope]
    by (simp add: scope_of_raw_def Let_def) (auto split: if_splits)
next
  case (ScopeRecords s)
  then show ?thesis
    using selector_parts [where scope = scope]
    by (cases "rscope_method s") (auto simp: scope_of_raw_def Let_def records_scope_of_def rbind_def)
qed

lemma scope_json_read: "scope_to_json scope = Inr j \<Longrightarrow> scope_of_json j = Inr scope"
  using raw_of_written scope_of_written [of scope]
  by (auto simp: scope_to_json_def scope_of_json_def rbind_def split: sum.splits)

lemma scope_json_writes:
  "(\<exists>j. scope_to_json scope = Inr j) \<longleftrightarrow> scope_validate scope = Inr ()"
  by (auto simp: scope_to_json_def rbind_def split: sum.splits)

section \<open>Properties\<close>

text \<open>
  C34: the JSON form of scopes. Writing a scope succeeds exactly when the scope is legal, reading back
  what was written gives the same scope, and whatever JSON is read, an object or an array, the
  resulting scope is legal and can be written again.
\<close>

theorem scope_json_roundtrip:
  "((\<exists>j. scope_to_json scope = Inr j) \<longleftrightarrow> scope_validate scope = Inr ()) \<and>
   (\<forall>j. scope_to_json scope = Inr j \<longrightarrow> scope_of_json j = Inr scope) \<and>
   (\<forall>j. scope_of_json j = Inr scope \<longrightarrow>
      (\<exists>j'. scope_to_json scope = Inr j' \<and> scope_of_json j' = Inr scope))"
  using scope_json_writes scope_json_read scope_of_json_valid by blast

definition sample_scope :: permission_scope where
  "sample_scope = ScopeMessages \<lparr>mscope_protocol = Some ''https://notes'',
     mscope_selector = Some (SelContextId ''c/1'')\<rparr>"

theorem scope_json_roundtrip_witness:
  "\<exists>j. scope_to_json sample_scope = Inr j \<and> scope_of_json j = Inr sample_scope
     \<and> j = JObject [(''interface'', JString ''Messages''), (''method'', JString ''Read''),
         (''protocol'', JString ''https://notes''), (''contextId'', JString ''c/1'')]"
proof -
  have "scope_to_json sample_scope = Inr (JObject [(''interface'', JString ''Messages''),
     (''method'', JString ''Read''), (''protocol'', JString ''https://notes''), (''contextId'', JString ''c/1'')])"
    by (simp add: scope_to_json_def sample_scope_def scope_context_id_def scope_protocol_path_def
        optional_entry_def rbind_def)
  then show ?thesis using scope_json_roundtrip [of sample_scope] by blast
qed

text \<open>
  C33: the scope test is containment. A target is inside a scope exactly when the scope names no
  protocol or the target's, and the selected context or path, cut at its slashes, is an initial part
  of the target's; a target without the selected attribute is outside, and \<open>c/10\<close> is not below \<open>c/1\<close>.
\<close>

theorem scope_test_is_containment:
  "matches_protocol_target scope target \<longleftrightarrow>
     (scope_protocol scope = None \<or> scope_protocol scope = tgt_protocol target) \<and>
     (case scope_selector scope of
        None \<Rightarrow> True
      | Some (SelContextId c) \<Rightarrow>
          (\<exists>v. tgt_context_id target = Some v \<and> prefix (split_on slash c) (split_on slash v))
      | Some (SelProtocolPath p) \<Rightarrow>
          (\<exists>v. tgt_protocol_path target = Some v \<and> prefix (split_on slash p) (split_on slash v)))"
  by (auto simp: matches_protocol_target_def scope_context_id_def scope_protocol_path_def
      matches_subtree_iff split: option.splits selector.splits)

end
