(* ===== verification/Grants.thy ===== *)
theory Grants
  imports Scopes Feed
begin

text \<open>
  Permission grants as data: the errors of \<open>permissions/errors.rs\<close>, the payloads of permission
  records and their reading from the inline data of a message (\<open>permissions/mod.rs\<close>). The
  base64 and JSON parsers, the date parser of the payloads, the CIDs of the parts a signature
  commits to, DID resolution and the signature check belong to third-party crates and
  services: they are the fields of \<open>pext\<close>. Texts of wrapped third-party errors are left out.
\<close>

section \<open>Third-party functions\<close>

type_synonym jws_algorithm = string

record pext = mext +
  decode_base64url :: "string \<Rightarrow> u8 list option"
  json_of_bytes :: "u8 list \<Rightarrow> json option"
  parse_datetime :: "string \<Rightarrow> instant option"
  cid_of_descriptor :: "descriptor \<Rightarrow> cid"
  cid_of_jws :: "jws \<Rightarrow> cid option"
  cid_of_envelope :: "encryption_envelope \<Rightarrow> cid option"
  parse_algorithm :: "string \<Rightarrow> jws_algorithm option"
  signing_key :: "string \<Rightarrow> jwk option"
  verify_bytes :: "jws_algorithm \<Rightarrow> string \<Rightarrow> u8 list \<Rightarrow> jwk \<Rightarrow> bool option"
  did_of_url :: "string \<Rightarrow> string option"

section \<open>Errors\<close>

datatype delegation_side = DelegationAuthor | DelegationOwner

datatype jws_error =
    JwsParseError
  | JwsBase64UrlError
  | JwsMissingKid
  | JwsMissingAlg
  | JwsMissingPayload
  | JwsMissingSignatures
  | JwsMissingProtected
  | JwsMissingSignature
  | JwsPublicKeyNotFound string
  | JwsInvalidSignature
  | JwsUnsupportedAlgorithm string
  | JwsInvalidKey

datatype authorization_request_error =
    PermissionGrantIDsConflict
  | ValidationError string
  | DelegatedGrantIdExistenceMismatch delegation_side
  | DelegatedGrantCidMismatch delegation_side
  | NotADelegatedGrant delegation_side
  | DelegatedGrantGranteeMismatch delegation_side
  | CidMismatch
  | GrantScopeMismatch string string
  | KidRequired
  | PermissionGrantIDsRequired
  | SignatureRequired
  | SignatureMismatch
  | SignatureDecodeError
  | InvalidSignature jws_error
  | RequestInvalidBase64
  | ExpectedOneSignature
  | NoSignerFound

datatype authorization_validation_error =
    BadRequest authorization_request_error
  | ParseFailed
  | CidParseFailed
  | UnexpectedGrantee string string
  | UnexpectedGrantor string string
  | ProtocolInvalidTags
  | UnexpectedPermissionRecord string
  | AuthUnauthorized string

datatype protocol_validation_error =
    MissingEncodedData
  | InvalidBase64
  | WriteFieldsError string
  | MissingRevocationParentId
  | RevocationProtocolMismatch

datatype grant_message_type_error =
    GrantInvalidMessageType
  | InvalidRecordsWriteMessageType
  | InvalidProtocolsQueryMessageType
  | InvalidProtocolsConfigureMessageType

datatype grant_error =
    InvalidRecordsDescriptorType
  | InvalidProtocolDescriptorType
  | InvalidDescriptorType
  | UnableToExtractGrantor
  | GrantNotFound string
  | InvalidMessageType grant_message_type_error
  | RecordIdRequired
  | UnexpectedProtocol string
  | RevocationParentIdRequired
  | RecipientRequired
  | GrantInvalid authorization_validation_error
  | GrantProtocolValidation protocol_validation_error
  | InvalidScopeForTarget
  | UnpublishedGrant
  | PublishProhibited
  | GrantNotActive
  | GrantExpired
  | GrantRevoked
  | OutsideScope
  | GrantUnauthorized

datatype permission_error =
    PermissionAuthorization authorization_validation_error
  | PermissionInvalidGrant grant_error
  | PermissionMessageStore message_store_error
  | PermissionDataStore string

fun grant_message_type_of :: "records_write_descriptor_error \<Rightarrow> grant_message_type_error" where
  "grant_message_type_of NotRecords = GrantInvalidMessageType"
| "grant_message_type_of NotWrite = InvalidRecordsWriteMessageType"

definition map_err :: "('e \<Rightarrow> 'f) \<Rightarrow> ('e, 'a) result \<Rightarrow> ('f, 'a) result" where
  "map_err f r = (case r of Inl e \<Rightarrow> Inl (f e) | Inr a \<Rightarrow> Inr a)"

abbreviation grant_bad_request :: "authorization_request_error \<Rightarrow> grant_error" where
  "grant_bad_request e \<equiv> GrantInvalid (BadRequest e)"

definition grant_write_descriptor :: "message \<Rightarrow> (grant_error, write_descriptor) result" where
  "grant_write_descriptor m =
     map_err (\<lambda>e. InvalidMessageType (grant_message_type_of e)) (records_write_descriptor m)"

section \<open>Payloads of permission records\<close>

datatype publication_condition = PublicationRequired | PublicationProhibited

record permission_conditions =
  pc_publication :: "publication_condition option"

datatype connect_session_transport = TransportRelay | TransportPostMessage

record connect_session_metadata =
  cs_id :: string
  cs_app_name :: "string option"
  cs_app_icon :: "string option"
  cs_origin :: "string option"
  cs_user_agent :: "string option"
  cs_platform :: "string option"
  cs_language :: "string option"
  cs_languages :: "string list option"
  cs_timezone :: "string option"
  cs_transport :: "connect_session_transport option"
  cs_created_at :: instant
  cs_expires_at :: instant

record permission_request_data =
  prd_delegated :: bool
  prd_scope :: permission_scope
  prd_description :: "string option"
  prd_conditions :: "permission_conditions option"

record permission_grant_data =
  pgd_date_expires :: instant
  pgd_scope :: permission_scope
  pgd_description :: "string option"
  pgd_request_id :: "string option"
  pgd_delegated :: "bool option"
  pgd_conditions :: "permission_conditions option"
  pgd_connect_session :: "connect_session_metadata option"

record permission_grant =
  gr_id :: string
  gr_grantor :: string
  gr_grantee :: string
  gr_date_granted :: instant
  gr_date_expires :: instant
  gr_delegated :: "bool option"
  gr_scope :: permission_scope
  gr_conditions :: "permission_conditions option"
  gr_connect_session :: "connect_session_metadata option"

fun de_datetime :: "'x pext_scheme \<Rightarrow> json \<Rightarrow> instant de" where
  "de_datetime E (JString s) = ok_or (DeCustom ''invalid date'') (parse_datetime E s)"
| "de_datetime E _ = Inl InvalidType"

definition de_conditions :: "json \<Rightarrow> permission_conditions de" where
  "de_conditions j =
     rbind (de_struct False [''publication''] j) (\<lambda>fs.
     rbind (de_optional ''publication''
       (de_variant [(''Required'', PublicationRequired), (''Prohibited'', PublicationProhibited)]) fs) (\<lambda>p.
       Inr \<lparr>pc_publication = p\<rparr>))"

definition de_connect_session :: "'x pext_scheme \<Rightarrow> json \<Rightarrow> connect_session_metadata de" where
  "de_connect_session E j =
     rbind (de_struct True [''id'', ''appName'', ''appIcon'', ''origin'', ''userAgent'', ''platform'',
       ''language'', ''languages'', ''timezone'', ''transport'', ''createdAt'', ''expiresAt''] j) (\<lambda>fs.
     rbind (de_required ''id'' de_string fs) (\<lambda>ident.
     rbind (de_optional ''appName'' de_string fs) (\<lambda>app_name.
     rbind (de_optional ''appIcon'' de_string fs) (\<lambda>app_icon.
     rbind (de_optional ''origin'' de_string fs) (\<lambda>origin.
     rbind (de_optional ''userAgent'' de_string fs) (\<lambda>user_agent.
     rbind (de_optional ''platform'' de_string fs) (\<lambda>platform.
     rbind (de_optional ''language'' de_string fs) (\<lambda>language.
     rbind (de_optional ''languages'' (de_vec de_string) fs) (\<lambda>languages.
     rbind (de_optional ''timezone'' de_string fs) (\<lambda>timezone.
     rbind (de_optional ''transport''
       (de_variant [(''relay'', TransportRelay), (''postMessage'', TransportPostMessage)]) fs) (\<lambda>transport.
     rbind (de_required ''createdAt'' (de_datetime E) fs) (\<lambda>created_at.
     rbind (de_required ''expiresAt'' (de_datetime E) fs) (\<lambda>expires_at.
       Inr \<lparr>cs_id = ident, cs_app_name = app_name, cs_app_icon = app_icon, cs_origin = origin,
            cs_user_agent = user_agent, cs_platform = platform, cs_language = language,
            cs_languages = languages, cs_timezone = timezone, cs_transport = transport,
            cs_created_at = created_at, cs_expires_at = expires_at\<rparr>)))))))))))))"

definition de_request_data :: "json \<Rightarrow> permission_request_data de" where
  "de_request_data j =
     rbind (de_struct False [''delegated'', ''scope'', ''description'', ''conditions''] j) (\<lambda>fs.
     rbind (de_required ''delegated'' de_bool fs) (\<lambda>delegated.
     rbind (de_required ''scope'' scope_of_json fs) (\<lambda>scope.
     rbind (de_optional ''description'' de_string fs) (\<lambda>description.
     rbind (de_optional ''conditions'' de_conditions fs) (\<lambda>conditions.
       Inr \<lparr>prd_delegated = delegated, prd_scope = scope, prd_description = description,
            prd_conditions = conditions\<rparr>)))))"

definition de_grant_data :: "'x pext_scheme \<Rightarrow> json \<Rightarrow> permission_grant_data de" where
  "de_grant_data E j =
     rbind (de_struct False [''dateExpires'', ''scope'', ''description'', ''requestId'', ''delegated'',
       ''conditions'', ''connectSession''] j) (\<lambda>fs.
     rbind (de_required ''dateExpires'' (de_datetime E) fs) (\<lambda>date_expires.
     rbind (de_required ''scope'' scope_of_json fs) (\<lambda>scope.
     rbind (de_optional ''description'' de_string fs) (\<lambda>description.
     rbind (de_optional ''requestId'' de_string fs) (\<lambda>request_id.
     rbind (de_optional ''delegated'' de_bool fs) (\<lambda>delegated.
     rbind (de_optional ''conditions'' de_conditions fs) (\<lambda>conditions.
     rbind (de_optional ''connectSession'' (de_connect_session E) fs) (\<lambda>connect_session.
       Inr \<lparr>pgd_date_expires = date_expires, pgd_scope = scope, pgd_description = description,
            pgd_request_id = request_id, pgd_delegated = delegated, pgd_conditions = conditions,
            pgd_connect_session = connect_session\<rparr>))))))))"

definition de_revocation_data :: "json \<Rightarrow> string option de" where
  "de_revocation_data j =
     rbind (de_struct False [''description''] j) (\<lambda>fs. de_optional ''description'' de_string fs)"

definition from_slice :: "'x pext_scheme \<Rightarrow> (json \<Rightarrow> 'a de) \<Rightarrow> u8 list \<Rightarrow> (authorization_validation_error, 'a) result" where
  "from_slice E reader bytes =
     (case json_of_bytes E bytes of
        None \<Rightarrow> Inl ParseFailed
      | Some j \<Rightarrow> map_err (\<lambda>_. ParseFailed) (reader j))"

definition permission_record_data_bytes ::
  "'x pext_scheme \<Rightarrow> message \<Rightarrow> (protocol_validation_error, u8 list) result" where
  "permission_record_data_bytes E m =
     rbind (map_err WriteFieldsError (write_fields m)) (\<lambda>f.
     rbind (ok_or MissingEncodedData (wf_encoded_data f)) (\<lambda>d.
       ok_or InvalidBase64 (decode_base64url E d)))"

definition permissions_request_path :: string where
  "permissions_request_path = ''request''"

definition permissions_grant_path :: string where
  "permissions_grant_path = ''grant''"

definition permissions_revocation_path :: string where
  "permissions_revocation_path = ''grant/revocation''"

definition parse_permission_grant ::
  "'x pext_scheme \<Rightarrow> message \<Rightarrow> string \<Rightarrow> (grant_error, permission_grant) result" where
  "parse_permission_grant E m grantor =
     rbind (grant_write_descriptor m) (\<lambda>d.
       if wd_protocol d \<noteq> permissions_protocol_uri \<or> wd_protocol_path d \<noteq> permissions_grant_path
       then Inl (InvalidMessageType GrantInvalidMessageType)
       else
         rbind (map_err GrantProtocolValidation (permission_record_data_bytes E m)) (\<lambda>bytes.
         rbind (map_err GrantInvalid (from_slice E (de_grant_data E) bytes)) (\<lambda>data.
         rbind (ok_or RecordIdRequired (record_id m)) (\<lambda>ident.
         rbind (ok_or UnableToExtractGrantor (wd_recipient d)) (\<lambda>grantee.
           Inr \<lparr>gr_id = ident, gr_grantor = grantor, gr_grantee = grantee,
                gr_date_granted = wd_date_created d, gr_date_expires = pgd_date_expires data,
                gr_delegated = pgd_delegated data, gr_scope = pgd_scope data,
                gr_conditions = pgd_conditions data,
                gr_connect_session = pgd_connect_session data\<rparr>)))))"

definition validate_permission_protocol_tag ::
  "write_descriptor \<Rightarrow> string \<Rightarrow> (authorization_validation_error, unit) result" where
  "validate_permission_protocol_tag d scoped_protocol =
     (case Option.bind (wd_tags d) (\<lambda>tags. bt_get tags ''protocol'') of
        Some (VString tagged) \<Rightarrow> if tagged \<noteq> scoped_protocol then Inl ProtocolInvalidTags else Inr ()
      | _ \<Rightarrow> Inl ProtocolInvalidTags)"

definition validate_scope_and_tags ::
  "permission_scope \<Rightarrow> write_descriptor \<Rightarrow> (authorization_validation_error, unit) result" where
  "validate_scope_and_tags scope d =
     (case scope_protocol scope of
        None \<Rightarrow> Inr ()
      | Some protocol \<Rightarrow> validate_permission_protocol_tag d protocol)"

definition validate_permissions_record_schema ::
  "'x pext_scheme \<Rightarrow> message \<Rightarrow> (grant_error, unit) result" where
  "validate_permissions_record_schema E m =
     rbind (grant_write_descriptor m) (\<lambda>d.
       if wd_protocol d \<noteq> permissions_protocol_uri then Inr ()
       else
         rbind (map_err GrantProtocolValidation (permission_record_data_bytes E m)) (\<lambda>bytes.
           if wd_protocol_path d = permissions_request_path then
             map_err GrantInvalid (rbind (from_slice E de_request_data bytes)
               (\<lambda>data. validate_scope_and_tags (prd_scope data) d))
           else if wd_protocol_path d = permissions_grant_path then
             map_err GrantInvalid (rbind (from_slice E (de_grant_data E) bytes)
               (\<lambda>data. validate_scope_and_tags (pgd_scope data) d))
           else if wd_protocol_path d = permissions_revocation_path then
             map_err GrantInvalid (rbind (from_slice E de_revocation_data bytes) (\<lambda>_. Inr ()))
           else Inl (GrantInvalid (UnexpectedPermissionRecord (wd_protocol_path d)))))"

section \<open>Lemmas\<close>

lemma map_err_Inr [simp]: "map_err f r = Inr a \<longleftrightarrow> r = Inr a"
  by (simp add: map_err_def split: sum.splits)

lemma map_err_simps [simp]: "map_err f (Inl e) = Inl (f e)" "map_err f (Inr a) = Inr a"
  by (simp_all add: map_err_def)

end
