(* ===== verification/Signatures.thy ===== *)
theory Signatures
  imports Grants
begin

text \<open>
  Authentication of a message, \<open>permissions/mod.rs\<close> with \<open>auth/jws.rs\<close>: what a signature payload
  commits to, who signed, whom a delegated grant lets the signer speak for, and the owner's
  countersignature. The theorem of this theory lists everything that holds of a message that
  passes.
\<close>

section \<open>Signatures\<close>

record verification_input =
  vi_kid :: "string option"
  vi_algorithm :: jws_algorithm
  vi_signing_bytes :: string
  vi_signature :: "u8 list"

record protected_header =
  ph_kid :: "string option"
  ph_alg :: "string option"

definition decode_protected_header :: "'x pext_scheme \<Rightarrow> string \<Rightarrow> (jws_error, protected_header) result" where
  "decode_protected_header E protected =
     rbind (ok_or JwsBase64UrlError (decode_base64url E protected)) (\<lambda>bytes.
     rbind (ok_or JwsParseError (json_of_bytes E bytes)) (\<lambda>j.
     map_err (\<lambda>_. JwsParseError)
       (rbind (de_struct False [''kid'', ''alg''] j) (\<lambda>fs.
        rbind (de_optional ''kid'' de_string fs) (\<lambda>kid.
        rbind (de_optional ''alg'' de_string fs) (\<lambda>alg.
          Inr \<lparr>ph_kid = kid, ph_alg = alg\<rparr>))))))"

definition prepare_verification ::
  "'x pext_scheme \<Rightarrow> string \<Rightarrow> jws_signature \<Rightarrow> (jws_error, verification_input) result" where
  "prepare_verification E payload sig =
     rbind (ok_or JwsMissingProtected (js_protected sig)) (\<lambda>protected.
     rbind (ok_or JwsMissingSignature (js_signature sig)) (\<lambda>signature.
     rbind (decode_protected_header E protected) (\<lambda>header.
     rbind (ok_or JwsMissingAlg (ph_alg header)) (\<lambda>alg.
     rbind (ok_or (JwsUnsupportedAlgorithm alg) (parse_algorithm E alg)) (\<lambda>algorithm.
     rbind (ok_or JwsBase64UrlError (decode_base64url E signature)) (\<lambda>signature.
       Inr \<lparr>vi_kid = ph_kid header, vi_algorithm = algorithm,
            vi_signing_bytes = protected @ ''.'' @ payload, vi_signature = signature\<rparr>))))))"

definition extract_did :: "'x pext_scheme \<Rightarrow> string \<Rightarrow> string" where
  "extract_did E kid = (case did_of_url E kid of Some did \<Rightarrow> did | None \<Rightarrow> kid)"

definition verify_signature ::
  "'x pext_scheme \<Rightarrow> string \<Rightarrow> jws_signature \<Rightarrow> (jws_error, string) result" where
  "verify_signature E payload sig =
     rbind (prepare_verification E payload sig) (\<lambda>input.
     rbind (ok_or JwsMissingKid (vi_kid input)) (\<lambda>kid.
     rbind (ok_or (JwsPublicKeyNotFound kid) (signing_key E kid)) (\<lambda>key.
     rbind (ok_or JwsInvalidKey
       (verify_bytes E (vi_algorithm input) (vi_signing_bytes input) (vi_signature input) key)) (\<lambda>good.
       if good then Inr (extract_did E kid) else Inl JwsInvalidSignature))))"

definition verify_signatures :: "'x pext_scheme \<Rightarrow> jws \<Rightarrow> (jws_error, string list) result" where
  "verify_signatures E j =
     rbind (ok_or JwsMissingPayload (jws_payload j)) (\<lambda>payload.
     rbind (ok_or JwsMissingSignatures (jws_signatures j)) (\<lambda>signatures.
       try_map (verify_signature E payload) signatures))"

section \<open>Signature payloads\<close>

record authorization_payload_data =
  apd_descriptor_cid :: string
  apd_delegated_grant_id :: "string option"
  apd_permission_grant_id :: "string option"
  apd_permission_grant_ids :: "string list option"
  apd_protocol_role :: "string option"

record records_write_payload_data =
  rwp_descriptor_cid :: string
  rwp_record_id :: string
  rwp_context_id :: string
  rwp_attestation_cid :: "string option"
  rwp_encryption_cid :: "string option"
  rwp_permission_grant_id :: "string option"
  rwp_delegated_grant_id :: "string option"
  rwp_protocol_role :: "string option"

datatype verified_payload =
    PayloadGeneric authorization_payload_data
  | PayloadRecordsWrite records_write_payload_data

fun payload_descriptor_cid :: "verified_payload \<Rightarrow> string" where
  "payload_descriptor_cid (PayloadGeneric p) = apd_descriptor_cid p"
| "payload_descriptor_cid (PayloadRecordsWrite p) = rwp_descriptor_cid p"

fun payload_delegated_grant_id :: "verified_payload \<Rightarrow> string option" where
  "payload_delegated_grant_id (PayloadGeneric p) = apd_delegated_grant_id p"
| "payload_delegated_grant_id (PayloadRecordsWrite p) = rwp_delegated_grant_id p"

fun payload_protocol_role :: "verified_payload \<Rightarrow> string option" where
  "payload_protocol_role (PayloadGeneric p) = apd_protocol_role p"
| "payload_protocol_role (PayloadRecordsWrite p) = rwp_protocol_role p"

fun grant_invocation_of ::
  "string option \<Rightarrow> string list option \<Rightarrow> (authorization_validation_error, grant_invocation) result" where
  "grant_invocation_of (Some i) None = Inr (GrantSingle i)"
| "grant_invocation_of None (Some is) = Inr (GrantMulti is)"
| "grant_invocation_of None None = Inr GrantNone"
| "grant_invocation_of (Some _) (Some _) = Inl (BadRequest PermissionGrantIDsConflict)"

fun payload_grant_invocation :: "verified_payload \<Rightarrow> (grant_error, grant_invocation) result" where
  "payload_grant_invocation (PayloadGeneric p) =
     map_err GrantInvalid (grant_invocation_of (apd_permission_grant_id p) (apd_permission_grant_ids p))"
| "payload_grant_invocation (PayloadRecordsWrite p) =
     map_err GrantInvalid (grant_invocation_of (rwp_permission_grant_id p) None)"

definition de_payload_data :: "json \<Rightarrow> authorization_payload_data de" where
  "de_payload_data j =
     rbind (de_struct False [''descriptorCid'', ''delegatedGrantId'', ''permissionGrantId'',
       ''permissionGrantIds'', ''protocolRole''] j) (\<lambda>fs.
     rbind (de_required ''descriptorCid'' de_string fs) (\<lambda>c.
     rbind (de_optional ''delegatedGrantId'' de_string fs) (\<lambda>d.
     rbind (de_optional ''permissionGrantId'' de_string fs) (\<lambda>g.
     rbind (de_optional ''permissionGrantIds'' (de_vec de_string) fs) (\<lambda>gs.
     rbind (de_optional ''protocolRole'' de_string fs) (\<lambda>r.
       Inr \<lparr>apd_descriptor_cid = c, apd_delegated_grant_id = d, apd_permission_grant_id = g,
            apd_permission_grant_ids = gs, apd_protocol_role = r\<rparr>))))))"

definition de_records_write_payload_data :: "json \<Rightarrow> records_write_payload_data de" where
  "de_records_write_payload_data j =
     rbind (de_struct True [''descriptorCid'', ''recordId'', ''contextId'', ''attestationCid'',
       ''encryptionCid'', ''permissionGrantId'', ''delegatedGrantId'', ''protocolRole''] j) (\<lambda>fs.
     rbind (de_required ''descriptorCid'' de_string fs) (\<lambda>c.
     rbind (de_required ''recordId'' de_string fs) (\<lambda>i.
     rbind (de_required ''contextId'' de_string fs) (\<lambda>x.
     rbind (de_optional ''attestationCid'' de_string fs) (\<lambda>a.
     rbind (de_optional ''encryptionCid'' de_string fs) (\<lambda>e.
     rbind (de_optional ''permissionGrantId'' de_string fs) (\<lambda>g.
     rbind (de_optional ''delegatedGrantId'' de_string fs) (\<lambda>d.
     rbind (de_optional ''protocolRole'' de_string fs) (\<lambda>r.
       Inr \<lparr>rwp_descriptor_cid = c, rwp_record_id = i, rwp_context_id = x, rwp_attestation_cid = a,
            rwp_encryption_cid = e, rwp_permission_grant_id = g, rwp_delegated_grant_id = d,
            rwp_protocol_role = r\<rparr>)))))))))"

definition decode_jws_payload ::
  "'x pext_scheme \<Rightarrow> (json \<Rightarrow> 'a de) \<Rightarrow> jws \<Rightarrow> (authorization_validation_error, 'a) result" where
  "decode_jws_payload E reader j =
     rbind (ok_or (BadRequest (InvalidSignature JwsMissingPayload)) (jws_payload j)) (\<lambda>payload.
     rbind (ok_or (BadRequest RequestInvalidBase64) (decode_base64url E payload)) (\<lambda>bytes.
     rbind (ok_or (BadRequest SignatureDecodeError) (json_of_bytes E bytes)) (\<lambda>js.
       map_err (\<lambda>_. BadRequest SignatureDecodeError) (reader js))))"

text \<open>A value of a parsed object is the last one under its key.\<close>

definition json_get :: "json \<Rightarrow> string \<Rightarrow> json option" where
  "json_get j key = (case j of JObject kvs \<Rightarrow> map_of (rev kvs) key | _ \<Rightarrow> None)"

definition signer_did_from_jws :: "'x pext_scheme \<Rightarrow> jws \<Rightarrow> (authorization_request_error, string) result" where
  "signer_did_from_jws E j =
     rbind (ok_or SignatureRequired (jws_signatures j)) (\<lambda>signatures.
     rbind (ok_or SignatureRequired
       (case signatures of [] \<Rightarrow> None | s # _ \<Rightarrow> js_protected s)) (\<lambda>protected.
     rbind (ok_or RequestInvalidBase64 (decode_base64url E protected)) (\<lambda>bytes.
     rbind (ok_or SignatureDecodeError (json_of_bytes E bytes)) (\<lambda>header.
       case json_get header ''kid'' of
         Some (JString kid) \<Rightarrow>
           (let did = hd (split_on (CHR ''#'') kid)
            in if did = [] then Inl KidRequired else Inr did)
       | _ \<Rightarrow> Inl KidRequired))))"

section \<open>What a signature commits to\<close>

datatype authorization_payload_kind =
  KindRecordsWritePayload | KindDirect | KindMessageGrantSet | KindNoGrant

fun payload_kind :: "descriptor \<Rightarrow> authorization_payload_kind" where
  "payload_kind (DescriptorRecords (RecordsWrite _)) = KindRecordsWritePayload"
| "payload_kind (DescriptorRecords _) = KindDirect"
| "payload_kind (DescriptorProtocols _) = KindDirect"
| "payload_kind (DescriptorMessages (MessagesSync _)) = KindNoGrant"
| "payload_kind (DescriptorMessages _) = KindMessageGrantSet"

fun invocation_allowed :: "authorization_payload_kind \<Rightarrow> grant_invocation \<Rightarrow> bool" where
  "invocation_allowed KindRecordsWritePayload i = (case i of GrantMulti _ \<Rightarrow> False | _ \<Rightarrow> True)"
| "invocation_allowed KindDirect i = (case i of GrantMulti _ \<Rightarrow> False | _ \<Rightarrow> True)"
| "invocation_allowed KindMessageGrantSet i = (case i of GrantSingle _ \<Rightarrow> False | _ \<Rightarrow> True)"
| "invocation_allowed KindNoGrant i = (i = GrantNone)"

definition validate_invocation_and_kind ::
  "message \<Rightarrow> verified_payload \<Rightarrow> (grant_error, grant_invocation) result" where
  "validate_invocation_and_kind m payload =
     rbind (payload_grant_invocation payload) (\<lambda>i.
       if permission_grant_invocation (msg_descriptor m) \<noteq> i then Inl (grant_bad_request SignatureMismatch)
       else if invocation_allowed (payload_kind (msg_descriptor m)) i then Inr i
       else Inl InvalidDescriptorType)"

definition context_id :: "message \<Rightarrow> string option" where
  "context_id m = (case write_fields m of Inl _ \<Rightarrow> None | Inr f \<Rightarrow> wf_context_id f)"

definition msg_of_write :: "write_message \<Rightarrow> message" where
  "msg_of_write w =
     \<lparr>msg_descriptor = DescriptorRecords (RecordsWrite (wm_descriptor w)), msg_fields = FieldsWrite (wm_fields w)\<rparr>"

definition optional_cid ::
  "('a \<Rightarrow> cid option) \<Rightarrow> 'a option \<Rightarrow> (grant_error, cid option) result" where
  "optional_cid cid_of v =
     (case v of
        None \<Rightarrow> Inr None
      | Some a \<Rightarrow> rbind (ok_or (grant_bad_request (ValidationError ''cid encoding failed'')) (cid_of a))
                    (\<lambda>c. Inr (Some c)))"

definition delegated_grant_cid :: "'x pext_scheme \<Rightarrow> write_message option \<Rightarrow> (grant_error, cid option) result" where
  "delegated_grant_cid E g = optional_cid (\<lambda>w. cid_of_message E (without_encoded_data (msg_of_write w))) g"

definition validate_records_write_payload ::
  "'x pext_scheme \<Rightarrow> message \<Rightarrow> verified_payload \<Rightarrow> (grant_error, unit) result" where
  "validate_records_write_payload E m payload =
     (case payload of
        PayloadGeneric _ \<Rightarrow> Inl (grant_bad_request (ValidationError ''RecordsWrite payload expected''))
      | PayloadRecordsWrite p \<Rightarrow>
          rbind (ok_or (grant_bad_request SignatureMismatch) (context_id m)) (\<lambda>context.
          rbind (ok_or (grant_bad_request SignatureMismatch) (record_id m)) (\<lambda>ident.
            if rwp_context_id p \<noteq> context then Inl (grant_bad_request SignatureMismatch)
            else if rwp_record_id p \<noteq> ident then Inl (grant_bad_request SignatureMismatch)
            else
              rbind (map_err (\<lambda>e. GrantProtocolValidation (WriteFieldsError e)) (write_fields m)) (\<lambda>f.
              rbind (optional_cid (cid_of_jws E) (wf_attestation f)) (\<lambda>attestation_cid.
              rbind (optional_cid (cid_of_envelope E) (wf_encryption f)) (\<lambda>encryption_cid.
                if rwp_attestation_cid p \<noteq> None \<and> rwp_attestation_cid p \<noteq> attestation_cid
                  then Inl (grant_bad_request SignatureMismatch)
                else if rwp_encryption_cid p \<noteq> encryption_cid
                  then Inl (grant_bad_request SignatureMismatch)
                else
                  rbind (delegated_grant_cid E (au_author_delegated_grant (wf_authorization f))) (\<lambda>grant_cid.
                    if rwp_delegated_grant_id p \<noteq> grant_cid
                    then Inl (grant_bad_request SignatureMismatch) else Inr ())))))))"

definition validate_descriptor_cid ::
  "'x pext_scheme \<Rightarrow> message \<Rightarrow> string \<Rightarrow> (authorization_validation_error, unit) result" where
  "validate_descriptor_cid E m c =
     (if c \<noteq> cid_of_descriptor E (msg_descriptor m) then Inl (BadRequest CidMismatch) else Inr ())"

section \<open>The authorization context\<close>

record owner_authorization =
  oa_owner :: string
  oa_signer :: string
  oa_delegated_grant :: "permission_grant option"

record authorization_context =
  ac_signer :: string
  ac_author :: string
  ac_payload :: verified_payload
  ac_permission_grant_invocation :: grant_invocation
  ac_author_delegated_grant :: "permission_grant option"
  ac_owner :: "owner_authorization option"

definition ac_permission_grant_id :: "authorization_context \<Rightarrow> string option" where
  "ac_permission_grant_id ctx =
     (case ac_permission_grant_invocation ctx of GrantSingle i \<Rightarrow> Some i | _ \<Rightarrow> None)"

definition ac_permission_grant_ids :: "authorization_context \<Rightarrow> string list option" where
  "ac_permission_grant_ids ctx =
     (case ac_permission_grant_invocation ctx of GrantMulti is \<Rightarrow> Some is | _ \<Rightarrow> None)"

definition ac_protocol_role :: "authorization_context \<Rightarrow> string option" where
  "ac_protocol_role ctx = payload_protocol_role (ac_payload ctx)"

definition signature_payload ::
  "'x pext_scheme \<Rightarrow> message \<Rightarrow> jws \<Rightarrow> (grant_error, verified_payload) result" where
  "signature_payload E m j =
     (if payload_kind (msg_descriptor m) = KindRecordsWritePayload then
        rbind (map_err GrantInvalid (decode_jws_payload E de_records_write_payload_data j)) (\<lambda>p.
        rbind (map_err GrantInvalid (validate_descriptor_cid E m (rwp_descriptor_cid p))) (\<lambda>_.
        rbind (validate_invocation_and_kind m (PayloadRecordsWrite p)) (\<lambda>_.
        rbind (validate_records_write_payload E m (PayloadRecordsWrite p)) (\<lambda>_.
          Inr (PayloadRecordsWrite p)))))
      else
        rbind (map_err GrantInvalid (decode_jws_payload E de_payload_data j)) (\<lambda>p.
        rbind (map_err GrantInvalid (validate_descriptor_cid E m (apd_descriptor_cid p))) (\<lambda>_.
        rbind (validate_invocation_and_kind m (PayloadGeneric p)) (\<lambda>_.
          Inr (PayloadGeneric p)))))"

definition validate_permission_grant ::
  "message \<Rightarrow> verified_payload \<Rightarrow> (authorization_validation_error, grant_invocation) result" where
  "validate_permission_grant m payload =
     rbind (map_err (\<lambda>_. BadRequest (ValidationError ''invalid grant'')) (payload_grant_invocation payload)) (\<lambda>i.
       if i \<noteq> permission_grant_invocation (msg_descriptor m) then Inl (BadRequest SignatureMismatch) else Inr i)"

text \<open>Without a resolver the signer named by the header is taken as it is.\<close>

definition signer_of :: "'x pext_scheme \<Rightarrow> bool \<Rightarrow> jws \<Rightarrow> (grant_error, string) result" where
  "signer_of E resolver j =
     rbind (map_err grant_bad_request (signer_did_from_jws E j)) (\<lambda>unverified_signer.
       if resolver then
         rbind (map_err (\<lambda>e. grant_bad_request (InvalidSignature e)) (verify_signatures E j)) (\<lambda>signers.
           case signers of [] \<Rightarrow> Inl (grant_bad_request NoSignerFound) | s # _ \<Rightarrow> Inr s)
       else Inr unverified_signer)"

text \<open>
  An embedded grant is itself a signed message. The result of validating that message is the last
  argument; it is consulted only after the grant has been matched with the signed identifier.
\<close>

definition validate_embedded_delegated_grant ::
  "'x pext_scheme \<Rightarrow> delegation_side \<Rightarrow> write_message option \<Rightarrow> string option \<Rightarrow> string
    \<Rightarrow> (grant_error, authorization_context option) result \<Rightarrow> (grant_error, permission_grant option) result" where
  "validate_embedded_delegated_grant E side grant_message signed_grant_id signer verdict =
     (case (grant_message, signed_grant_id) of
        (None, None) \<Rightarrow> Inr None
      | (Some w, Some signed_id) \<Rightarrow>
          rbind (map_err (\<lambda>e. grant_bad_request (ValidationError e)) (message_cid E (msg_of_write w))) (\<lambda>grant_cid.
            if signed_id \<noteq> grant_cid then Inl (grant_bad_request (DelegatedGrantCidMismatch side))
            else
              rbind verdict (\<lambda>ctx.
              rbind (ok_or (grant_bad_request SignatureRequired) ctx) (\<lambda>ctx.
              rbind (parse_permission_grant E (msg_of_write w) (ac_author ctx)) (\<lambda>grant.
                if gr_delegated grant \<noteq> Some True then Inl (grant_bad_request (NotADelegatedGrant side))
                else if gr_grantee grant \<noteq> signer
                  then Inl (grant_bad_request (DelegatedGrantGranteeMismatch side))
                else Inr (Some grant)))))
      | _ \<Rightarrow> Inl (grant_bad_request (DelegatedGrantIdExistenceMismatch side)))"

definition validate_owner_signature ::
  "'x pext_scheme \<Rightarrow> bool \<Rightarrow> message \<Rightarrow> authorization
    \<Rightarrow> (grant_error, authorization_context option) result \<Rightarrow> (grant_error, owner_authorization option) result" where
  "validate_owner_signature E resolver m a verdict =
     (case au_owner_signature a of
        None \<Rightarrow>
          if au_owner_delegated_grant a \<noteq> None
          then Inl (grant_bad_request (DelegatedGrantIdExistenceMismatch DelegationOwner))
          else Inr None
      | Some owner_signature \<Rightarrow>
          rbind (signer_of E resolver owner_signature) (\<lambda>signer.
          rbind (map_err GrantInvalid (decode_jws_payload E de_payload_data owner_signature)) (\<lambda>p.
          rbind (map_err GrantInvalid (validate_descriptor_cid E m (apd_descriptor_cid p))) (\<lambda>_.
          rbind (validate_embedded_delegated_grant E DelegationOwner (au_owner_delegated_grant a)
                   (apd_delegated_grant_id p) signer verdict) (\<lambda>grant.
            Inr (Some \<lparr>oa_owner = (case grant of None \<Rightarrow> signer | Some g \<Rightarrow> gr_grantor g),
                       oa_signer = signer, oa_delegated_grant = grant\<rparr>))))))"

definition msg_authorization :: "message \<Rightarrow> authorization" where
  "msg_authorization m = fields_authorization (msg_fields m)"

lemma nested_grant_smaller:
  "au_author_delegated_grant a = Some w \<Longrightarrow> size (msg_authorization (msg_of_write w)) < size a"
  "au_owner_delegated_grant a = Some w \<Longrightarrow> size (msg_authorization (msg_of_write w)) < size a"
  by (cases a; cases w; cases "wm_fields w"; simp add: msg_authorization_def msg_of_write_def)+

function validate_authorization_signature_inner ::
  "'x pext_scheme \<Rightarrow> bool \<Rightarrow> bool \<Rightarrow> bool \<Rightarrow> message \<Rightarrow> (grant_error, authorization_context option) result" where
  "validate_authorization_signature_inner E resolver required validate_delegated_grant m =
     (let a = msg_authorization m; j = au_signature a in
      if authorization_is_empty a then
        (if required then Inl (grant_bad_request SignatureRequired) else Inr None)
      else if (case jws_signatures j of None \<Rightarrow> 0 | Some ss \<Rightarrow> length ss) \<noteq> 1
        then Inl (grant_bad_request ExpectedOneSignature)
      else
        rbind (signature_payload E m j) (\<lambda>payload.
        rbind (map_err GrantInvalid (validate_permission_grant m payload)) (\<lambda>invocation.
        rbind (signer_of E resolver j) (\<lambda>signer.
        rbind (if validate_delegated_grant then
                 validate_embedded_delegated_grant E DelegationAuthor (au_author_delegated_grant a)
                   (payload_delegated_grant_id payload) signer
                   (case au_author_delegated_grant a of
                      None \<Rightarrow> Inr None
                    | Some w \<Rightarrow>
                        validate_authorization_signature_inner E resolver True False (msg_of_write w))
               else Inr None) (\<lambda>author_delegated_grant.
        rbind (validate_owner_signature E resolver m a
                 (case au_owner_delegated_grant a of
                    None \<Rightarrow> Inr None
                  | Some w \<Rightarrow>
                      validate_authorization_signature_inner E resolver True False (msg_of_write w))) (\<lambda>owner.
          Inr (Some \<lparr>ac_signer = signer,
                     ac_author = (case author_delegated_grant of None \<Rightarrow> signer | Some g \<Rightarrow> gr_grantor g),
                     ac_payload = payload, ac_permission_grant_invocation = invocation,
                     ac_author_delegated_grant = author_delegated_grant, ac_owner = owner\<rparr>)))))))"
  by pat_completeness auto
termination
  by (relation "measure (\<lambda>(_, _, _, _, m). size (msg_authorization m))")
     (auto simp: nested_grant_smaller)

declare validate_authorization_signature_inner.simps [simp del]

definition validate_authorization_signature ::
  "'x pext_scheme \<Rightarrow> bool \<Rightarrow> message \<Rightarrow> bool
    \<Rightarrow> (authorization_validation_error, authorization_context option) result" where
  "validate_authorization_signature E resolver m required =
     map_err (\<lambda>e. case e of GrantInvalid e \<Rightarrow> e | _ \<Rightarrow> BadRequest (ValidationError ''invalid grant''))
       (validate_authorization_signature_inner E resolver required True m)"

section \<open>Lemmas\<close>

text \<open>The single signature of a JWS has been verified against the key of its signer.\<close>

definition signed_by :: "'x pext_scheme \<Rightarrow> jws \<Rightarrow> string \<Rightarrow> bool" where
  "signed_by E j did \<longleftrightarrow>
     (\<exists>payload s input kid key.
        jws_payload j = Some payload \<and> jws_signatures j = Some [s]
        \<and> prepare_verification E payload s = Inr input \<and> vi_kid input = Some kid
        \<and> signing_key E kid = Some key
        \<and> verify_bytes E (vi_algorithm input) (vi_signing_bytes input) (vi_signature input) key = Some True
        \<and> did = extract_did E kid)"

lemma ok_or_Inr [simp]: "ok_or e v = Inr a \<longleftrightarrow> v = Some a"
  by (cases v) auto

lemma verify_signature_Inr:
  "verify_signature E payload s = Inr did \<longleftrightarrow>
     (\<exists>input kid key. prepare_verification E payload s = Inr input \<and> vi_kid input = Some kid
        \<and> signing_key E kid = Some key
        \<and> verify_bytes E (vi_algorithm input) (vi_signing_bytes input) (vi_signature input) key = Some True
        \<and> did = extract_did E kid)"
  by (auto simp: verify_signature_def rbind_Inr_iff split: if_splits)

lemma signer_of_signed_by:
  assumes "signer_of E True j = Inr did" and "jws_signatures j = Some [s]"
  shows "signed_by E j did"
proof -
  from assms(1) obtain signers where signers: "verify_signatures E j = Inr (did # signers)"
    by (auto simp: signer_of_def rbind_Inr_iff neq_Nil_conv split: list.split_asm)
  then obtain payload where "jws_payload j = Some payload" "verify_signature E payload s = Inr did"
    using assms(2) by (auto simp: verify_signatures_def rbind_Inr_iff)
  then show ?thesis using assms(2) by (auto simp: signed_by_def verify_signature_Inr)
qed

lemma embedded_grant_bound:
  assumes "validate_embedded_delegated_grant E side gm signed_grant_id signer verdict = Inr grant"
  shows "(gm = None \<longleftrightarrow> grant = None) \<and> (gm = None \<longleftrightarrow> signed_grant_id = None) \<and>
    (\<forall>w g. gm = Some w \<longrightarrow> grant = Some g \<longrightarrow>
       (\<exists>c ctx. signed_grant_id = Some c \<and> message_cid E (msg_of_write w) = Inr c \<and> verdict = Inr (Some ctx)
          \<and> parse_permission_grant E (msg_of_write w) (ac_author ctx) = Inr g
          \<and> gr_delegated g = Some True \<and> gr_grantee g = signer))"
  using assms
  by (auto simp: validate_embedded_delegated_grant_def rbind_Inr_iff split: option.splits if_splits)

lemma parse_permission_grant_grantor:
  "parse_permission_grant E m grantor = Inr g \<Longrightarrow> gr_grantor g = grantor"
  by (auto simp: parse_permission_grant_def rbind_Inr_iff split: if_splits)

lemma inner_accepts:
  assumes "validate_authorization_signature_inner E resolver required delegated m = Inr (Some ctx)"
  shows "\<not> authorization_is_empty (msg_authorization m)
    \<and> (\<exists>s. jws_signatures (au_signature (msg_authorization m)) = Some [s])
    \<and> signature_payload E m (au_signature (msg_authorization m)) = Inr (ac_payload ctx)
    \<and> validate_permission_grant m (ac_payload ctx) = Inr (ac_permission_grant_invocation ctx)
    \<and> signer_of E resolver (au_signature (msg_authorization m)) = Inr (ac_signer ctx)
    \<and> ac_author ctx = (case ac_author_delegated_grant ctx of None \<Rightarrow> ac_signer ctx | Some g \<Rightarrow> gr_grantor g)
    \<and> (if delegated then
        validate_embedded_delegated_grant E DelegationAuthor (au_author_delegated_grant (msg_authorization m))
          (payload_delegated_grant_id (ac_payload ctx)) (ac_signer ctx)
          (case au_author_delegated_grant (msg_authorization m) of None \<Rightarrow> Inr None
             | Some w \<Rightarrow> validate_authorization_signature_inner E resolver True False (msg_of_write w))
        = Inr (ac_author_delegated_grant ctx)
       else ac_author_delegated_grant ctx = None)
    \<and> validate_owner_signature E resolver m (msg_authorization m)
        (case au_owner_delegated_grant (msg_authorization m) of None \<Rightarrow> Inr None
           | Some w \<Rightarrow> validate_authorization_signature_inner E resolver True False (msg_of_write w))
      = Inr (ac_owner ctx)"
proof -
  note run = assms [unfolded validate_authorization_signature_inner.simps
      [of E resolver required delegated m] Let_def]
  have full: "\<not> authorization_is_empty (msg_authorization m)"
    using run by (auto split: if_splits)
  have one: "(case jws_signatures (au_signature (msg_authorization m)) of None \<Rightarrow> 0 | Some ss \<Rightarrow> length ss) = 1"
    using run full by (auto split: if_splits)
  have single: "\<exists>s. jws_signatures (au_signature (msg_authorization m)) = Some [s]"
    using one by (auto simp: length_Suc_conv split: option.splits)
  show ?thesis
    using run full one single by (simp only: if_not_P if_P rbind_Inr_iff simp_thms) (auto split: if_splits option.split)
qed

lemma signature_payload_commits:
  assumes "signature_payload E m j = Inr p"
  shows "payload_descriptor_cid p = cid_of_descriptor E (msg_descriptor m)
    \<and> (\<exists>i. validate_invocation_and_kind m p = Inr i)
    \<and> (payload_kind (msg_descriptor m) = KindRecordsWritePayload \<longrightarrow> validate_records_write_payload E m p = Inr ())"
  using assms
  by (auto simp: signature_payload_def rbind_Inr_iff validate_descriptor_cid_def split: if_splits)

lemma records_write_payload_binds:
  assumes "validate_records_write_payload E m payload = Inr ()"
  shows "\<exists>p f. payload = PayloadRecordsWrite p \<and> write_fields m = Inr f
    \<and> wf_record_id f = Some (rwp_record_id p) \<and> wf_context_id f = Some (rwp_context_id p)
    \<and> optional_cid (cid_of_envelope E) (wf_encryption f) = Inr (rwp_encryption_cid p)
    \<and> delegated_grant_cid E (au_author_delegated_grant (msg_authorization m)) = Inr (rwp_delegated_grant_id p)"
proof -
  from assms obtain p where p: "payload = PayloadRecordsWrite p"
    by (cases payload) (auto simp: validate_records_write_payload_def)
  from assms obtain f where f: "write_fields m = Inr f"
    by (auto simp: validate_records_write_payload_def p rbind_Inr_iff split: if_splits)
  have "wf_authorization f = msg_authorization m"
    using f by (auto simp: write_fields_def msg_authorization_def split: fields.splits)
  then show ?thesis
    using assms f
    by (auto simp: validate_records_write_payload_def p rbind_Inr_iff context_id_def record_id_def
        split: if_splits)
qed

text \<open>The author of a grant message that was accepted without delegation is its verified signer.\<close>

lemma grant_message_signed:
  assumes "validate_authorization_signature_inner E True True False m = Inr (Some ctx)"
  shows "signed_by E (au_signature (msg_authorization m)) (ac_author ctx)"
  using inner_accepts [OF assms, simplified] signer_of_signed_by by auto

lemma delegated_author:
  assumes "validate_embedded_delegated_grant E DelegationAuthor (au_author_delegated_grant a)
      (payload_delegated_grant_id payload) signer
      (case au_author_delegated_grant a of None \<Rightarrow> Inr None
         | Some w \<Rightarrow> validate_authorization_signature_inner E True True False (msg_of_write w))
    = Inr (ac_author_delegated_grant ctx)"
    and "ac_author ctx = (case ac_author_delegated_grant ctx of None \<Rightarrow> signer | Some g \<Rightarrow> gr_grantor g)"
  shows "case au_author_delegated_grant a of
       None \<Rightarrow> ac_author ctx = signer \<and> ac_author_delegated_grant ctx = None
     | Some w \<Rightarrow>
         (\<exists>g c. ac_author_delegated_grant ctx = Some g \<and> ac_author ctx = gr_grantor g
            \<and> parse_permission_grant E (msg_of_write w) (gr_grantor g) = Inr g
            \<and> signed_by E (au_signature (msg_authorization (msg_of_write w))) (gr_grantor g)
            \<and> message_cid E (msg_of_write w) = Inr c \<and> payload_delegated_grant_id payload = Some c
            \<and> gr_delegated g = Some True \<and> gr_grantee g = signer)"
proof (cases "au_author_delegated_grant a")
  case None
  then show ?thesis using embedded_grant_bound [OF assms(1)] assms(2) by simp
next
  case (Some w)
  then obtain g where g: "ac_author_delegated_grant ctx = Some g"
    using embedded_grant_bound [OF assms(1)] by auto
  from embedded_grant_bound [OF assms(1)] Some g obtain c gctx where
    bound: "payload_delegated_grant_id payload = Some c" "message_cid E (msg_of_write w) = Inr c"
      "validate_authorization_signature_inner E True True False (msg_of_write w) = Inr (Some gctx)"
      "parse_permission_grant E (msg_of_write w) (ac_author gctx) = Inr g"
      "gr_delegated g = Some True" "gr_grantee g = signer"
    by auto
  have "gr_grantor g = ac_author gctx" using bound(4) by (rule parse_permission_grant_grantor)
  then show ?thesis using Some g bound assms(2) grant_message_signed [OF bound(3)] by simp
qed

section \<open>Properties\<close>


text \<open>
  Samples. Encoded texts are their own decoding; a text is read as a header, a payload or grant data
  according to its first letter, a descriptor's CID is always the same, and every key verifies.
\<close>

definition plain_json :: "string \<Rightarrow> json option" where
  "plain_json s =
     (case s of
        [] \<Rightarrow> None
      | c # rest \<Rightarrow>
          if c = CHR ''k'' then Some (JObject [(''kid'', JString rest), (''alg'', JString ''EdDSA'')])
          else if c = CHR ''g'' then Some (JObject ((''descriptorCid'', JString ''bafyd'')
            # (if rest = [] then [] else [(''delegatedGrantId'', JString rest)])))
          else if c = CHR ''w'' then Some (JObject [(''descriptorCid'', JString ''bafyd''),
            (''recordId'', JString rest), (''contextId'', JString rest)])
          else if c = CHR ''d'' then Some (JObject [(''dateExpires'', JString ''@100''),
            (''scope'', JObject [(''interface'', JString ''Messages''), (''method'', JString ''Read''),
               (''protocol'', JString rest)]),
            (''delegated'', JBool True)])
          else None)"

definition plain_pext :: pext where
  "plain_pext = mext.extend plain_mext
     \<lparr>decode_base64url = (\<lambda>s. Some (as_bytes s)),
      json_of_bytes = (\<lambda>bytes. plain_json (map (\<lambda>b. char_of (unat b)) bytes)),
      parse_datetime = parse_rfc3339 plain_ext,
      cid_of_descriptor = (\<lambda>_. ''bafyd''),
      cid_of_jws = (\<lambda>_. Some ''bafyj''), cid_of_envelope = (\<lambda>_. Some ''bafye''),
      parse_algorithm = Some, signing_key = Some, verify_bytes = (\<lambda>_ _ _ _. Some True),
      did_of_url = (\<lambda>kid. Some (hd (split_on (CHR ''#'') kid)))\<rparr>"

lemma as_bytes_chars [simp]: "map (\<lambda>b. char_of (unat b)) (as_bytes s) = s"
proof (induction s)
  case (Cons c s)
  have "(of_char c :: nat) < 256" by (rule nat_of_char_less_256)
  then have "unat (of_nat (of_char c) :: u8) = of_char c" by (simp add: unat_of_nat)
  moreover have "of_nat (of_char c) = (of_char c :: u8)" by (cases c) (simp add: of_char_def)
  ultimately have "unat (of_char c :: u8) = of_char c" by simp
  then show ?case using Cons by (simp add: as_bytes_def)
qed (simp add: as_bytes_def)

definition sample_jws :: "string \<Rightarrow> string \<Rightarrow> jws" where
  "sample_jws kid payload = jws_default\<lparr>jws_payload := Some payload,
     jws_signatures := Some [\<lparr>js_protected = Some (CHR ''k'' # kid), js_signature = Some ''s'', js_extra = []\<rparr>]\<rparr>"

definition sample_grant :: write_message where
  "sample_grant = WriteMessage
     \<lparr>wd_protocol = permissions_protocol_uri, wd_protocol_path = permissions_grant_path,
      wd_recipient = Some ''did:bob'', wd_schema = None, wd_tags = None, wd_parent_id = None,
      wd_data_cid = ''bafydata'', wd_data_size = 2, wd_date_created = 1, wd_message_timestamp = 1,
      wd_published = None, wd_date_published = None, wd_data_format = ''application/json'',
      wd_permission_grant_id = None, wd_squash = None\<rparr>
     (WriteFields (Authorization (sample_jws ''did:alice#1'' ''wr1'') None None None)
        (Some ''r1'') (Some ''r1'') None None (Some ''dhttps://notes''))"

definition sample_query :: message where
  "sample_query =
     \<lparr>msg_descriptor = DescriptorMessages (MessagesQuery \<lparr>mqd_message_timestamp = 5, mqd_filters = [],
        mqd_permission_grant_ids = None, mqd_cursor = None, mqd_limit = None, mqd_cids_only = None\<rparr>),
      msg_fields = FieldsAuthorization (Authorization
        (sample_jws ''did:bob#1'' ''gbafyRecordsWrite1'') (Some sample_grant) None None)\<rparr>"

lemmas plain_pext_simps = plain_pext_def plain_mext_def plain_ext_def mext.defs ext.defs

lemma sample_query_accepted:
  "case validate_authorization_signature plain_pext True sample_query True of
     Inr (Some ctx) \<Rightarrow> ac_signer ctx = ''did:bob'' \<and> ac_author ctx = ''did:alice''
   | _ \<Rightarrow> False"
  by code_simp


fun set_attestation :: "jws option \<Rightarrow> write_fields \<Rightarrow> write_fields" where
  "set_attestation t (WriteFields a r c e _ d) = WriteFields a r c e t d"

fun set_encryption :: "encryption_envelope option \<Rightarrow> write_fields \<Rightarrow> write_fields" where
  "set_encryption e (WriteFields a r c _ t d) = WriteFields a r c e t d"

definition update_fields :: "(write_fields \<Rightarrow> write_fields) \<Rightarrow> message \<Rightarrow> message" where
  "update_fields g m = m\<lparr>msg_fields := update_write_fields g (msg_fields m)\<rparr>"

lemma write_fields_update:
  "write_fields (update_fields g m) = (case write_fields m of Inl e \<Rightarrow> Inl e | Inr f \<Rightarrow> Inr (g f))"
proof (cases "msg_fields m")
  case (FieldsInitialWrite f)
  then show ?thesis by (cases f) (simp add: write_fields_def update_fields_def)
qed (simp_all add: write_fields_def update_fields_def)

text \<open>
  C32: the signature of a RecordsWrite does not cover an attestation it does not mention. Against a
  payload without an attestation CID, a message with any attestation that has a CID is judged as the
  message without one, so an attestation attached after signing is let through; an encryption
  envelope attached after signing is refused.
\<close>

theorem unsigned_attestation_passes:
  assumes "rwp_attestation_cid p = None" and "rwp_encryption_cid p = None"
    and "cid_of_jws E t \<noteq> None"
  shows "validate_records_write_payload E (update_fields (set_attestation (Some t)) m) (PayloadRecordsWrite p)
       = validate_records_write_payload E (update_fields (set_attestation None) m) (PayloadRecordsWrite p)
    \<and> validate_records_write_payload E (update_fields (set_encryption (Some e)) m) (PayloadRecordsWrite p) \<noteq> Inr ()"
proof (cases "write_fields m")
  case (Inl err)
  then show ?thesis
    by (simp add: validate_records_write_payload_def write_fields_update context_id_def record_id_def)
next
  case (Inr f)
  then show ?thesis
    using assms
    by (cases f) (auto simp: validate_records_write_payload_def write_fields_update context_id_def
        record_id_def optional_cid_def rbind_Inr_iff cong: if_cong split: option.splits)
qed

theorem unsigned_attestation_passes_witness:
  "validate_records_write_payload plain_pext (update_fields (set_attestation (Some jws_default)) (msg_of_write sample_grant))
     (PayloadRecordsWrite \<lparr>rwp_descriptor_cid = ''bafyd'', rwp_record_id = ''r1'', rwp_context_id = ''r1'',
        rwp_attestation_cid = None, rwp_encryption_cid = None, rwp_permission_grant_id = None,
        rwp_delegated_grant_id = None, rwp_protocol_role = None\<rparr>) = Inr ()"
proof -
  let ?p = "\<lparr>rwp_descriptor_cid = ''bafyd'', rwp_record_id = ''r1'', rwp_context_id = ''r1'',
        rwp_attestation_cid = None, rwp_encryption_cid = None, rwp_permission_grant_id = None,
        rwp_delegated_grant_id = None, rwp_protocol_role = None\<rparr>"
  have "cid_of_jws plain_pext jws_default \<noteq> None" by (simp add: plain_pext_simps)
  moreover have "validate_records_write_payload plain_pext
      (update_fields (set_attestation None) (msg_of_write sample_grant)) (PayloadRecordsWrite ?p) = Inr ()"
    by code_simp
  ultimately show ?thesis
    using unsigned_attestation_passes [of ?p plain_pext jws_default "msg_of_write sample_grant"] by simp
qed

end
