(* ===== verification/StoreOperations.thy ===== *)
theory StoreOperations
  imports StoreInvariant
begin

text \<open>
  What the mutating operations of the message store do: lookups after put and delete, the
  effect of an atomic latest-state commit, the permanence of feed positions, and fingerprints as
  a function of the set of live messages.
\<close>

section \<open>Lookups\<close>

lemma store_get_alt: "store_get t c s = map_option mr_message (bt_get (ms_messages s) (t, c))"
proof -
  have "map_option (\<lambda>(_, row). mr_message row) (find (\<lambda>((rt, rc), _). rt = t \<and> rc = c) m)
      = map_option mr_message (bt_get m (t, c))" for m :: "(string \<times> string, message_row) btree"
    by (induction m) (auto simp: bt_get_Cons split: if_splits)
  then show ?thesis by (simp add: store_get_def)
qed

definition cid_key :: "'x mext_scheme \<Rightarrow> message \<Rightarrow> string" where
  "cid_key E m = (case message_cid E m of Inl _ \<Rightarrow> [] | Inr c \<Rightarrow> c)"

definition row_of :: "'x mext_scheme \<Rightarrow> latest_state_mutation \<Rightarrow> message_row" where
  "row_of E mu = \<lparr>mr_cid = cid_key E (lm_message mu), mr_message = lm_message mu, mr_indexes = lm_indexes mu\<rparr>"

lemma put_look:
  assumes "put_message_state E t mu s = Inr (s', w)"
  shows "bt_get (ms_messages s') k =
    (if k = (t, cid_key E (lm_message mu)) then Some (row_of E mu) else bt_get (ms_messages s) k)"
  using assms by (cases rule: put_cases) (simp_all add: cid_key_def row_of_def bt_get_insert)

lemma delete_look:
  assumes "delete_message_state E t c s = Inr s'"
  shows "bt_get (ms_messages s') k = (if k = (t, c) then None else bt_get (ms_messages s) k)"
  using assms by (cases rule: delete_cases) (simp_all add: bt_get_remove)

lemma retain_cases:
  assumes "retain_message E t mu s = Inr s'"
  obtains w where "put_message_state E t mu s = Inr (s', w)"
    and "bt_contains (ms_messages s) (t, cid_key E (lm_message mu))"
  using assms by (auto simp: retain_message_def rbind_Inr_iff store_cid_Inr cid_key_def split: if_splits)

interpretation retains: keyed_update "\<lambda>s. bt_get (ms_messages s)" "retain_message E t"
  "\<lambda>mu. (t, cid_key E (lm_message mu))" "\<lambda>mu. Some (row_of E mu)" for E :: "'x mext_scheme" and t
  by unfold_locales (erule retain_cases, rule put_look)

interpretation deletes: keyed_update "\<lambda>s. bt_get (ms_messages s)" "delete_message_state E t"
  "\<lambda>c. (t, c)" "\<lambda>_. None" for E :: "'x mext_scheme" and t
  by unfold_locales (rule delete_look)

section \<open>Valid transitions name distinct messages\<close>

lemma insert_fresh_Inr: "insert_fresh c m = Inr m' \<longleftrightarrow> c \<notin> set m \<and> m' = bs_insert c m"
  by (auto simp: insert_fresh_def)

lemma insert_fresh_loop:
  "try_fold insert_fresh cs m = Inr m' \<Longrightarrow>
     distinct cs \<and> set cs \<inter> set m = {} \<and> set m' = set m \<union> set cs"
proof (induction cs arbitrary: m)
  case (Cons c cs)
  then have "c \<notin> set m" and "try_fold insert_fresh cs (bs_insert c m) = Inr m'"
    by (auto simp: rbind_Inr_iff insert_fresh_Inr)
  with Cons.IH [of "bs_insert c m"] show ?case by auto
qed simp

lemma insert_retained_loop:
  "try_fold (\<lambda>mu m. rbind (store_cid E (lm_message mu)) (\<lambda>c. insert_fresh c m)) mus m = Inr m' \<Longrightarrow>
     (\<forall>mu \<in> set mus. is_ok (message_cid E (lm_message mu)))
     \<and> try_fold insert_fresh (map (\<lambda>mu. cid_key E (lm_message mu)) mus) m = Inr m'"
proof (induction mus arbitrary: m)
  case (Cons mu mus)
  then obtain c m1 where "message_cid E (lm_message mu) = Inr c" "insert_fresh c m = Inr m1"
    "try_fold (\<lambda>mu m. rbind (store_cid E (lm_message mu)) (\<lambda>c. insert_fresh c m)) mus m1 = Inr m'"
    by (auto simp: rbind_Inr_iff store_cid_Inr)
  with Cons.IH [of m1] show ?case by (simp add: cid_key_def)
qed simp

lemma transition_validate_distinct:
  assumes "transition_validate E tr = Inr ()"
  shows "message_cid E (lm_message (lt_put tr)) = Inr (cid_key E (lm_message (lt_put tr)))"
    and "\<forall>mu \<in> set (lt_retains tr). is_ok (message_cid E (lm_message mu))"
    and "distinct (cid_key E (lm_message (lt_put tr))
           # map (\<lambda>mu. cid_key E (lm_message mu)) (lt_retains tr) @ lt_deletes tr)"
proof -
  from assms obtain c m1 m2 where c: "message_cid E (lm_message (lt_put tr)) = Inr c"
    and r: "try_fold (\<lambda>mu m. rbind (store_cid E (lm_message mu)) (\<lambda>c. insert_fresh c m)) (lt_retains tr) [c] = Inr m1"
    and d: "try_fold insert_fresh (lt_deletes tr) m1 = Inr m2"
    by (auto simp: transition_validate_def rbind_Inr_iff store_cid_Inr)
  show "message_cid E (lm_message (lt_put tr)) = Inr (cid_key E (lm_message (lt_put tr)))"
    using c by (simp add: cid_key_def)
  show "\<forall>mu \<in> set (lt_retains tr). is_ok (message_cid E (lm_message mu))"
    using insert_retained_loop [OF r] by blast
  show "distinct (cid_key E (lm_message (lt_put tr))
           # map (\<lambda>mu. cid_key E (lm_message mu)) (lt_retains tr) @ lt_deletes tr)"
    using insert_fresh_loop [OF insert_retained_loop [OF r, THEN conjunct2]] insert_fresh_loop [OF d] c
    by (auto simp: cid_key_def)
qed

lemma commit_parts:
  assumes "commit_latest_state E t tr s = Inr (s', w, pos)"
  obtains s1 s2 where "transition_validate E tr = Inr ()"
    and "put_message_state E t (lt_put tr) s = Inr (s1, w)"
    and "try_fold (retain_message E t) (lt_retains tr) s1 = Inr s2"
    and "try_fold (delete_message_state E t) (lt_deletes tr) s2 = Inr s'"
    and "pos = map_option (\<lambda>p. build_token E t (ms_epoch s') p (Some (cid_key E (lm_message (lt_put tr)))))
           (bt_get (ms_positions_by_cid s') (t, cid_key E (lm_message (lt_put tr))))"
  using assms by (auto simp: commit_latest_state_def rbind_Inr_iff Let_def store_cid_Inr cid_key_def)

text \<open>The rows after a commit: the new winner, what it retains, and what it leaves alone.\<close>

lemma commit_rows:
  assumes "commit_latest_state E t tr s = Inr (s', w, pos)"
  shows "bt_get (ms_messages s') (t, cid_key E (lm_message (lt_put tr))) = Some (row_of E (lt_put tr))"
    and "mu \<in> set (lt_retains tr) \<Longrightarrow> bt_get (ms_messages s') (t, cid_key E (lm_message mu)) = Some (row_of E mu)"
    and "c \<in> set (lt_deletes tr) \<Longrightarrow> bt_get (ms_messages s') (t, c) = None"
    and "k \<noteq> (t, cid_key E (lm_message (lt_put tr))) \<Longrightarrow>
      k \<notin> (\<lambda>mu. (t, cid_key E (lm_message mu))) ` set (lt_retains tr) \<Longrightarrow> k \<notin> Pair t ` set (lt_deletes tr) \<Longrightarrow>
      bt_get (ms_messages s') k = bt_get (ms_messages s) k"
proof -
  let ?key = "\<lambda>mu. (t, cid_key E (lm_message mu))"
  obtain s1 s2 where val: "transition_validate E tr = Inr ()"
    and put: "put_message_state E t (lt_put tr) s = Inr (s1, w)"
    and ret: "try_fold (retain_message E t) (lt_retains tr) s1 = Inr s2"
    and del: "try_fold (delete_message_state E t) (lt_deletes tr) s2 = Inr s'"
    by (rule commit_parts [OF assms])
  have dist: "distinct (cid_key E (lm_message (lt_put tr))
      # map (\<lambda>mu. cid_key E (lm_message mu)) (lt_retains tr) @ lt_deletes tr)"
    by (rule transition_validate_distinct(3) [OF val])
  have kd: "distinct (map ?key (lt_retains tr))" "distinct (map (Pair t) (lt_deletes tr))"
    using dist by (auto simp: distinct_map inj_on_def)
  note put_l = put_look [OF put]
  note ret_u = retains.loop_untouched [OF ret] and ret_s = retains.loop_stored [OF ret kd(1)]
  note del_u = deletes.loop_untouched [OF del] and del_s = deletes.loop_stored [OF del kd(2)]
  show "bt_get (ms_messages s') (?key (lt_put tr)) = Some (row_of E (lt_put tr))"
  proof -
    have "?key (lt_put tr) \<notin> ?key ` set (lt_retains tr)" and "?key (lt_put tr) \<notin> Pair t ` set (lt_deletes tr)"
      using dist by auto
    then show ?thesis using del_u ret_u put_l by simp
  qed
  show "bt_get (ms_messages s') (?key mu) = Some (row_of E mu)" if mu: "mu \<in> set (lt_retains tr)"
  proof -
    have "cid_key E (lm_message mu) \<notin> set (lt_deletes tr)"
      using dist imageI [OF mu, of "\<lambda>mu. cid_key E (lm_message mu)"] by auto
    then have "?key mu \<notin> Pair t ` set (lt_deletes tr)" by auto
    then show ?thesis using del_u [of "?key mu"] ret_s [OF mu] by simp
  qed
  show "bt_get (ms_messages s') (t, c) = None" if "c \<in> set (lt_deletes tr)"
    using del_s [OF that] by simp
  show "bt_get (ms_messages s') k = bt_get (ms_messages s) k"
    if "k \<noteq> ?key (lt_put tr)" "k \<notin> ?key ` set (lt_retains tr)" "k \<notin> Pair t ` set (lt_deletes tr)"
    using that del_u [of k] ret_u [of k] put_l [of k] by simp
qed

lemma commit_retained_existed:
  assumes "commit_latest_state E t tr s = Inr (s', w, pos)" and mu: "mu \<in> set (lt_retains tr)"
  shows "bt_get (ms_messages s) (t, cid_key E (lm_message mu)) \<noteq> None"
proof -
  let ?key = "\<lambda>mu. (t, cid_key E (lm_message mu))"
  obtain s1 s2 where val: "transition_validate E tr = Inr ()"
    and put: "put_message_state E t (lt_put tr) s = Inr (s1, w)"
    and ret: "try_fold (retain_message E t) (lt_retains tr) s1 = Inr s2"
    by (rule commit_parts [OF assms(1)])
  have dist: "distinct (cid_key E (lm_message (lt_put tr)) # map (\<lambda>mu. cid_key E (lm_message mu)) (lt_retains tr))"
    using transition_validate_distinct(3) [OF val] by simp
  obtain xs ys where split: "lt_retains tr = xs @ mu # ys" using mu by (meson split_list)
  have "?key mu \<notin> ?key ` set xs" using dist by (auto simp: split)
  then obtain u u' where step: "retain_message E t mu u = Inr u'"
    and same: "bt_get (ms_messages u) (?key mu) = bt_get (ms_messages s1) (?key mu)"
    using retains.loop_prefix [of E t xs mu ys s1 s2] ret split by metis
  have "bt_contains (ms_messages u) (?key mu)" by (rule retain_cases [OF step])
  moreover have "cid_key E (lm_message mu) \<noteq> cid_key E (lm_message (lt_put tr))" using dist split by auto
  ultimately show ?thesis using same put_look [OF put, of "?key mu"] by (simp add: bt_contains_def)
qed

section \<open>Feed positions\<close>

text \<open>
  The feed of \<open>s'\<close> extends that of \<open>s\<close>: heads only grow, and an entry at a position that was
  already allocated is the entry that was there.
\<close>

definition feed_extends :: "memory_message_state \<Rightarrow> memory_message_state \<Rightarrow> bool" where
  "feed_extends s s' \<longleftrightarrow> ms_epoch s' = ms_epoch s \<and> (\<forall>t. head_of s t \<le> head_of s' t)
     \<and> (\<forall>t p e. bt_get (ms_entries s') (t, p) = Some e \<longrightarrow> p \<le> head_of s t \<longrightarrow>
          (\<exists>e0. bt_get (ms_entries s) (t, p) = Some e0 \<and> fe_message_cid e0 = fe_message_cid e))"

lemma feed_extends_refl: "feed_extends s s"
  by (simp add: feed_extends_def)

lemma feed_extends_trans:
  assumes "feed_extends s s'" and "feed_extends s' s''"
  shows "feed_extends s s''"
proof -
  have heads: "head_of s t \<le> head_of s' t" "head_of s' t \<le> head_of s'' t" for t
    using assms by (simp_all add: feed_extends_def)
  have "\<exists>e0. bt_get (ms_entries s) (t, p) = Some e0 \<and> fe_message_cid e0 = fe_message_cid e"
    if e: "bt_get (ms_entries s'') (t, p) = Some e" and p: "p \<le> head_of s t" for t p e
  proof -
    have "p \<le> head_of s' t" using p heads(1) by (rule order_trans)
    then obtain e1 where "bt_get (ms_entries s') (t, p) = Some e1" "fe_message_cid e1 = fe_message_cid e"
      using e assms(2) unfolding feed_extends_def by blast
    with p assms(1) show ?thesis unfolding feed_extends_def by metis
  qed
  moreover have "ms_epoch s'' = ms_epoch s" using assms by (simp add: feed_extends_def)
  ultimately show ?thesis
    using order_trans [OF heads] by (simp add: feed_extends_def)
qed

lemma put_extends:
  assumes "put_message_state E t mu s = Inr (s', w)"
  shows "feed_extends s s'"
  using assms
proof (cases rule: put_cases)
  case (row c)
  then show ?thesis by (simp add: feed_extends_def head_of_def)
next
  case (replace c p e)
  then show ?thesis by (auto simp: feed_extends_def head_of_def bt_get_insert)
next
  case (append c p)
  have head: "head_of s' t' = (if t' = t then p else head_of s t')" for t'
    by (simp add: append head_of_def bt_get_or_def bt_get_insert)
  have "\<not> p \<le> head_of s t" using next_position(2) [OF append(4)] by simp
  then show ?thesis
    using next_position(2) [OF append(4)] unfolding feed_extends_def head
    by (auto simp: append(5) bt_get_insert split: if_splits)
qed

lemma delete_extends:
  assumes "delete_message_state E t c s = Inr s'"
  shows "feed_extends s s'"
  using assms
  by (cases rule: delete_cases) (auto simp: feed_extends_def head_of_def bt_get_remove split: if_splits)

lemma commit_extends:
  assumes "commit_latest_state E t tr s = Inr (s', w, pos)"
  shows "feed_extends s s'"
proof -
  obtain s1 s2 where put: "put_message_state E t (lt_put tr) s = Inr (s1, w)"
    and ret: "try_fold (retain_message E t) (lt_retains tr) s1 = Inr s2"
    and del: "try_fold (delete_message_state E t) (lt_deletes tr) s2 = Inr s'"
    by (rule commit_parts [OF assms])
  have "feed_extends s s2"
    using ret put_extends [OF put]
    by (rule try_fold_invariant) (auto elim!: retain_cases intro: feed_extends_trans put_extends)
  with del show ?thesis
    by (rule try_fold_invariant) (auto intro: feed_extends_trans delete_extends)
qed

section \<open>Fingerprints\<close>

lemma distinct_live_cids:
  assumes "feed_ok s"
  shows "distinct (live_cids s t scope)"
proof -
  have sorted: "bt_sorted (ms_entries s)" using assms by (simp add: feed_ok_def)
  let ?live = "filter (\<lambda>kv. fst (fst kv) = t \<and> scope \<in> set (fe_fingerprint_scopes (snd kv))) (ms_entries s)"
  have at: "bt_get (ms_entries s) (t, snd (fst z)) = Some (snd z)"
    "bt_get (ms_positions_by_cid s) (t, fe_message_cid (snd z)) = Some (snd (fst z))"
    if "z \<in> set ?live" for z
  proof -
    from that have t: "fst (fst z) = t" and z: "z \<in> set (ms_entries s)" by auto
    show e: "bt_get (ms_entries s) (t, snd (fst z)) = Some (snd z)"
      using bt_get_iff_in [OF sorted, of "fst z" "snd z"] z t by (cases z; cases "fst z") simp
    show "bt_get (ms_positions_by_cid s) (t, fe_message_cid (snd z)) = Some (snd (fst z))"
      using feed_ok_entry [OF assms e] by (simp add: entry_ok_def)
  qed
  have "inj_on (\<lambda>kv. fe_message_cid (snd kv)) (set ?live)"
  proof (rule inj_onI)
    fix x y assume x: "x \<in> set ?live" and y: "y \<in> set ?live"
      and same: "fe_message_cid (snd x) = fe_message_cid (snd y)"
    have "snd (fst x) = snd (fst y)" using at(2) [OF x] at(2) [OF y] same by simp
    moreover have "fst (fst x) = fst (fst y)" using x y by simp
    moreover have "snd x = snd y" using at(1) [OF x] at(1) [OF y] calculation(1) by simp
    ultimately show "x = y" by (simp add: prod_eq_iff)
  qed
  moreover have "distinct ?live"
    using bt_sorted_distinct [OF sorted] by (simp add: distinct_map)
  ultimately show ?thesis by (simp add: live_cids_def distinct_map)
qed

lemma xor_over_same_set:
  "distinct xs \<Longrightarrow> distinct ys \<Longrightarrow> set xs = set ys \<Longrightarrow> xor_over g xs = xor_over g ys"
  by (intro xor_over_perm) (simp add: set_eq_iff_mset_eq_distinct)

lemma store_fingerprint_scopes:
  "store_fingerprint t scopes s =
     xor_over (\<lambda>scope. bt_get_or 0 (ms_fingerprints s) (t, scope)) (normalize_scopes scopes)"
proof -
  have "foldl (\<lambda>fp scope. case bt_get (ms_fingerprints s) (t, scope) of
      None \<Rightarrow> fp | Some f \<Rightarrow> xor_in_place fp f) acc xs
    = acc XOR xor_over (\<lambda>scope. bt_get_or 0 (ms_fingerprints s) (t, scope)) xs" for acc xs
    by (induction xs arbitrary: acc)
       (auto simp: xor_in_place_def bt_get_or_def xor.assoc split: option.splits)
  from this [of 0] show ?thesis by (simp add: store_fingerprint_def)
qed

section \<open>Properties\<close>

text \<open>
  C3: an accepted latest-state transition is applied as a whole. After the commit the new
  winner is stored; every retained message existed before and is stored in its new form; every
  deleted CID is gone; and every other message of every tenant is untouched.
\<close>

theorem commit_applies_transition:
  assumes "commit_latest_state E t tr s = Inr (s', w, pos)"
  shows "store_get t (cid_key E (lm_message (lt_put tr))) s' = Some (lm_message (lt_put tr))
    \<and> (\<forall>mu \<in> set (lt_retains tr).
          store_get t (cid_key E (lm_message mu)) s \<noteq> None
          \<and> store_get t (cid_key E (lm_message mu)) s' = Some (lm_message mu))
    \<and> (\<forall>c \<in> set (lt_deletes tr). store_get t c s' = None)
    \<and> (\<forall>t' c. t' \<noteq> t \<or> c \<noteq> cid_key E (lm_message (lt_put tr))
                 \<and> c \<notin> (\<lambda>mu. cid_key E (lm_message mu)) ` set (lt_retains tr) \<and> c \<notin> set (lt_deletes tr)
          \<longrightarrow> store_get t' c s' = store_get t' c s)"
proof -
  note rows = commit_rows [OF assms]
  have "store_get t' c s' = store_get t' c s"
    if "t' \<noteq> t \<or> c \<noteq> cid_key E (lm_message (lt_put tr))
      \<and> c \<notin> (\<lambda>mu. cid_key E (lm_message mu)) ` set (lt_retains tr) \<and> c \<notin> set (lt_deletes tr)" for t' c
  proof -
    have "bt_get (ms_messages s') (t', c) = bt_get (ms_messages s) (t', c)" by (rule rows(4)) (use that in auto)
    then show ?thesis by (simp add: store_get_alt)
  qed
  then show ?thesis
    using rows(1-3) commit_retained_existed [OF assms] by (auto simp: store_get_alt row_of_def)
qed


text \<open>
  C15: a fingerprint depends only on which messages are live. If in two reachable stores the same
  CIDs are live in each requested scope of the tenant, their fingerprints over these scopes are
  equal, whatever the histories, positions, order and repetition of scopes were.
\<close>

theorem fingerprint_depends_on_live_set:
  assumes "store_reachable E s" and "store_reachable E s'" and "set scopes = set scopes'"
    and "\<forall>scope \<in> set scopes. set (live_cids s t scope) = set (live_cids s' t scope)"
  shows "store_fingerprint t scopes s = store_fingerprint t scopes' s'"
proof -
  note inv = reachable_inv [OF assms(1)] reachable_inv [OF assms(2)]
  have "bt_get_or 0 (ms_fingerprints s) (t, scope) = bt_get_or 0 (ms_fingerprints s') (t, scope)"
    if "scope \<in> set scopes" for scope
    using that assms(4) store_invD(3) [OF inv(1)] store_invD(3) [OF inv(2)]
      xor_over_same_set [OF distinct_live_cids distinct_live_cids, of s s' t scope t scope "cid_contribution E"]
      store_invD(2) [OF inv(1)] store_invD(2) [OF inv(2)]
    by (simp add: fingerprints_ok_def)
  then have "xor_over (\<lambda>scope. bt_get_or 0 (ms_fingerprints s) (t, scope)) xs =
      xor_over (\<lambda>scope. bt_get_or 0 (ms_fingerprints s') (t, scope)) xs" if "set xs \<subseteq> set scopes" for xs
    using that by (induction xs) auto
  from this [of "normalize_scopes scopes"] show ?thesis
    unfolding store_fingerprint_scopes
    using xor_over_same_set [of "normalize_scopes scopes" "normalize_scopes scopes'"] assms(3) by simp
qed

section \<open>Witnesses\<close>

definition sample_transition :: latest_state_transition where
  "sample_transition =
     \<lparr>lt_put = \<lparr>lm_message = sample_write 20, lm_indexes = sample_indexes ''@20''\<rparr>,
      lt_retains = [\<lparr>lm_message = sample_write 12, lm_indexes = sample_indexes ''@12''\<rparr>],
      lt_deletes = [''bafyRecordsWrite9'']\<rparr>"

lemma sample_commit_ok: "is_ok (commit_latest_state plain_mext ''did:a'' sample_transition sample_store)"
  by code_simp

theorem commit_applies_transition_witness:
  "\<exists>s' w pos. commit_latest_state plain_mext ''did:a'' sample_transition sample_store = Inr (s', w, pos)
     \<and> store_get ''did:a'' ''bafyRecordsWrite9'' s' = None"
proof -
  obtain s' w pos where c: "commit_latest_state plain_mext ''did:a'' sample_transition sample_store = Inr (s', w, pos)"
    using sample_commit_ok by (auto simp: is_ok_def split: sum.splits)
  from commit_applies_transition [OF c]
  have "\<forall>c \<in> set (lt_deletes sample_transition). store_get ''did:a'' c s' = None" by blast
  then have "store_get ''did:a'' ''bafyRecordsWrite9'' s' = None"
    unfolding sample_transition_def latest_state_transition.simps list.set by blast
  with c show ?thesis by blast
qed


theorem fingerprint_depends_on_live_set_witness:
  "store_fingerprint ''did:a'' ['''', ''protocol:http://chat''] sample_store
   = store_fingerprint ''did:a'' [''protocol:http://chat'', '''', ''''] sample_store"
  by (rule fingerprint_depends_on_live_set [OF sample_store_reachable sample_store_reachable]) auto

end
