(* ===== verification/Permissions.thy ===== *)
theory Permissions
  imports Signatures StoreOperations
begin

text \<open>
  Permission grants at work, \<open>permissions/mod.rs\<close>: fetching a grant from the message store, the checks
  every invocation of a grant passes, the authorizations of the interfaces built on them, and the
  processing of permission records. The message store is the one of \<open>MessageStore\<close>; the data store is
  a parameter, since only its trait is part of the core. The theorems state what a passed check
  guarantees, and what revoking a grant does.
\<close>

section \<open>Filters and authors\<close>

definition string_filter :: "string \<Rightarrow> val qfilter" where
  "string_filter v = FilterEqual (VString v)"

definition bool_filter :: "bool \<Rightarrow> val qfilter" where
  "bool_filter b = FilterEqual (VBool b)"

definition filter_map :: "(string \<times> val qfilter) list \<Rightarrow> value_filter" where
  "filter_map items = bt_from (map (\<lambda>(key, f). (FKIndex key, f)) items)"

definition with_limit :: "u64 \<Rightarrow> pagination" where
  "with_limit n = \<lparr>pg_cursor = None, pg_limit = Some n\<rparr>"

text \<open>
  The source writes the message as JSON and reads the authorization back; what is read back is the
  authorization of the message.
\<close>

definition message_signer :: "'x pext_scheme \<Rightarrow> message \<Rightarrow> string option" where
  "message_signer E m =
     (if authorization_is_empty (msg_authorization m) then None
      else case signer_did_from_jws E (au_signature (msg_authorization m)) of Inl _ \<Rightarrow> None | Inr d \<Rightarrow> Some d)"

definition message_author :: "'x pext_scheme \<Rightarrow> message \<Rightarrow> string option" where
  "message_author E m =
     (case Option.bind (au_author_delegated_grant (msg_authorization m)) (\<lambda>w. message_signer E (msg_of_write w)) of
        Some d \<Rightarrow> Some d
      | None \<Rightarrow> message_signer E m)"

section \<open>Fetching and checking a grant\<close>

type_synonym 'a permitted = "(permission_error, 'a) result"

definition fetch_grant ::
  "'x pext_scheme \<Rightarrow> memory_message_state \<Rightarrow> string \<Rightarrow> string \<Rightarrow> permission_grant permitted" where
  "fetch_grant E s tenant ident =
     rbind (map_err PermissionMessageStore
       (store_query E tenant
          [filter_map [(''recordId'', string_filter ident), (''isLatestBaseState'', bool_filter True)]]
          None (Some (with_limit 1)) None s)) (\<lambda>found.
     case mq_messages found of
       [] \<Rightarrow> Inl (PermissionInvalidGrant (GrantNotFound ident))
     | m # _ \<Rightarrow>
         rbind (ok_or (PermissionInvalidGrant UnableToExtractGrantor) (message_author E m)) (\<lambda>grantor.
           map_err PermissionInvalidGrant (parse_permission_grant E m grantor)))"

definition fetch_newest_write ::
  "'x pext_scheme \<Rightarrow> memory_message_state \<Rightarrow> string \<Rightarrow> string \<Rightarrow> message permitted" where
  "fetch_newest_write E s tenant ident =
     rbind (map_err PermissionMessageStore
       (store_query E tenant
          [filter_map [(''interface'', string_filter ''Records''), (''method'', string_filter ''Write''),
             (''recordId'', string_filter ident)]]
          (Some (SortTimestamp Descending)) (Some (with_limit 1)) None s)) (\<lambda>found.
     case mq_messages found of
       [] \<Rightarrow> Inl (PermissionInvalidGrant (GrantNotFound ident))
     | m # _ \<Rightarrow> Inr m)"

definition revocation_filters :: "permission_grant \<Rightarrow> filters" where
  "revocation_filters grant =
     [filter_map [(''parentId'', string_filter (gr_id grant)),
        (''protocolPath'', string_filter permissions_revocation_path), (''isLatestBaseState'', bool_filter True)]]"

definition verify_grant_not_revoked ::
  "'x pext_scheme \<Rightarrow> memory_message_state \<Rightarrow> string \<Rightarrow> instant \<Rightarrow> permission_grant \<Rightarrow> unit permitted" where
  "verify_grant_not_revoked E s tenant incoming grant =
     rbind (map_err PermissionMessageStore
       (store_query E tenant (revocation_filters grant) (Some (SortTimestamp Ascending)) None None s)) (\<lambda>found.
       if list_ex (\<lambda>m. message_timestamp (msg_descriptor m) \<le> incoming) (mq_messages found)
       then Inl (PermissionInvalidGrant GrantRevoked) else Inr ())"

definition perform_base_validation ::
  "'x pext_scheme \<Rightarrow> memory_message_state \<Rightarrow> message \<Rightarrow> string \<Rightarrow> string \<Rightarrow> permission_grant \<Rightarrow> unit permitted" where
  "perform_base_validation E s m expected_grantor expected_grantee grant =
     (let incoming = message_timestamp (msg_descriptor m); kind = kind_of (msg_descriptor m) in
      if expected_grantee \<noteq> gr_grantee grant
        then Inl (PermissionAuthorization (UnexpectedGrantee expected_grantee (gr_grantee grant)))
      else if expected_grantor \<noteq> gr_grantor grant
        then Inl (PermissionAuthorization (UnexpectedGrantor expected_grantor (gr_grantor grant)))
      else if incoming < gr_date_granted grant then Inl (PermissionInvalidGrant GrantNotActive)
      else if gr_date_expires grant \<le> incoming then Inl (PermissionInvalidGrant GrantExpired)
      else
        rbind (verify_grant_not_revoked E s expected_grantor incoming grant) (\<lambda>_.
          if kind_interface kind \<noteq> scope_interface (gr_scope grant)
            then Inl (PermissionInvalidGrant OutsideScope)
          else if \<not> scope_covers (gr_scope grant) kind
            then Inl (PermissionAuthorization (BadRequest (GrantScopeMismatch (kind_method kind) (gr_id grant))))
          else Inr ()))"

definition verify_records_scope :: "message \<Rightarrow> permission_scope \<Rightarrow> (grant_error, unit) result" where
  "verify_records_scope m scope =
     rbind (grant_write_descriptor m) (\<lambda>d.
       if matches_protocol_target scope
            \<lparr>tgt_protocol = Some (wd_protocol d), tgt_context_id = context_id m,
             tgt_protocol_path = Some (wd_protocol_path d)\<rparr>
       then Inr () else Inl InvalidScopeForTarget)"

definition verify_records_write_conditions ::
  "message \<Rightarrow> permission_conditions option \<Rightarrow> (grant_error, unit) result" where
  "verify_records_write_conditions m conditions =
     rbind (grant_write_descriptor m) (\<lambda>d.
       case Option.bind conditions pc_publication of
         Some PublicationRequired \<Rightarrow> if wd_published d \<noteq> Some True then Inl UnpublishedGrant else Inr ()
       | Some PublicationProhibited \<Rightarrow> if wd_published d = Some True then Inl PublishProhibited else Inr ()
       | None \<Rightarrow> Inr ())"

section \<open>Records and protocols\<close>

text \<open>
  An invoked grant: the one embedded in the message, invoked by its signer on behalf of its author,
  or the one the message names, invoked by its author on the tenant's node.
\<close>

definition invoked_grant ::
  "'x pext_scheme \<Rightarrow> memory_message_state \<Rightarrow> string \<Rightarrow> authorization_context
    \<Rightarrow> (permission_grant \<times> string \<times> string) option permitted" where
  "invoked_grant E s tenant auth =
     (case ac_author_delegated_grant auth of
        Some grant \<Rightarrow> Inr (Some (grant, ac_author auth, ac_signer auth))
      | None \<Rightarrow>
          (case ac_permission_grant_id auth of
             Some ident \<Rightarrow>
               rbind (fetch_grant E s tenant ident) (\<lambda>grant. Inr (Some (grant, tenant, ac_author auth)))
           | None \<Rightarrow> Inr None))"

definition authorize_records_write_with_grant ::
  "'x pext_scheme \<Rightarrow> memory_message_state \<Rightarrow> message \<Rightarrow> string \<Rightarrow> string \<Rightarrow> permission_grant \<Rightarrow> unit permitted" where
  "authorize_records_write_with_grant E s m expected_grantor expected_grantee grant =
     rbind (perform_base_validation E s m expected_grantor expected_grantee grant) (\<lambda>_.
     rbind (map_err PermissionInvalidGrant (verify_records_scope m (gr_scope grant))) (\<lambda>_.
       map_err PermissionInvalidGrant (verify_records_write_conditions m (gr_conditions grant))))"

definition authorize_delegated_records_write ::
  "'x pext_scheme \<Rightarrow> memory_message_state \<Rightarrow> message \<Rightarrow> authorization_context \<Rightarrow> bool permitted" where
  "authorize_delegated_records_write E s m auth =
     (case ac_author_delegated_grant auth of
        None \<Rightarrow> Inr False
      | Some grant \<Rightarrow>
          rbind (authorize_records_write_with_grant E s m (ac_author auth) (ac_signer auth) grant) (\<lambda>_. Inr True))"

definition authorize_records_write_with_grant_id ::
  "'x pext_scheme \<Rightarrow> memory_message_state \<Rightarrow> string \<Rightarrow> message \<Rightarrow> authorization_context \<Rightarrow> bool permitted" where
  "authorize_records_write_with_grant_id E s tenant m auth =
     (case ac_permission_grant_id auth of
        None \<Rightarrow> Inr False
      | Some ident \<Rightarrow>
          rbind (fetch_grant E s tenant ident) (\<lambda>grant.
          rbind (authorize_records_write_with_grant E s m tenant (ac_author auth) grant) (\<lambda>_. Inr True)))"

definition authorize_records_read_with_grant ::
  "'x pext_scheme \<Rightarrow> memory_message_state \<Rightarrow> string \<Rightarrow> message \<Rightarrow> message \<Rightarrow> authorization_context \<Rightarrow> bool permitted" where
  "authorize_records_read_with_grant E s tenant m to_read auth =
     rbind (invoked_grant E s tenant auth) (\<lambda>invoked.
     case invoked of
       None \<Rightarrow> Inr False
     | Some (grant, expected_grantor, expected_grantee) \<Rightarrow>
         rbind (perform_base_validation E s m expected_grantor expected_grantee grant) (\<lambda>_.
         rbind (map_err PermissionInvalidGrant (verify_records_scope to_read (gr_scope grant))) (\<lambda>_. Inr True)))"

definition authorize_records_query_or_subscribe_with_grant ::
  "'x pext_scheme \<Rightarrow> memory_message_state \<Rightarrow> string \<Rightarrow> message \<Rightarrow> records_filter \<Rightarrow> authorization_context \<Rightarrow> bool permitted" where
  "authorize_records_query_or_subscribe_with_grant E s tenant m f auth =
     rbind (invoked_grant E s tenant auth) (\<lambda>invoked.
     case invoked of
       None \<Rightarrow> Inr False
     | Some (grant, expected_grantor, expected_grantee) \<Rightarrow>
         rbind (perform_base_validation E s m expected_grantor expected_grantee grant) (\<lambda>_.
           if matches_protocol_target (gr_scope grant)
                \<lparr>tgt_protocol = rf_protocol f, tgt_context_id = rf_context_id f,
                 tgt_protocol_path = rf_protocol_path f\<rparr>
           then Inr True else Inl (PermissionInvalidGrant OutsideScope)))"

definition authorize_records_delete_with_grant ::
  "'x pext_scheme \<Rightarrow> memory_message_state \<Rightarrow> string \<Rightarrow> message \<Rightarrow> message \<Rightarrow> authorization_context \<Rightarrow> bool permitted" where
  "authorize_records_delete_with_grant E s tenant m to_delete auth =
     rbind (invoked_grant E s tenant auth) (\<lambda>invoked.
     case invoked of
       None \<Rightarrow> Inr False
     | Some (grant, expected_grantor, expected_grantee) \<Rightarrow>
         rbind (perform_base_validation E s m expected_grantor expected_grantee grant) (\<lambda>_.
         rbind (map_err PermissionInvalidGrant (verify_records_scope to_delete (gr_scope grant))) (\<lambda>_. Inr True)))"

definition protocols_configure_descriptor :: "message \<Rightarrow> (grant_message_type_error, configure_descriptor) result" where
  "protocols_configure_descriptor m =
     (case msg_descriptor m of
        DescriptorProtocols (ProtocolsConfigure d) \<Rightarrow> Inr d
      | _ \<Rightarrow> Inl InvalidProtocolsConfigureMessageType)"

definition protocols_query_of :: "message \<Rightarrow> (grant_message_type_error, protocols_query_descriptor) result" where
  "protocols_query_of m =
     (case msg_descriptor m of
        DescriptorProtocols (ProtocolsQuery d) \<Rightarrow> Inr d
      | _ \<Rightarrow> Inl InvalidProtocolsQueryMessageType)"

definition authorize_protocols_configure_with_grant ::
  "'x pext_scheme \<Rightarrow> memory_message_state \<Rightarrow> message \<Rightarrow> string \<Rightarrow> string \<Rightarrow> permission_grant \<Rightarrow> unit permitted" where
  "authorize_protocols_configure_with_grant E s m expected_grantor expected_grantee grant =
     rbind (perform_base_validation E s m expected_grantor expected_grantee grant) (\<lambda>_.
     case scope_protocol (gr_scope grant) of
       None \<Rightarrow> Inr ()
     | Some protocol \<Rightarrow>
         rbind (map_err (\<lambda>e. PermissionInvalidGrant (InvalidMessageType e)) (protocols_configure_descriptor m)) (\<lambda>d.
           if pd_protocol (cd_definition d) \<noteq> protocol then Inl (PermissionInvalidGrant OutsideScope) else Inr ()))"

definition authorize_protocols_configure ::
  "'x pext_scheme \<Rightarrow> memory_message_state \<Rightarrow> string \<Rightarrow> message \<Rightarrow> authorization_context \<Rightarrow> unit permitted" where
  "authorize_protocols_configure E s tenant m auth =
     (case ac_author_delegated_grant auth of
        Some grant \<Rightarrow>
          authorize_protocols_configure_with_grant E s m (ac_author auth) (ac_signer auth) grant
      | None \<Rightarrow>
          if ac_author auth = tenant then Inr ()
          else (case ac_permission_grant_id auth of
                  Some ident \<Rightarrow>
                    rbind (fetch_grant E s tenant ident) (\<lambda>grant.
                      authorize_protocols_configure_with_grant E s m tenant (ac_author auth) grant)
                | None \<Rightarrow> Inl (PermissionInvalidGrant GrantUnauthorized)))"

definition authorize_protocols_query ::
  "'x pext_scheme \<Rightarrow> memory_message_state \<Rightarrow> string \<Rightarrow> message \<Rightarrow> authorization_context \<Rightarrow> bool permitted" where
  "authorize_protocols_query E s tenant m auth =
     (if ac_author auth = tenant then Inr True
      else case ac_permission_grant_id auth of
             None \<Rightarrow> Inr False
           | Some ident \<Rightarrow>
               rbind (fetch_grant E s tenant ident) (\<lambda>grant.
               rbind (perform_base_validation E s m tenant (ac_author auth) grant) (\<lambda>_.
               rbind (map_err (\<lambda>e. PermissionInvalidGrant (InvalidMessageType e)) (protocols_query_of m)) (\<lambda>d.
                 let in_grant = scope_protocol (gr_scope grant);
                     in_message = Option.bind (pqd_filter d) pqf_protocol
                 in if in_grant \<noteq> None \<and> in_message \<noteq> in_grant
                    then Inl (PermissionInvalidGrant OutsideScope) else Inr True))))"

section \<open>Messages\<close>

record messages_grant_access =
  mga_metadata_only :: bool

datatype messages_read_grant_access = AccessFull | AccessMetadataOnly

type_synonym messages_grant_set = "permission_grant list"

definition has_unscoped_grants :: "messages_grant_set \<Rightarrow> bool" where
  "has_unscoped_grants grants = list_ex (\<lambda>g. is_unscoped (gr_scope g)) grants"

definition covers_filter :: "messages_grant_set \<Rightarrow> messages_filter \<Rightarrow> bool" where
  "covers_filter grants f = list_ex (\<lambda>g. matches_protocol_target (gr_scope g) (target_of_filter f)) grants"

definition get_scope_from_permission_record ::
  "'x pext_scheme \<Rightarrow> memory_message_state \<Rightarrow> string \<Rightarrow> message \<Rightarrow> permission_scope permitted" where
  "get_scope_from_permission_record E s tenant m =
     rbind (map_err PermissionInvalidGrant (grant_write_descriptor m)) (\<lambda>d.
       if wd_protocol d \<noteq> permissions_protocol_uri
         then Inl (PermissionInvalidGrant (UnexpectedProtocol (wd_protocol d)))
       else if wd_protocol_path d = permissions_revocation_path then
         rbind (ok_or (PermissionInvalidGrant RevocationParentIdRequired) (wd_parent_id d)) (\<lambda>parent.
         rbind (fetch_grant E s tenant parent) (\<lambda>grant. Inr (gr_scope grant)))
       else if wd_protocol_path d = permissions_grant_path then
         rbind (ok_or (PermissionInvalidGrant UnableToExtractGrantor) (message_author E m)) (\<lambda>grantor.
         rbind (map_err PermissionInvalidGrant (parse_permission_grant E m grantor)) (\<lambda>grant.
           Inr (gr_scope grant)))
       else
         rbind (map_err (\<lambda>e. PermissionInvalidGrant (GrantProtocolValidation e))
           (permission_record_data_bytes E m)) (\<lambda>bytes.
         rbind (map_err PermissionAuthorization (from_slice E de_request_data bytes)) (\<lambda>data.
           Inr (prd_scope data))))"

text \<open>
  A delete is judged by the newest write of its record. Nothing in the function itself bounds the
  recursion, so it is partial: on a store that indexes a delete as a write it might not return.
\<close>

partial_function (option) resolve_messages_scope_target ::
  "'x pext_scheme \<Rightarrow> memory_message_state \<Rightarrow> string \<Rightarrow> message \<Rightarrow> scope_target permitted option" where
  "resolve_messages_scope_target E s tenant m =
     (case msg_descriptor m of
        DescriptorRecords (RecordsWrite d) \<Rightarrow>
          if wd_protocol d = permissions_protocol_uri then
            Some (rbind (get_scope_from_permission_record E s tenant m) (\<lambda>scope.
              Inr \<lparr>tgt_protocol = scope_protocol scope, tgt_context_id = context_id m,
                   tgt_protocol_path = scope_protocol_path scope\<rparr>))
          else Some (Inr \<lparr>tgt_protocol = Some (wd_protocol d), tgt_context_id = context_id m,
                          tgt_protocol_path = Some (wd_protocol_path d)\<rparr>)
      | DescriptorRecords (RecordsDelete d) \<Rightarrow>
          (case fetch_newest_write E s tenant (dd_record_id d) of
             Inl e \<Rightarrow> Some (Inl e)
           | Inr newest \<Rightarrow> resolve_messages_scope_target E s tenant newest)
      | DescriptorRecords _ \<Rightarrow> Some (Inl (PermissionInvalidGrant InvalidRecordsDescriptorType))
      | DescriptorProtocols (ProtocolsConfigure d) \<Rightarrow>
          Some (Inr \<lparr>tgt_protocol = Some (pd_protocol (cd_definition d)), tgt_context_id = None,
                     tgt_protocol_path = None\<rparr>)
      | DescriptorProtocols _ \<Rightarrow> Some (Inl (PermissionInvalidGrant InvalidProtocolDescriptorType))
      | DescriptorMessages _ \<Rightarrow> Some (Inl (PermissionInvalidGrant InvalidDescriptorType)))"

definition covers_message ::
  "'x pext_scheme \<Rightarrow> memory_message_state \<Rightarrow> string \<Rightarrow> messages_grant_set \<Rightarrow> message \<Rightarrow> bool permitted option" where
  "covers_message E s tenant grants m =
     map_option (\<lambda>r. rbind r (\<lambda>target.
       Inr (list_ex (\<lambda>g. matches_protocol_target (gr_scope g) target) grants)))
       (resolve_messages_scope_target E s tenant m)"

definition fetch_and_validate_messages_grants ::
  "'x pext_scheme \<Rightarrow> memory_message_state \<Rightarrow> string \<Rightarrow> message \<Rightarrow> authorization_context \<Rightarrow> messages_grant_set permitted" where
  "fetch_and_validate_messages_grants E s tenant m auth =
     rbind (ok_or (PermissionAuthorization (BadRequest PermissionGrantIDsRequired)) (ac_permission_grant_ids auth)) (\<lambda>idents.
       try_map (\<lambda>ident.
         rbind (fetch_grant E s tenant ident) (\<lambda>grant.
         rbind (perform_base_validation E s m tenant (ac_author auth) grant) (\<lambda>_. Inr grant))) idents)"

definition authorize_messages_read ::
  "'x pext_scheme \<Rightarrow> memory_message_state \<Rightarrow> string \<Rightarrow> message \<Rightarrow> message \<Rightarrow> authorization_context
    \<Rightarrow> messages_read_grant_access permitted option" where
  "authorize_messages_read E s tenant m to_read auth =
     (case fetch_and_validate_messages_grants E s tenant m auth of
        Inl e \<Rightarrow> Some (Inl e)
      | Inr grants \<Rightarrow>
          map_option (\<lambda>covered. rbind covered (\<lambda>covered.
            if \<not> covered then Inl (PermissionInvalidGrant OutsideScope)
            else if has_unscoped_grants grants then Inr AccessFull else Inr AccessMetadataOnly))
            (covers_message E s tenant grants to_read))"

definition authorize_messages_filter_scope ::
  "messages_grant_set \<Rightarrow> messages_filter list \<Rightarrow> messages_grant_access permitted" where
  "authorize_messages_filter_scope grants filters =
     (if filters = [] then
        (if \<not> has_unscoped_grants grants then Inl (PermissionInvalidGrant OutsideScope)
         else Inr \<lparr>mga_metadata_only = False\<rparr>)
      else if list_all (covers_filter grants) filters
        then Inr \<lparr>mga_metadata_only = (\<not> has_unscoped_grants grants)\<rparr>
      else Inl (PermissionInvalidGrant OutsideScope))"

definition authorize_messages_subscribe_and_query ::
  "'x pext_scheme \<Rightarrow> memory_message_state \<Rightarrow> string \<Rightarrow> message \<Rightarrow> messages_filter list \<Rightarrow> authorization_context
    \<Rightarrow> messages_grant_access permitted" where
  "authorize_messages_subscribe_and_query E s tenant m filters auth =
     rbind (fetch_and_validate_messages_grants E s tenant m auth) (\<lambda>grants.
       authorize_messages_filter_scope grants filters)"

definition authorize_delegated_messages_subscribe_and_query ::
  "'x pext_scheme \<Rightarrow> memory_message_state \<Rightarrow> message \<Rightarrow> messages_filter list \<Rightarrow> authorization_context
    \<Rightarrow> messages_grant_access option permitted" where
  "authorize_delegated_messages_subscribe_and_query E s m filters auth =
     (case ac_author_delegated_grant auth of
        None \<Rightarrow> Inr None
      | Some grant \<Rightarrow>
          rbind (perform_base_validation E s m (ac_author auth) (ac_signer auth) grant) (\<lambda>_.
          rbind (authorize_messages_filter_scope [grant] filters) (\<lambda>access. Inr (Some access))))"

section \<open>Writing permission records\<close>

definition max_encoded_data_size :: u64 where
  "max_encoded_data_size = 30000"

text \<open>The data store: what the code relies on is deletion, keyed by tenant, record and data CID.\<close>

record 'd data_ops =
  ds_delete :: "string \<Rightarrow> string \<Rightarrow> string \<Rightarrow> 'd \<Rightarrow> (string, 'd) result"

definition is_revocation_write :: "write_descriptor \<Rightarrow> bool" where
  "is_revocation_write d =
     (wd_protocol d = permissions_protocol_uri \<and> wd_protocol_path d = permissions_revocation_path)"

definition pre_process_permissions_write ::
  "'x pext_scheme \<Rightarrow> memory_message_state \<Rightarrow> string \<Rightarrow> message \<Rightarrow> unit permitted" where
  "pre_process_permissions_write E s tenant m =
     rbind (map_err PermissionInvalidGrant (grant_write_descriptor m)) (\<lambda>d.
       if \<not> is_revocation_write d then Inr ()
       else
         rbind (ok_or (PermissionInvalidGrant (GrantProtocolValidation MissingRevocationParentId)) (wd_parent_id d)) (\<lambda>parent.
         rbind (fetch_grant E s tenant parent) (\<lambda>grant.
           if scope_protocol (gr_scope grant) \<noteq> write_tag_protocol m
           then Inl (PermissionInvalidGrant (GrantProtocolValidation MissingRevocationParentId)) else Inr ())))"

definition authorized_filters :: "string \<Rightarrow> filters" where
  "authorized_filters ident = [filter_map [(''permissionGrantId'', string_filter ident)]]"

definition remove_authorized ::
  "'x pext_scheme \<Rightarrow> 'd data_ops \<Rightarrow> string \<Rightarrow> instant \<Rightarrow> message \<Rightarrow> memory_message_state \<times> 'd
    \<Rightarrow> (memory_message_state \<times> 'd) permitted" where
  "remove_authorized E D tenant revoked_at m = (\<lambda>(s, d).
     if message_timestamp (msg_descriptor m) < revoked_at then Inr (s, d)
     else
       rbind (case (records_write_descriptor m, record_id m) of
                (Inr w, Some ident) \<Rightarrow>
                  if max_encoded_data_size < wd_data_size w
                  then map_err PermissionDataStore (ds_delete D tenant ident (wd_data_cid w) d) else Inr d
              | _ \<Rightarrow> Inr d) (\<lambda>d.
       rbind (map_err (\<lambda>_. PermissionAuthorization CidParseFailed) (message_cid E m)) (\<lambda>c.
       rbind (map_err PermissionMessageStore (store_delete E tenant c s)) (\<lambda>s. Inr (s, d)))))"

definition post_process_permissions_write ::
  "'x pext_scheme \<Rightarrow> 'd data_ops \<Rightarrow> string \<Rightarrow> message \<Rightarrow> memory_message_state \<times> 'd
    \<Rightarrow> (memory_message_state \<times> 'd) permitted" where
  "post_process_permissions_write E D tenant m = (\<lambda>(s, d).
     rbind (map_err PermissionInvalidGrant (grant_write_descriptor m)) (\<lambda>w.
       if \<not> is_revocation_write w then Inr (s, d)
       else case wd_parent_id w of
              None \<Rightarrow> Inr (s, d)
            | Some ident \<Rightarrow>
                rbind (map_err PermissionMessageStore
                  (store_query E tenant (authorized_filters ident) None None None s)) (\<lambda>found.
                  try_fold (remove_authorized E D tenant (wd_message_timestamp w)) (mq_messages found) (s, d))))"

section \<open>What a query returns\<close>

text \<open>The rows of a tenant that a query without a page and without a record limit can return.\<close>

definition tenant_rows :: "memory_message_state \<Rightarrow> string \<Rightarrow> message_row list" where
  "tenant_rows s tenant = map snd (filter (\<lambda>((t, _), _). t = tenant) (ms_messages s))"

definition selected :: "'x ext_scheme \<Rightarrow> filters \<Rightarrow> string \<Rightarrow> message_row \<Rightarrow> bool" where
  "selected E fs property row =
     (matches_filters E (mr_indexes row) (Some fs) \<and> bt_contains (mr_indexes row) property)"

lemma in_tenant_rows: "row \<in> set (tenant_rows s t) \<longleftrightarrow> (\<exists>c. ((t, c), row) \<in> set (ms_messages s))"
  by (force simp: tenant_rows_def)

lemma set_query_rows:
  "set (query_rows E t fs srt None s) =
     {row \<in> set (tenant_rows s t).
        selected E fs (fst (sort_property (case srt of None \<Rightarrow> message_sort_default | Some m \<Rightarrow> m))) row}"
proof -
  have "map snd (filter (\<lambda>((u, _), row). u = t \<and> P row) rs) = filter P (map snd (filter (\<lambda>((u, _), _). u = t) rs))"
    for P and rs :: "((string \<times> string) \<times> message_row) list"
    by (induction rs) auto
  then have rows: "set (map snd (filter (\<lambda>((u, _), row). u = t \<and> P row) (ms_messages s))) =
      {row \<in> set (tenant_rows s t). P row}" for P
    by (simp add: tenant_rows_def)
  obtain p d where "sort_property (case srt of None \<Rightarrow> message_sort_default | Some m \<Rightarrow> m) = (p, d)"
    by fastforce
  with rows [of "\<lambda>row. matches_filters E (mr_indexes row) (Some fs)"] show ?thesis
    by (auto simp: query_rows_def selected_def Let_def simp del: set_map)
qed

lemma query_without_page:
  "store_query E t fs srt None None s =
     Inr \<lparr>mq_messages = map mr_message (query_rows E t fs srt None s), mq_cursor = None\<rparr>"
  by (simp add: store_query_def query_page_def Let_def split: prod.splits)

lemma not_revoked_iff:
  "verify_grant_not_revoked E s t incoming g = Inr u \<longleftrightarrow>
     (\<forall>row \<in> set (tenant_rows s t). selected E (revocation_filters g) ''messageTimestamp'' row \<longrightarrow>
        incoming < message_timestamp (msg_descriptor (mr_message row)))"
  by (auto simp: verify_grant_not_revoked_def query_without_page list_ex_iff set_query_rows map_err_def
      not_le)

lemma base_validation_iff:
  "perform_base_validation E s m grantor grantee g = Inr u \<longleftrightarrow>
     gr_grantee g = grantee \<and> gr_grantor g = grantor \<and>
     gr_date_granted g \<le> message_timestamp (msg_descriptor m) \<and>
     message_timestamp (msg_descriptor m) < gr_date_expires g \<and>
     verify_grant_not_revoked E s grantor (message_timestamp (msg_descriptor m)) g = Inr () \<and>
     scope_interface (gr_scope g) = kind_interface (kind_of (msg_descriptor m)) \<and>
     scope_covers (gr_scope g) (kind_of (msg_descriptor m))"
  by (auto simp: perform_base_validation_def Let_def rbind_Inr_iff not_less not_le)

section \<open>Removing what a revoked grant authorized\<close>

abbreviation sent_at :: "message \<Rightarrow> instant" where
  "sent_at m \<equiv> message_timestamp (msg_descriptor m)"

lemma remove_authorized_look:
  assumes "remove_authorized E D t at m (s, d) = Inr (s', d')"
  shows "bt_get (ms_messages s') k =
    (if at \<le> sent_at m \<and> k = (t, cid_key E m) then None else bt_get (ms_messages s) k)"
proof (cases "sent_at m < at")
  case False
  with assms obtain c where "message_cid E m = Inr c" "delete_message_state E t c s = Inr s'"
    by (auto simp: remove_authorized_def rbind_Inr_iff map_err_def store_delete_def split: sum.split_asm)
  with delete_look [of E t c s s' k] False show ?thesis by (simp add: cid_key_def)
qed (use assms in \<open>simp add: remove_authorized_def not_le\<close>)

lemma remove_loop_look:
  "try_fold (remove_authorized E D t at) ms (s, d) = Inr (s', d') \<Longrightarrow>
   bt_get (ms_messages s') k =
     (if \<exists>m \<in> set ms. at \<le> sent_at m \<and> k = (t, cid_key E m) then None else bt_get (ms_messages s) k)"
proof (induction ms arbitrary: s d)
  case (Cons m ms)
  then obtain s1 d1 where "remove_authorized E D t at m (s, d) = Inr (s1, d1)"
    "try_fold (remove_authorized E D t at) ms (s1, d1) = Inr (s', d')"
    by (auto simp: rbind_Inr_iff)
  with Cons.IH [of s1 d1] remove_authorized_look [of E D t at m s d s1 d1 k] show ?case by auto
qed simp

lemma row_of_key:
  assumes "rows_ok E s"
  shows "row \<in> set (tenant_rows s t) \<longleftrightarrow> bt_get (ms_messages s) (t, cid_key E (mr_message row)) = Some row"
proof -
  have "bt_sorted (ms_messages s)" using assms by (simp add: rows_ok_def)
  then have "row \<in> set (tenant_rows s t) \<longleftrightarrow> (\<exists>c. bt_get (ms_messages s) (t, c) = Some row)"
    by (simp add: in_tenant_rows bt_get_iff_in)
  also have "\<dots> \<longleftrightarrow> bt_get (ms_messages s) (t, cid_key E (mr_message row)) = Some row"
    using assms by (auto simp: rows_ok_def cid_key_def)
  finally show ?thesis .
qed

text \<open>The effect of a processed revocation on one key of the store.\<close>

definition without_authorized ::
  "'x ext_scheme \<Rightarrow> string \<Rightarrow> string \<Rightarrow> instant \<Rightarrow> string \<Rightarrow> message_row option \<Rightarrow> message_row option" where
  "without_authorized E tenant ident at t row =
     (case row of
        None \<Rightarrow> None
      | Some r \<Rightarrow>
          if t = tenant \<and> selected E (authorized_filters ident) ''messageTimestamp'' r \<and> at \<le> sent_at (mr_message r)
          then None else Some r)"

lemma purge_look:
  assumes inv: "rows_ok E s"
    and run: "try_fold (remove_authorized E D tenant at)
      (map mr_message (query_rows E tenant (authorized_filters ident) None None s)) (s, d) = Inr (s', d')"
  shows "bt_get (ms_messages s') (t, c) = without_authorized E tenant ident at t (bt_get (ms_messages s) (t, c))"
proof -
  let ?hit = "\<lambda>row. selected E (authorized_filters ident) ''messageTimestamp'' row \<and> at \<le> sent_at (mr_message row)"
  have key: "cid_key E (mr_message row) = c" if "bt_get (ms_messages s) (t, c) = Some row" for row
    using that inv by (simp add: rows_ok_def cid_key_def)
  have "(\<exists>m \<in> set (map mr_message (query_rows E tenant (authorized_filters ident) None None s)).
          at \<le> sent_at m \<and> (t, c) = (tenant, cid_key E m))
      \<longleftrightarrow> (\<exists>row \<in> set (tenant_rows s tenant). ?hit row \<and> t = tenant \<and> c = cid_key E (mr_message row))"
    by (auto simp: set_query_rows message_sort_default_def)
  also have "\<dots> \<longleftrightarrow> (\<exists>row. t = tenant \<and> bt_get (ms_messages s) (t, c) = Some row \<and> ?hit row)"
    using key by (simp add: row_of_key [OF inv] Bex_def) blast
  finally show ?thesis
    by (simp add: remove_loop_look [OF run, of "(t, c)"] without_authorized_def split: option.split)
qed

lemma delete_succeeds:
  assumes "store_inv E s"
  shows "is_ok (delete_message_state E t c s)"
proof (cases "bt_get (ms_positions_by_cid s) (t, c)")
  case (Some p)
  with store_invD(2) [OF assms] obtain e where "bt_get (ms_entries s) (t, p) = Some e" "fe_message_cid e = c"
    unfolding feed_ok_def by blast
  with Some show ?thesis by (simp add: delete_message_state_def Let_def)
qed (simp add: delete_message_state_def Let_def)

lemma is_ok_map_err [simp]: "is_ok (map_err f r) = is_ok r"
  by (simp add: is_ok_def map_err_def split: sum.split)

lemma remove_authorized_succeeds:
  assumes "store_inv E s" and "\<And>r c. is_ok (ds_delete D t r c d)" and "is_ok (message_cid E m)"
  obtains s' d' where "remove_authorized E D t at m (s, d) = Inr (s', d')" and "store_inv E s'"
proof (cases "sent_at m < at")
  case True
  with assms(1) that show ?thesis by (simp add: remove_authorized_def)
next
  case False
  let ?data = "case (records_write_descriptor m, record_id m) of
      (Inr w, Some ident) \<Rightarrow> if max_encoded_data_size < wd_data_size w
        then map_err PermissionDataStore (ds_delete D t ident (wd_data_cid w) d) else Inr d
    | _ \<Rightarrow> Inr d"
  have "is_ok ?data"
    using assms(2) by (simp split: sum.split option.split)
  moreover obtain c where "message_cid E m = Inr c" using assms(3) by (auto simp: is_ok_iff)
  moreover obtain s' where "delete_message_state E t c s = Inr s'"
    using delete_succeeds [OF assms(1)] by (auto simp: is_ok_iff)
  ultimately show ?thesis
    using that False delete_preserves [OF assms(1)]
    by (auto simp: remove_authorized_def is_ok_iff store_delete_def map_err_def)
qed

lemma remove_loop_succeeds:
  assumes "\<And>r c d. is_ok (ds_delete D t r c d)"
  shows "store_inv E s \<Longrightarrow> \<forall>m \<in> set ms. is_ok (message_cid E m) \<Longrightarrow>
    \<exists>s' d'. try_fold (remove_authorized E D t at) ms (s, d) = Inr (s', d') \<and> store_inv E s'"
proof (induction ms arbitrary: s d)
  case (Cons m ms)
  have "is_ok (message_cid E m)" using Cons.prems(2) by simp
  from remove_authorized_succeeds [OF Cons.prems(1) assms this] obtain s1 d1
    where "remove_authorized E D t at m (s, d) = Inr (s1, d1)" "store_inv E s1" .
  with Cons show ?case by simp
qed simp

lemma tenant_row_cid: "rows_ok E s \<Longrightarrow> row \<in> set (tenant_rows s t) \<Longrightarrow> is_ok (message_cid E (mr_message row))"
  by (auto simp: in_tenant_rows rows_ok_def bt_get_iff_in)

section \<open>Properties\<close>

text \<open>
  C37: what the check behind every invoked grant amounts to. It passes exactly when the grant was
  given by the expected grantor to the expected grantee, the message is dated inside the window the
  grant is valid for, no revocation of the grant that the grantor's node holds is dated at or before
  the message, and the grant's scope is of the message's interface and covers its method.
\<close>

theorem base_validation_is_exact:
  "is_ok (perform_base_validation E s m grantor grantee g) \<longleftrightarrow>
     gr_grantor g = grantor \<and> gr_grantee g = grantee \<and>
     gr_date_granted g \<le> sent_at m \<and> sent_at m < gr_date_expires g \<and>
     (\<forall>row \<in> set (tenant_rows s grantor).
        selected E (revocation_filters g) ''messageTimestamp'' row \<longrightarrow> sent_at m < sent_at (mr_message row)) \<and>
     scope_covers (gr_scope g) (kind_of (msg_descriptor m))"
  by (auto simp: is_ok_unit_iff base_validation_iff not_revoked_iff scope_covers_interface)

text \<open>
  C38: processing a revocation. On a store that satisfies its invariant and with a data store whose
  deletions succeed, the processing succeeds and keeps the invariant; afterwards every message of
  the tenant that was written under the revoked grant and is dated at or after the revocation is
  gone, and every other message, of this tenant or another, is exactly as it was.
\<close>

theorem revocation_purges_authorized:
  assumes "store_inv E s" and "\<And>r c d. is_ok (ds_delete D tenant r c d)"
    and "grant_write_descriptor m = Inr w" and "is_revocation_write w" and "wd_parent_id w = Some ident"
  shows "\<exists>s' d'. post_process_permissions_write E D tenant m (s, d) = Inr (s', d') \<and> store_inv E s' \<and>
    (\<forall>t c. bt_get (ms_messages s') (t, c) =
       without_authorized E tenant ident (wd_message_timestamp w) t (bt_get (ms_messages s) (t, c)))"
proof -
  let ?ms = "map mr_message (query_rows E tenant (authorized_filters ident) None None s)"
  have rows: "rows_ok E s" using store_invD [OF assms(1)] by blast
  then have "\<forall>m \<in> set ?ms. is_ok (message_cid E m)"
    using tenant_row_cid [of E s _ tenant] by (auto simp: set_query_rows)
  from remove_loop_succeeds [OF assms(2,1) this] obtain s' d' where
    run: "try_fold (remove_authorized E D tenant (wd_message_timestamp w)) ?ms (s, d) = Inr (s', d')"
    and inv: "store_inv E s'" by blast
  from run have "post_process_permissions_write E D tenant m (s, d) = Inr (s', d')"
    using assms(3-5) by (simp add: post_process_permissions_write_def map_err_def query_without_page)
  with inv purge_look [OF rows run] show ?thesis by blast
qed

section \<open>Examples\<close>

text \<open>A grant to read every message, and a node on which it is revoked at time fifty.\<close>

definition sample_permission :: permission_grant where
  "sample_permission =
     \<lparr>gr_id = ''g1'', gr_grantor = ''did:a'', gr_grantee = ''did:bob'', gr_date_granted = 1, gr_date_expires = 100,
      gr_delegated = None, gr_scope = ScopeMessages \<lparr>mscope_protocol = None, mscope_selector = None\<rparr>,
      gr_conditions = None, gr_connect_session = None\<rparr>"

definition revocation_of :: "string \<Rightarrow> instant \<Rightarrow> message" where
  "revocation_of ident at =
     \<lparr>msg_descriptor = DescriptorRecords (RecordsWrite
        \<lparr>wd_protocol = permissions_protocol_uri, wd_protocol_path = permissions_revocation_path,
         wd_recipient = None, wd_schema = None, wd_tags = None, wd_parent_id = Some ident,
         wd_data_cid = ''data'', wd_data_size = 2, wd_date_created = at, wd_message_timestamp = at,
         wd_published = None, wd_date_published = None, wd_data_format = ''application/json'',
         wd_permission_grant_id = None, wd_squash = None\<rparr>),
      msg_fields = FieldsWrite (WriteFields authorization_default (Some ''rev'') None None None None)\<rparr>"

definition revoked_store :: memory_message_state where
  "revoked_store =
     try_put plain_pext ''did:a'' (sample_write 60)
       (bt_from [(''messageTimestamp'', VString ''@60''), (''permissionGrantId'', VString ''g1'')])
     (try_put plain_pext ''did:a'' (revocation_of ''g1'' 50)
       (bt_from [(''messageTimestamp'', VString ''@50''), (''parentId'', VString ''g1''),
          (''protocolPath'', VString permissions_revocation_path), (''isLatestBaseState'', VBool True)])
       (store_open ''epoch'' memory_message_state_default))"

definition query_at :: "instant \<Rightarrow> message" where
  "query_at t =
     \<lparr>msg_descriptor = DescriptorMessages (MessagesQuery \<lparr>mqd_message_timestamp = t, mqd_filters = [],
        mqd_permission_grant_ids = Some [''g1''], mqd_cursor = None, mqd_limit = None, mqd_cids_only = None\<rparr>),
      msg_fields = FieldsAuthorization authorization_default\<rparr>"

theorem base_validation_is_exact_witness:
  "is_ok (perform_base_validation plain_pext revoked_store (query_at 49) ''did:a'' ''did:bob'' sample_permission)
   \<and> \<not> is_ok (perform_base_validation plain_pext revoked_store (query_at 50) ''did:a'' ''did:bob'' sample_permission)"
  unfolding base_validation_is_exact by code_simp

lemma revoked_store_inv: "store_inv plain_pext revoked_store"
  unfolding revoked_store_def
  by (intro reachable_inv reach_try_put reach_step [OF reach_start step_open])

theorem revocation_purges_authorized_witness:
  "\<exists>s d. post_process_permissions_write plain_pext \<lparr>ds_delete = \<lambda>_ _ _ d. Inr d\<rparr> ''did:a'' (revocation_of ''g1'' 50)
      (revoked_store, ()) = Inr (s, d)
     \<and> store_get ''did:a'' ''bafyRecordsWrite60'' revoked_store = Some (sample_write 60)
     \<and> store_get ''did:a'' ''bafyRecordsWrite60'' s = None"
proof -
  let ?m = "revocation_of ''g1'' 50" and ?D = "\<lparr>ds_delete = \<lambda>_ _ _ d. Inr d\<rparr> :: unit data_ops"
  obtain w where w: "grant_write_descriptor ?m = Inr w" "is_revocation_write w" "wd_parent_id w = Some ''g1''"
      "wd_message_timestamp w = 50"
    by (simp add: revocation_of_def grant_write_descriptor_def records_write_descriptor_def map_err_def
        is_revocation_write_def)
  obtain s d where run: "post_process_permissions_write plain_pext ?D ''did:a'' ?m (revoked_store, ()) = Inr (s, d)"
      "bt_get (ms_messages s) (''did:a'', ''bafyRecordsWrite60'') =
         without_authorized plain_pext ''did:a'' ''g1'' 50 ''did:a''
           (bt_get (ms_messages revoked_store) (''did:a'', ''bafyRecordsWrite60''))"
    using revocation_purges_authorized [OF revoked_store_inv, of ?D "''did:a''" ?m w "''g1''" "()"] w by auto
  have "case bt_get (ms_messages revoked_store) (''did:a'', ''bafyRecordsWrite60'') of
      Some row \<Rightarrow> mr_message row = sample_write 60 \<and> without_authorized plain_pext ''did:a'' ''g1'' 50 ''did:a'' (Some row) = None
    | None \<Rightarrow> False"
    by code_simp
  with run show ?thesis by (auto simp: store_get_alt split: option.splits)
qed

end
