(* ===== verification/RecordsIndexes.thy ===== *)
theory RecordsIndexes
  imports Permissions
begin

text \<open>
  The index entries under which record messages are stored, and the checks that compare a write with
  the initial write of its record, \<open>handlers/records/common.rs\<close>. Index entries come from the JSON
  form of the descriptor, which the \<open>descriptor\<close> attribute derives: every field that is present, with
  the interface and the method. The theorem of this theory joins them to \<open>Permissions\<close>: a revocation
  stored under its index entries is found by the check that looks for it.
\<close>

section \<open>Descriptors as JSON\<close>

definition present :: "string \<Rightarrow> ('a \<Rightarrow> json) \<Rightarrow> 'a option \<Rightarrow> (string \<times> json) list" where
  "present name f v = (case v of None \<Rightarrow> [] | Some x \<Rightarrow> [(name, f x)])"

definition write_descriptor_json :: "'x ext_scheme \<Rightarrow> write_descriptor \<Rightarrow> json" where
  "write_descriptor_json E d = JObject (
     [(''protocol'', JString (wd_protocol d)), (''protocolPath'', JString (wd_protocol_path d))] @
     present ''recipient'' JString (wd_recipient d) @
     present ''schema'' JString (wd_schema d) @
     present ''tags'' (\<lambda>tags. json_of_val E (VMap tags)) (wd_tags d) @
     present ''parentId'' JString (wd_parent_id d) @
     [(''dataCid'', JString (wd_data_cid d)), (''dataSize'', JInt (int (unat (wd_data_size d)))),
      (''dateCreated'', JString (canonical_rfc3339 E (wd_date_created d))),
      (''messageTimestamp'', JString (canonical_rfc3339 E (wd_message_timestamp d)))] @
     present ''published'' JBool (wd_published d) @
     present ''datePublished'' (\<lambda>t. JString (canonical_rfc3339 E t)) (wd_date_published d) @
     [(''dataFormat'', JString (wd_data_format d))] @
     present ''permissionGrantId'' JString (wd_permission_grant_id d) @
     present ''squash'' JBool (wd_squash d) @
     [(''interface'', JString ''Records''), (''method'', JString ''Write'')])"

definition delete_descriptor_json :: "'x ext_scheme \<Rightarrow> delete_descriptor \<Rightarrow> json" where
  "delete_descriptor_json E d = JObject (
     [(''messageTimestamp'', JString (canonical_rfc3339 E (dd_message_timestamp d)))] @
     present ''permissionGrantId'' JString (dd_permission_grant_id d) @
     [(''recordId'', JString (dd_record_id d)), (''prune'', JBool (dd_prune d)),
      (''interface'', JString ''Records''), (''method'', JString ''Delete'')])"

section \<open>Index entries\<close>

text \<open>An integer beyond \<open>i64\<close> is cast, which keeps its bits.\<close>

fun json_to_index_value :: "json \<Rightarrow> val option" where
  "json_to_index_value JNull = None"
| "json_to_index_value (JBool b) = Some (VBool b)"
| "json_to_index_value (JInt n) = Some (VNumber (word_of_int n))"
| "json_to_index_value (JFloat f) = Some (VFloat f)"
| "json_to_index_value (JString s) = Some (VString s)"
| "json_to_index_value (JArray js) = Some (VArray (concat (map (\<lambda>j.
     case json_to_index_value j of None \<Rightarrow> [] | Some v \<Rightarrow> [v]) js)))"
| "json_to_index_value (JObject kvs) = Some (VMap (bt_from (concat (map (\<lambda>(k, j).
     case json_to_index_value j of None \<Rightarrow> [] | Some v \<Rightarrow> [(k, v)]) kvs))))"

definition index_entries :: "(string \<times> json) list \<Rightarrow> (string \<times> val) list" where
  "index_entries kvs =
     concat (map (\<lambda>(k, j). case json_to_index_value j of None \<Rightarrow> [] | Some v \<Rightarrow> [(k, v)]) kvs)"

definition descriptor_indexes :: "json \<Rightarrow> (string, key_values) result" where
  "descriptor_indexes j =
     rbind (ok_or ''DescriptorIndexInvalid: descriptor must be an object'' (as_object j)) (\<lambda>kvs.
       Inr (bt_from (index_entries kvs)))"

definition insert_present :: "string \<Rightarrow> string option \<Rightarrow> key_values \<Rightarrow> key_values" where
  "insert_present key v indexes = (case v of None \<Rightarrow> indexes | Some s \<Rightarrow> bt_insert key (VString s) indexes)"

definition insert_tags :: "map_value \<Rightarrow> key_values \<Rightarrow> key_values" where
  "insert_tags tags indexes = fold (\<lambda>(key, v). bt_insert (''tag.'' @ key) v) tags indexes"

definition describe_write :: "message \<Rightarrow> (string, write_descriptor) result" where
  "describe_write m = map_err records_write_descriptor_error_text (records_write_descriptor m)"

definition records_write_indexes ::
  "'x mext_scheme \<Rightarrow> message \<Rightarrow> string \<Rightarrow> bool \<Rightarrow> (string, key_values) result" where
  "records_write_indexes E m author is_latest_base_state =
     rbind (describe_write m) (\<lambda>d.
     rbind (descriptor_indexes (write_descriptor_json E d)) (\<lambda>indexes.
     let indexes = bt_remove ''tags'' indexes;
         indexes = bt_insert ''isLatestBaseState'' (VBool is_latest_base_state) indexes;
         indexes = bt_insert ''published'' (VBool (case wd_published d of None \<Rightarrow> False | Some b \<Rightarrow> b)) indexes;
         indexes = bt_insert ''squash'' (VBool (case wd_squash d of None \<Rightarrow> False | Some b \<Rightarrow> b)) indexes;
         indexes = bt_insert ''author'' (VString author) indexes
     in rbind (ok_or ''RecordsWriteMissingRecordId: recordId is required'' (record_id m)) (\<lambda>ident.
     let indexes = bt_insert ''recordId'' (VString ident) indexes
     in rbind (entry_id E author d) (\<lambda>entry.
     let indexes = bt_insert ''entryId'' (VString entry) indexes;
         indexes = insert_present ''contextId'' (context_id m) indexes
     in Inr (if is_latest_base_state
             then (case wd_tags d of None \<Rightarrow> indexes | Some tags \<Rightarrow> insert_tags tags indexes) else indexes)))))"

definition records_delete_descriptor :: "message \<Rightarrow> (string, delete_descriptor) result" where
  "records_delete_descriptor m =
     (case msg_descriptor m of
        DescriptorRecords (RecordsDelete d) \<Rightarrow> Inr d
      | _ \<Rightarrow> Inl ''RecordsDeleteDescriptorExpected: message is not RecordsDelete'')"

definition records_delete_indexes ::
  "'x mext_scheme \<Rightarrow> message \<Rightarrow> message \<Rightarrow> string \<Rightarrow> (string, key_values) result" where
  "records_delete_indexes E m initial_write author =
     rbind (records_delete_descriptor m) (\<lambda>d.
     rbind (describe_write initial_write) (\<lambda>initial.
     rbind (descriptor_indexes (delete_descriptor_json E d)) (\<lambda>indexes.
     let indexes = bt_insert ''isLatestBaseState'' (VBool True) indexes;
         indexes = bt_insert ''author'' (VString author) indexes;
         indexes = bt_insert ''protocol'' (VString (wd_protocol initial)) indexes;
         indexes = bt_insert ''protocolPath'' (VString (wd_protocol_path initial)) indexes;
         indexes = insert_present ''recipient'' (wd_recipient initial) indexes;
         indexes = insert_present ''schema'' (wd_schema initial) indexes;
         indexes = insert_present ''parentId'' (wd_parent_id initial) indexes;
         indexes = bt_insert ''dateCreated'' (VString (canonical_rfc3339 E (wd_date_created initial))) indexes
     in Inr (insert_present ''contextId'' (context_id initial_write) indexes))))"

definition message_record_id :: "message \<Rightarrow> string option" where
  "message_record_id m =
     (case record_id m of
        Some ident \<Rightarrow> Some ident
      | None \<Rightarrow> (case records_delete_descriptor m of Inl _ \<Rightarrow> None | Inr d \<Rightarrow> Some (dd_record_id d)))"

section \<open>Checks against the initial write\<close>

definition find_initial_write :: "'x pext_scheme \<Rightarrow> message list \<Rightarrow> message option" where
  "find_initial_write E messages =
     find (\<lambda>m. let own_author = (case message_author E m of None \<Rightarrow> [] | Some a \<Rightarrow> a)
               in is_ok (records_write_descriptor m) \<and> is_initial_write E m own_author = Inr True) messages"

definition changed_property :: "write_descriptor \<Rightarrow> write_descriptor \<Rightarrow> string option" where
  "changed_property initial new =
     (if wd_protocol initial \<noteq> wd_protocol new then Some ''protocol''
      else if wd_protocol_path initial \<noteq> wd_protocol_path new then Some ''protocolPath''
      else if wd_recipient initial \<noteq> wd_recipient new then Some ''recipient''
      else if wd_schema initial \<noteq> wd_schema new then Some ''schema''
      else if wd_parent_id initial \<noteq> wd_parent_id new then Some ''parentId''
      else if wd_permission_grant_id initial \<noteq> wd_permission_grant_id new then Some ''permissionGrantId''
      else if wd_date_created initial \<noteq> wd_date_created new then Some ''dateCreated''
      else if wd_squash initial \<noteq> wd_squash new then Some ''squash''
      else None)"

definition verify_immutable_properties :: "message \<Rightarrow> message \<Rightarrow> (string, unit) result" where
  "verify_immutable_properties initial_write new_message =
     rbind (describe_write initial_write) (\<lambda>initial.
     rbind (describe_write new_message) (\<lambda>new.
       case changed_property initial new of
         Some property \<Rightarrow> Inl (property @ '' is an immutable property'')
       | None \<Rightarrow> Inr ()))"

datatype data_integrity_error = DataCidMismatch cid cid | DataSizeMismatch u64 u64

definition validate_data_integrity :: "cid \<Rightarrow> u64 \<Rightarrow> cid \<Rightarrow> u64 \<Rightarrow> (data_integrity_error, unit) result" where
  "validate_data_integrity expected_data_cid expected_data_size actual_data_cid actual_data_size =
     (if expected_data_cid \<noteq> actual_data_cid then Inl (DataCidMismatch actual_data_cid expected_data_cid)
      else if expected_data_size \<noteq> actual_data_size then Inl (DataSizeMismatch actual_data_size expected_data_size)
      else Inr ())"

section \<open>Looking up index entries\<close>

lemma bt_get_from: "bt_get (bt_from xs) k = map_of (rev xs) k"
  unfolding bt_from_def
  by (induction xs rule: rev_induct) (auto simp: bt_get_insert)

lemma bt_sorted_from [simp]: "bt_sorted (bt_from xs)"
  unfolding bt_from_def
  by (induction xs rule: rev_induct) auto

lemma index_entries_simps [simp]:
  "index_entries [] = []"
  "index_entries ((k, j) # kvs) =
     (case json_to_index_value j of None \<Rightarrow> [] | Some v \<Rightarrow> [(k, v)]) @ index_entries kvs"
  "index_entries (kvs @ rest) = index_entries kvs @ index_entries rest"
  by (simp_all add: index_entries_def)

lemma map_of_present [simp]:
  "map_of (rev (index_entries (present name f v))) k =
     (if k = name then Option.bind v (\<lambda>x. json_to_index_value (f x)) else None)"
  by (auto simp: present_def split: option.splits)

lemma insert_present_get [simp]:
  "bt_get (insert_present key v indexes) k =
     (case v of Some s \<Rightarrow> if k = key then Some (VString s) else bt_get indexes k | None \<Rightarrow> bt_get indexes k)"
  by (simp add: insert_present_def bt_get_insert split: option.split)

lemma insert_tags_get:
  "take 4 k \<noteq> ''tag.'' \<Longrightarrow> bt_get (insert_tags tags indexes) k = bt_get indexes k"
proof (induction tags arbitrary: indexes)
  case (Cons kv tags)
  obtain key v where "kv = (key, v)" by fastforce
  with Cons.IH [OF Cons.prems] Cons.prems show ?case
    by (auto simp: insert_tags_def bt_get_insert)
qed (simp add: insert_tags_def)

text \<open>The index entries of a write, by the name of the entry.\<close>

lemma write_indexes_get:
  assumes "records_write_indexes E m author latest = Inr ix" and "describe_write m = Inr d"
    and "take 4 k \<noteq> ''tag.''"
  shows "bt_get ix k =
    (if k = ''contextId'' \<and> context_id m \<noteq> None then map_option VString (context_id m)
     else if k = ''entryId'' then (case entry_id E author d of Inl _ \<Rightarrow> None | Inr e \<Rightarrow> Some (VString e))
     else if k = ''recordId'' then map_option VString (record_id m)
     else if k = ''author'' then Some (VString author)
     else if k = ''squash'' then Some (VBool (wd_squash d = Some True))
     else if k = ''published'' then Some (VBool (wd_published d = Some True))
     else if k = ''isLatestBaseState'' then Some (VBool latest)
     else if k = ''tags'' then None
     else bt_get (bt_from (case write_descriptor_json E d of JObject kvs \<Rightarrow> index_entries kvs)) k)"
proof -
  obtain kvs where kvs: "write_descriptor_json E d = JObject kvs" by (simp add: write_descriptor_json_def)
  have flag: "(case b of None \<Rightarrow> False | Some b \<Rightarrow> b) \<longleftrightarrow> b = Some True" for b
    by (auto split: option.split)
  from assms(1,2) kvs obtain ident e where "record_id m = Some ident" "entry_id E author d = Inr e"
    and "bt_get ix k = bt_get (insert_present ''contextId'' (context_id m)
      (bt_insert ''entryId'' (VString e) (bt_insert ''recordId'' (VString ident)
      (bt_insert ''author'' (VString author) (bt_insert ''squash'' (VBool (wd_squash d = Some True))
      (bt_insert ''published'' (VBool (wd_published d = Some True))
      (bt_insert ''isLatestBaseState'' (VBool latest)
      (bt_remove ''tags'' (bt_from (index_entries kvs)))))))))) k"
    by (auto simp: records_write_indexes_def rbind_Inr_iff descriptor_indexes_def Let_def flag
        insert_tags_get [OF assms(3)] split: if_splits option.splits)
  with kvs show ?thesis by (auto simp: bt_get_insert bt_get_remove split: option.splits)
qed

lemma bind_Some_map [simp]: "Option.bind v (\<lambda>x. Some (f x)) = map_option f v"
  by (cases v) simp_all

lemma write_indexes_values:
  assumes "records_write_indexes E m author latest = Inr ix" and "describe_write m = Inr d"
  shows "bt_get ix ''interface'' = Some (VString ''Records'')"
    and "bt_get ix ''method'' = Some (VString ''Write'')"
    and "bt_get ix ''protocol'' = Some (VString (wd_protocol d))"
    and "bt_get ix ''protocolPath'' = Some (VString (wd_protocol_path d))"
    and "bt_get ix ''recipient'' = map_option VString (wd_recipient d)"
    and "bt_get ix ''parentId'' = map_option VString (wd_parent_id d)"
    and "bt_get ix ''permissionGrantId'' = map_option VString (wd_permission_grant_id d)"
    and "bt_get ix ''messageTimestamp'' = Some (VString (canonical_rfc3339 E (wd_message_timestamp d)))"
    and "bt_get ix ''dateCreated'' = Some (VString (canonical_rfc3339 E (wd_date_created d)))"
    and "bt_get ix ''author'' = Some (VString author)"
    and "bt_get ix ''published'' = Some (VBool (wd_published d = Some True))"
    and "bt_get ix ''isLatestBaseState'' = Some (VBool latest)"
    and "bt_get ix ''recordId'' = map_option VString (record_id m)"
  by (simp_all add: write_indexes_get [OF assms] bt_get_from write_descriptor_json_def map_add_def
      split: option.split)

section \<open>Filters over named entries\<close>

lemma set_bt_from: "distinct (map fst xs) \<Longrightarrow> set (bt_from xs) = set xs"
proof -
  assume dist: "distinct (map fst xs)"
  have "(k, v) \<in> set (bt_from xs) \<longleftrightarrow> (k, v) \<in> set xs" for k v
    using dist bt_get_iff_in [of "bt_from xs" k v] map_of_eq_Some_iff [of "rev xs" k v]
    by (simp add: bt_get_from flip: rev_map)
  then show ?thesis by auto
qed

lemma matches_filter_map:
  assumes "distinct (map fst items)"
  shows "matches_set E ix (filter_map items) \<longleftrightarrow>
    (\<forall>(k, f) \<in> set items. \<exists>v. bt_get ix k = Some v \<and> matches_filter E v f)"
proof -
  have "distinct (map fst (map (\<lambda>(key, f). (FKIndex key, f)) items))"
    using assms by (auto simp: distinct_map inj_on_def split_beta)
  then show ?thesis by (force simp: matches_set_iff filter_map_def set_bt_from)
qed

lemma matches_string_filter [simp]: "matches_filter E (VString a) (string_filter b) \<longleftrightarrow> a = b"
  by (auto simp: string_filter_def matches_equal_def)

lemma matches_bool_filter [simp]: "matches_filter E (VBool a) (bool_filter b) \<longleftrightarrow> a = b"
  by (auto simp: bool_filter_def matches_equal_def)

lemma revocation_selected:
  assumes "records_write_indexes E r author True = Inr ix" and "describe_write r = Inr d"
    and "wd_protocol_path d = permissions_revocation_path" and "wd_parent_id d = Some (gr_id g)"
    and "mr_indexes row = ix"
  shows "selected E (revocation_filters g) ''messageTimestamp'' row"
proof -
  have "matches_set E ix (filter_map [(''parentId'', string_filter (gr_id g)),
      (''protocolPath'', string_filter permissions_revocation_path), (''isLatestBaseState'', bool_filter True)])"
    by (subst matches_filter_map) (simp_all add: write_indexes_values [OF assms(1,2)] assms(3,4))
  then show ?thesis
    by (simp add: selected_def assms(5) matches_filters_def revocation_filters_def bt_contains_def
        write_indexes_values [OF assms(1,2)])
qed

lemma stored_row_in_tenant:
  "store_put E t m ix s = Inr (s', w) \<Longrightarrow> row_of E \<lparr>lm_message = m, lm_indexes = ix\<rparr> \<in> set (tenant_rows s' t)"
  using put_look [of E t "\<lparr>lm_message = m, lm_indexes = ix\<rparr>" s s' w "(t, cid_key E m)"]
  by (auto simp: store_put_def in_tenant_rows dest: bt_get_SomeD)

section \<open>Properties\<close>

text \<open>
  C39: a revocation takes effect. Once the grantor's node has stored a revocation of a grant under the
  index entries it computes for it as the latest state, no message dated at or after the revocation
  passes the check of that grant, whoever invokes it and for whatever request.
\<close>

theorem stored_revocation_takes_effect:
  assumes "describe_write r = Inr d" and "wd_protocol_path d = permissions_revocation_path"
    and "wd_parent_id d = Some (gr_id g)"
    and "records_write_indexes E r author True = Inr ix"
    and "store_put E (gr_grantor g) r ix s = Inr (s', w)"
    and "wd_message_timestamp d \<le> sent_at m"
  shows "\<not> is_ok (perform_base_validation E s' m grantor grantee g)"
proof
  let ?row = "row_of E \<lparr>lm_message = r, lm_indexes = ix\<rparr>"
  assume "is_ok (perform_base_validation E s' m grantor grantee g)"
  then have "verify_grant_not_revoked E s' (gr_grantor g) (sent_at m) g = Inr ()"
    by (auto simp: is_ok_unit_iff base_validation_iff)
  moreover have "selected E (revocation_filters g) ''messageTimestamp'' ?row"
    by (rule revocation_selected [OF assms(4,1,2,3)]) (simp add: row_of_def)
  ultimately have "sent_at m < sent_at r"
    using stored_row_in_tenant [OF assms(5)] by (auto simp: not_revoked_iff row_of_def)
  moreover have "sent_at r = wd_message_timestamp d"
    using assms(1) by (auto simp: describe_write_def records_write_descriptor_def map_err_def
        split: sum.splits descriptor.splits records.splits)
  ultimately show False using assms(6) by simp
qed

theorem stored_revocation_takes_effect_witness:
  "\<exists>s w ix. records_write_indexes plain_pext (revocation_of ''g1'' 50) ''did:a'' True = Inr ix
     \<and> store_put plain_pext ''did:a'' (revocation_of ''g1'' 50) ix memory_message_state_default = Inr (s, w)
     \<and> \<not> is_ok (perform_base_validation plain_pext s (query_at 50) ''did:a'' ''did:bob'' sample_permission)"
proof -
  let ?r = "revocation_of ''g1'' 50"
  obtain d where d: "describe_write ?r = Inr d" "wd_protocol_path d = permissions_revocation_path"
      "wd_parent_id d = Some (gr_id sample_permission)" "wd_message_timestamp d \<le> sent_at (query_at 50)"
    by (simp add: revocation_of_def describe_write_def records_write_descriptor_def map_err_def
        sample_permission_def query_at_def)
  have "case records_write_indexes plain_pext ?r ''did:a'' True of
      Inr ix \<Rightarrow> is_ok (store_put plain_pext (gr_grantor sample_permission) ?r ix memory_message_state_default)
    | Inl _ \<Rightarrow> False"
    by code_simp
  then obtain ix s w where "records_write_indexes plain_pext ?r ''did:a'' True = Inr ix"
      "store_put plain_pext (gr_grantor sample_permission) ?r ix memory_message_state_default = Inr (s, w)"
    by (auto simp: is_ok_iff split: sum.splits)
  moreover from stored_revocation_takes_effect [OF d(1-3) this d(4)]
  have "\<not> is_ok (perform_base_validation plain_pext s (query_at 50) ''did:a'' ''did:bob'' sample_permission)" .
  ultimately show ?thesis by (auto simp: sample_permission_def)
qed

end
