(* ===== verification/ProtocolHandlers.thy ===== *)
theory ProtocolHandlers
  imports RecordsIndexes
begin

text \<open>
  Protocol definitions as the handlers look them up, \<open>handlers/protocols/common.rs\<close>: the definitions
  of the two core protocols (\<open>permissions/mod.rs\<close>, \<open>encryption/protocol.rs\<close>), which take precedence
  over anything stored, the filters and index entries of a configuration, and the definition in force
  at a time.
\<close>

section \<open>Core protocols\<close>

definition json_type :: "string option \<Rightarrow> bool option \<Rightarrow> type_spec" where
  "json_type schema encryption =
     \<lparr>ts_schema = schema, ts_data_formats = Some [''application/json''], ts_encryption_required = encryption\<rparr>"

definition bounded_immutable :: "action list \<Rightarrow> rule_map \<Rightarrow> rule_set" where
  "bounded_immutable actions rules =
     RuleSet None actions None None (Some \<lparr>size_min = None, size_max = Some 10000\<rparr>) None None (Some True) None None rules"

definition permissions_protocol_definition :: protocol_definition where
  "permissions_protocol_definition =
     \<lparr>pd_protocol = permissions_protocol_uri, pd_published = True, pd_uses = None, pd_key_agreement = None,
      pd_types = bt_from [(''request'', json_type None None), (''grant'', json_type None None),
        (''revocation'', json_type None None)],
      pd_structure = bt_from
        [(''request'', bounded_immutable
            [ActionWho \<lparr>aw_who = WhoAnyone, aw_of = None, aw_can = [CanCreate]\<rparr>] []),
         (''grant'', bounded_immutable
            [ActionWho \<lparr>aw_who = WhoRecipient, aw_of = Some ''grant'', aw_can = [CanRead]\<rparr>]
            (bt_from [(''revocation'', bounded_immutable
               [ActionWho \<lparr>aw_who = WhoAnyone, aw_of = None, aw_can = [CanRead]\<rparr>] [])]))]\<rparr>"

definition encryption_protocol_uri :: string where
  "encryption_protocol_uri = ''https://identity.foundation/dwn/protocols/encryption''"

definition grant_key_path :: string where
  "grant_key_path = ''grantKey''"

definition wrapped_grant_key_path :: string where
  "wrapped_grant_key_path = ''wrappedGrantKey''"

definition grant_key_payload_schema_uri :: string where
  "grant_key_payload_schema_uri = ''https://identity.foundation/dwn/json-schemas/encryption/grant-key.json''"

definition wrapped_grant_key_envelope_schema_uri :: string where
  "wrapped_grant_key_envelope_schema_uri =
     ''https://identity.foundation/dwn/json-schemas/encryption/wrapped-grant-key-envelope.json''"

definition string_tag :: "usize option \<Rightarrow> usize option \<Rightarrow> provided_tags" where
  "string_tag min_length max_length =
     \<lparr>pt_tag_type = TagTypeString, pt_items = None, pt_contains = None, pt_enum_values = [],
      pt_max_length = max_length, pt_min_length = min_length, pt_minimum = None, pt_maximum = None,
      pt_exclusive_minimum = None, pt_exclusive_maximum = None, pt_min_items = None, pt_max_items = None,
      pt_unique_items = None, pt_min_contains = None, pt_max_contains = None\<rparr>"

definition delivery_tags :: tags_spec where
  "delivery_tags =
     \<lparr>tg_required_tags = [''grantId'', ''protocol'', ''keyId''], tg_allow_undefined_tags = Some False,
      tg_tags = bt_from [(''grantId'', string_tag None None), (''keyId'', string_tag (Some 43) (Some 43)),
        (''protocol'', string_tag None None), (''protocolPath'', string_tag None None)]\<rparr>"

definition delivery_rule_set :: "string \<Rightarrow> rule_set" where
  "delivery_rule_set path =
     RuleSet None
       [ActionWho \<lparr>aw_who = WhoAnyone, aw_of = None, aw_can = [CanCreate]\<rparr>,
        ActionWho \<lparr>aw_who = WhoRecipient, aw_of = Some path, aw_can = [CanRead]\<rparr>]
       None None None (Some delivery_tags) None (Some True) None None []"

definition encryption_protocol_definition :: protocol_definition where
  "encryption_protocol_definition =
     \<lparr>pd_protocol = encryption_protocol_uri, pd_published = True, pd_uses = None, pd_key_agreement = None,
      pd_types = bt_from
        [(grant_key_path, json_type (Some grant_key_payload_schema_uri) (Some True)),
         (wrapped_grant_key_path, json_type (Some wrapped_grant_key_envelope_schema_uri) None)],
      pd_structure = bt_from
        [(grant_key_path, delivery_rule_set grant_key_path),
         (wrapped_grant_key_path, delivery_rule_set wrapped_grant_key_path)]\<rparr>"

definition core_definition :: "string \<Rightarrow> protocol_definition option" where
  "core_definition uri =
     (if uri = permissions_protocol_uri then Some permissions_protocol_definition
      else if uri = encryption_protocol_uri then Some encryption_protocol_definition
      else None)"

section \<open>Filters and index entries\<close>

definition configure_filter :: "(string \<times> val qfilter) list \<Rightarrow> filters" where
  "configure_filter extra =
     [filter_map ([(''interface'', string_filter ''Protocols''), (''method'', string_filter ''Configure'')] @ extra)]"

definition protocol_configure_filters :: "string \<Rightarrow> bool \<Rightarrow> filters" where
  "protocol_configure_filters protocol latest_only =
     configure_filter ([(''protocol'', string_filter protocol)] @
       (if latest_only then [(''isLatestBaseState'', bool_filter True)] else []))"

definition latest_configure_filters :: filters where
  "latest_configure_filters = configure_filter [(''isLatestBaseState'', bool_filter True)]"

definition protocol_definition_lookup_filters :: "string \<Rightarrow> string option \<Rightarrow> filters" where
  "protocol_definition_lookup_filters protocol timestamp =
     configure_filter [(''protocol'', string_filter protocol),
       (case timestamp of
          Some t \<Rightarrow>
            (''messageTimestamp'', FilterRange (RangeNumeric Unbounded (Included (VString t))))
        | None \<Rightarrow> (''isLatestBaseState'', bool_filter True))]"

definition protocol_definition_history_filters :: "string \<Rightarrow> filters" where
  "protocol_definition_history_filters protocol = configure_filter [(''protocol'', string_filter protocol)]"

definition configure_indexes ::
  "'x ext_scheme \<Rightarrow> configure_descriptor \<Rightarrow> string option \<Rightarrow> bool \<Rightarrow> key_values" where
  "configure_indexes E d author is_latest_base_state =
     insert_present ''permissionGrantId'' (cd_permission_grant_id d)
       (insert_present ''author'' author
         (bt_from [(''interface'', VString ''Protocols''), (''method'', VString ''Configure''),
            (''messageTimestamp'', VString (canonical_rfc3339 E (cd_message_timestamp d))),
            (''protocol'', VString (pd_protocol (cd_definition d))),
            (''published'', VBool (pd_published (cd_definition d))),
            (''isLatestBaseState'', VBool is_latest_base_state)]))"

definition describe_configure :: "message \<Rightarrow> (string, configure_descriptor) result" where
  "describe_configure m =
     map_err (\<lambda>_. ''expected ProtocolsConfigure message'') (protocols_configure_descriptor m)"

section \<open>The definition in force\<close>

datatype definition_lookup_error =
    LookupNotFound string
  | LookupStore message_store_error
  | LookupInvalidMessage string

definition fetch_protocol_definition ::
  "'x ext_scheme \<Rightarrow> memory_message_state \<Rightarrow> string \<Rightarrow> string \<Rightarrow> string option
    \<Rightarrow> (definition_lookup_error, protocol_definition) result" where
  "fetch_protocol_definition E s tenant uri timestamp =
     (case core_definition uri of
        Some d \<Rightarrow> Inr d
      | None \<Rightarrow>
          rbind (map_err LookupStore
            (store_query E tenant (protocol_definition_lookup_filters uri timestamp)
              (Some (SortTimestamp Descending)) (Some (with_limit 1)) None s)) (\<lambda>found.
          rbind (if mq_messages found = [] \<and> timestamp \<noteq> None
                 then map_err LookupStore
                   (store_query E tenant (protocol_definition_history_filters uri)
                     (Some (SortTimestamp Ascending)) (Some (with_limit 1)) None s)
                 else Inr found) (\<lambda>found.
          case mq_messages found of
            [] \<Rightarrow> Inl (LookupNotFound uri)
          | m # _ \<Rightarrow>
              rbind (map_err LookupInvalidMessage (describe_configure m)) (\<lambda>d. Inr (cd_definition d)))))"

end
