(* ===== verification/RecordsAccess.thy ===== *)
theory RecordsAccess
  imports ProtocolHandlers
begin

text \<open>
  Who may reach a record, \<open>handlers/records/common.rs\<close> and \<open>handlers/records/visibility.rs\<close>: the store
  filters a records filter stands for, the authorization of single records by ownership, grant, role
  and protocol action, and the plan from which every collection method derives the population a
  requester sees. The theorems state which records such a plan selects, and one case in which it
  selects all of them.

  An error keeps what it prints: the text, or the error of the component it comes from.
\<close>

section \<open>From a records filter to store filters\<close>

definition insert_string_filter :: "string \<Rightarrow> string option \<Rightarrow> value_filter \<Rightarrow> value_filter" where
  "insert_string_filter key v fmap =
     (case v of None \<Rightarrow> fmap | Some s \<Rightarrow> bt_insert (FKIndex key) (string_filter s) fmap)"

definition insert_bool_filter :: "string \<Rightarrow> bool option \<Rightarrow> value_filter \<Rightarrow> value_filter" where
  "insert_bool_filter key v fmap =
     (case v of None \<Rightarrow> fmap | Some b \<Rightarrow> bt_insert (FKIndex key) (bool_filter b) fmap)"

definition insert_string_vec_filter :: "string \<Rightarrow> string list option \<Rightarrow> value_filter \<Rightarrow> value_filter" where
  "insert_string_vec_filter key v fmap =
     (case v of
        None \<Rightarrow> fmap
      | Some [] \<Rightarrow> fmap
      | Some [x] \<Rightarrow> bt_insert (FKIndex key) (string_filter x) fmap
      | Some xs \<Rightarrow> bt_insert (FKIndex key) (FilterOneOf (map VString xs)) fmap)"

fun bound_u64_to_value :: "u64 bound \<Rightarrow> val bound" where
  "bound_u64_to_value (Included n) = Included (VNumber n)"
| "bound_u64_to_value (Excluded n) = Excluded (VNumber n)"
| "bound_u64_to_value Unbounded = Unbounded"

fun range_u64_filter :: "u64 range_filter \<Rightarrow> val qfilter" where
  "range_u64_filter (RangeNumeric l u) = FilterRange (RangeNumeric (bound_u64_to_value l) (bound_u64_to_value u))"
| "range_u64_filter (RangeCriterion l u) = FilterRange (RangeCriterion (bound_u64_to_value l) (bound_u64_to_value u))"

definition range_string_filter :: "string range_filter \<Rightarrow> val qfilter" where
  "range_string_filter r = FilterRange (range_of_string r)"

definition insert_some :: "string \<Rightarrow> ('a \<Rightarrow> val qfilter) \<Rightarrow> 'a option \<Rightarrow> value_filter \<Rightarrow> value_filter" where
  "insert_some key f v fmap = (case v of None \<Rightarrow> fmap | Some x \<Rightarrow> bt_insert (FKIndex key) (f x) fmap)"

definition published_sort :: "date_sort option \<Rightarrow> bool" where
  "published_sort date_sort = (date_sort = Some PublishedAscending \<or> date_sort = Some PublishedDescending)"

definition insert_tag_filters :: "(string, val qfilter) btree \<Rightarrow> value_filter \<Rightarrow> value_filter" where
  "insert_tag_filters tags fmap = fold (\<lambda>(key, v). bt_insert (FKIndex (''tag.'' @ key)) v) tags fmap"

definition records_filter_to_filter_map :: "records_filter \<Rightarrow> date_sort option \<Rightarrow> value_filter" where
  "records_filter_to_filter_map f date_sort =
     (let m = insert_string_vec_filter ''author'' (rf_author f) [];
          m = insert_string_filter ''attester'' (rf_attester f) m;
          m = insert_string_vec_filter ''recipient'' (rf_recipient f) m;
          m = insert_string_filter ''protocol'' (rf_protocol f) m;
          m = insert_string_filter ''protocolPath'' (rf_protocol_path f) m;
          m = insert_bool_filter ''published'' (rf_published f) m;
          m = insert_string_filter ''schema'' (rf_schema f) m;
          m = insert_string_filter ''recordId'' (rf_record_id f) m;
          m = insert_string_filter ''parentId'' (rf_parent_id f) m;
          m = insert_string_filter ''dataFormat'' (rf_data_format f) m;
          m = insert_some ''contextId'' FilterSubtree (rf_context_id f) m;
          m = insert_some ''dataCid'' string_filter (rf_data_cid f) m;
          m = insert_some ''dataSize'' range_u64_filter (rf_data_size f) m;
          m = insert_some ''dateCreated'' range_string_filter (rf_date_created f) m;
          m = (case rf_date_published f of
                 None \<Rightarrow> m
               | Some r \<Rightarrow> bt_insert (FKIndex ''datePublished'') (range_string_filter r)
                            (bt_insert (FKIndex ''published'') (bool_filter True) m));
          m = insert_some ''messageTimestamp'' range_string_filter (rf_date_updated f) m;
          m = (if rf_published f \<noteq> Some True \<and> published_sort date_sort
               then bt_insert (FKIndex ''published'') (bool_filter True) m else m)
      in case rf_tags f of None \<Rightarrow> m | Some tags \<Rightarrow> insert_tag_filters tags m)"

definition owner_records_filter :: "records_filter \<Rightarrow> date_sort option \<Rightarrow> value_filter" where
  "owner_records_filter f date_sort =
     bt_insert (FKIndex ''isLatestBaseState'') (bool_filter True)
       (bt_insert (FKIndex ''method'') (string_filter ''Write'')
         (bt_insert (FKIndex ''interface'') (string_filter ''Records'')
           (records_filter_to_filter_map f date_sort)))"

definition owner_records_event_filter :: "records_filter \<Rightarrow> value_filter" where
  "owner_records_event_filter f =
     bt_insert (FKIndex ''method'') (FilterOneOf [VString ''Write'', VString ''Delete''])
       (bt_insert (FKIndex ''interface'') (string_filter ''Records'')
         (records_filter_to_filter_map f None))"

definition published_records_filter :: "records_filter \<Rightarrow> date_sort option \<Rightarrow> value_filter" where
  "published_records_filter f date_sort =
     bt_insert (FKIndex ''published'') (bool_filter True) (owner_records_filter f date_sort)"

definition published_records_event_filter :: "records_filter \<Rightarrow> value_filter" where
  "published_records_event_filter f =
     bt_insert (FKIndex ''published'') (bool_filter True) (owner_records_event_filter f)"

definition filter_includes_published_records :: "records_filter \<Rightarrow> bool" where
  "filter_includes_published_records f = (rf_date_published f \<noteq> None \<or> rf_published f \<noteq> Some False)"

definition filter_includes_unpublished_records :: "records_filter \<Rightarrow> bool" where
  "filter_includes_unpublished_records f =
     (if rf_date_published f = None \<and> rf_published f = None then True else rf_published f = Some False)"

definition should_build_author_filter :: "records_filter \<Rightarrow> string \<Rightarrow> bool" where
  "should_build_author_filter f author =
     (case rf_author f of None \<Rightarrow> True | Some authors \<Rightarrow> authors = [] \<or> author \<in> set authors)"

definition should_build_recipient_filter :: "records_filter \<Rightarrow> string \<Rightarrow> bool" where
  "should_build_recipient_filter f recipient =
     (case rf_recipient f of None \<Rightarrow> True | Some recipients \<Rightarrow> recipients = [] \<or> recipient \<in> set recipients)"

text \<open>
  The two non-owner functions build the same branches, over the snapshot filter and over the event
  filter; \<open>non_owner_branches\<close> takes that filter as an argument.
\<close>

definition non_owner_branches ::
  "value_filter \<Rightarrow> records_filter \<Rightarrow> string \<Rightarrow> bool \<Rightarrow> bool \<Rightarrow> value_filter list" where
  "non_owner_branches owner f author protocol_authorized exact_audience =
     (let unpublished = bt_insert (FKIndex ''published'') (bool_filter False) in
      (if filter_includes_published_records f
         then [bt_insert (FKIndex ''published'') (bool_filter True) owner] else []) @
      (if filter_includes_unpublished_records f then
         (if exact_audience then [unpublished owner] else []) @
         (if should_build_author_filter f author
            then [unpublished (bt_insert (FKIndex ''author'') (string_filter author) owner)] else []) @
         (if protocol_authorized then [unpublished owner] else []) @
         (if should_build_recipient_filter f author
            then [unpublished (bt_insert (FKIndex ''recipient'') (string_filter author) owner)] else [])
       else []))"

definition non_owner_records_filters ::
  "records_filter \<Rightarrow> date_sort option \<Rightarrow> string \<Rightarrow> bool \<Rightarrow> bool \<Rightarrow> value_filter list" where
  "non_owner_records_filters f date_sort author protocol_authorized exact_audience =
     non_owner_branches (owner_records_filter f date_sort) f author protocol_authorized exact_audience"

definition non_owner_records_event_filters ::
  "records_filter \<Rightarrow> string \<Rightarrow> bool \<Rightarrow> bool \<Rightarrow> value_filter list" where
  "non_owner_records_event_filters f author protocol_authorized exact_audience =
     non_owner_branches (owner_records_event_filter f) f author protocol_authorized exact_audience"

definition date_sort_to_message_sort :: "date_sort option \<Rightarrow> bool \<Rightarrow> message_sort" where
  "date_sort_to_message_sort date_sort read_default =
     (case date_sort of
        Some CreatedAscending \<Rightarrow> SortDateCreated Ascending
      | Some CreatedDescending \<Rightarrow> SortDateCreated Descending
      | Some PublishedAscending \<Rightarrow> SortDatePublished Ascending
      | Some PublishedDescending \<Rightarrow> SortDatePublished Descending
      | Some UpdatedAscending \<Rightarrow> SortTimestamp Ascending
      | Some UpdatedDescending \<Rightarrow> SortTimestamp Descending
      | None \<Rightarrow> if read_default then SortTimestamp Descending else SortDateCreated Ascending)"

section \<open>Roles\<close>

datatype role_error_code =
    NotARole | RoleProtocolNotFound | RoleContextMissing | RoleRecordNotFound

datatype access_error =
    AccessCode role_error_code
  | AccessDetail string
  | AccessStore message_store_error
  | AccessLookup definition_lookup_error
  | AccessPermission permission_error

type_synonym 'a accessed = "(access_error, 'a) result"

record resolved_protocol_role =
  rpr_protocol :: string
  rpr_protocol_path :: string
  rpr_context_id_prefix :: "string option"
  rpr_role_record_id :: string

datatype records_authorization_kind = AuthWrite | AuthRead | AuthQuery | AuthCount | AuthSubscribe | AuthDelete bool

definition role_audience_context_id :: "string \<Rightarrow> string option \<Rightarrow> string option" where
  "role_audience_context_id role_path context =
     (let ancestor_count = length (split_on slash role_path) - 1 in
      if ancestor_count = 0 then Some []
      else case context of
             None \<Rightarrow> None
           | Some c \<Rightarrow>
               let segments = split_on slash c
               in if length segments < ancestor_count \<or> list_ex (\<lambda>segment. segment = []) segments then None
                  else Some (join_on slash (take ancestor_count segments)))"

definition role_filter :: "string \<Rightarrow> string \<Rightarrow> string \<Rightarrow> string \<Rightarrow> value_filter" where
  "role_filter recipient protocol role_path context_prefix =
     (let m = filter_map [(''interface'', string_filter ''Records''), (''method'', string_filter ''Write''),
            (''protocol'', string_filter protocol), (''protocolPath'', string_filter role_path),
            (''recipient'', string_filter recipient), (''isLatestBaseState'', bool_filter True)]
      in if context_prefix \<noteq> [] then bt_insert (FKIndex ''contextId'') (FilterSubtree context_prefix) m else m)"

definition query_role_records ::
  "'x ext_scheme \<Rightarrow> memory_message_state \<Rightarrow> string \<Rightarrow> string \<Rightarrow> string \<Rightarrow> string \<Rightarrow> string option
    \<Rightarrow> message option store_result" where
  "query_role_records E s tenant recipient protocol role_path context =
     (case role_audience_context_id role_path context of
        None \<Rightarrow> Inr None
      | Some context_prefix \<Rightarrow>
          rbind (store_query E tenant [role_filter recipient protocol role_path context_prefix]
            None (Some (with_limit 1)) None s) (\<lambda>found.
            Inr (case mq_messages found of [] \<Rightarrow> None | m # _ \<Rightarrow> Some m)))"

definition is_role_at :: "protocol_definition \<Rightarrow> string \<Rightarrow> bool" where
  "is_role_at d path = (case rule_at d path of None \<Rightarrow> False | Some rs \<Rightarrow> rs_role rs = Some True)"

definition uses_of :: "protocol_definition \<Rightarrow> string \<Rightarrow> string option" where
  "uses_of d alias = Option.bind (pd_uses d) (\<lambda>uses. bt_get uses alias)"

definition verify_invoked_role ::
  "'x ext_scheme \<Rightarrow> memory_message_state \<Rightarrow> string \<Rightarrow> string \<Rightarrow> string option \<Rightarrow> string \<Rightarrow> string option
    \<Rightarrow> protocol_definition \<Rightarrow> string \<Rightarrow> resolved_protocol_role option accessed" where
  "verify_invoked_role E s tenant author invoked_role protocol context defn evaluation_timestamp =
     (case invoked_role of
        None \<Rightarrow> Inr None
      | Some role \<Rightarrow>
          let parsed = parse_cross_protocol_ref role in
          rbind (case parsed of
                   Some r \<Rightarrow> rbind (ok_or (AccessCode NotARole) (uses_of defn (cr_alias r)))
                               (\<lambda>p. Inr (p, cr_protocol_path r))
                 | None \<Rightarrow> Inr (protocol, role)) (\<lambda>(role_protocol, role_path).
          rbind (case parsed of
                   Some _ \<Rightarrow>
                     rbind (map_err (\<lambda>e. case e of LookupNotFound _ \<Rightarrow> AccessCode RoleProtocolNotFound
                                                  | _ \<Rightarrow> AccessCode NotARole)
                       (fetch_protocol_definition E s tenant role_protocol (Some evaluation_timestamp)))
                       (\<lambda>referenced. Inr (is_role_at referenced role_path))
                 | None \<Rightarrow> Inr (is_role_at defn role_path)) (\<lambda>is_role.
          if \<not> is_role then Inl (AccessCode NotARole)
          else if role_audience_context_id role_path context = None then Inl (AccessCode RoleContextMissing)
          else
            rbind (map_err (\<lambda>_. AccessCode RoleRecordNotFound)
              (query_role_records E s tenant author role_protocol role_path context)) (\<lambda>role_record.
            case role_record of
              None \<Rightarrow> Inl (AccessCode RoleRecordNotFound)
            | Some m \<Rightarrow>
                Inr (Some \<lparr>rpr_protocol = role_protocol, rpr_protocol_path = role_path,
                  rpr_context_id_prefix = context,
                  rpr_role_record_id = (case record_id m of None \<Rightarrow> [] | Some i \<Rightarrow> i)\<rparr>)))))"

fun role_rule_allows :: "string \<Rightarrow> can \<Rightarrow> action \<Rightarrow> bool" where
  "role_rule_allows invoked_role can (ActionRole a) = (ar_role a = invoked_role \<and> can \<in> set (ar_can a))"
| "role_rule_allows invoked_role can (ActionWho a) = (aw_who a = WhoAnyone \<and> can \<in> set (aw_can a))"

definition resolve_query_or_subscribe_role ::
  "'x ext_scheme \<Rightarrow> memory_message_state \<Rightarrow> string \<Rightarrow> string \<Rightarrow> string \<Rightarrow> string \<Rightarrow> string option \<Rightarrow> can \<Rightarrow> rule_set
    \<Rightarrow> protocol_definition \<Rightarrow> string \<Rightarrow> resolved_protocol_role accessed" where
  "resolve_query_or_subscribe_role E s tenant author invoked_role protocol context can rule_set defn timestamp =
     rbind (verify_invoked_role E s tenant author (Some invoked_role) protocol context defn timestamp) (\<lambda>resolved.
     rbind (ok_or (AccessDetail ''invoked role is present'') resolved) (\<lambda>resolved.
       if list_ex (role_rule_allows invoked_role can) (rs_actions rule_set) then Inr resolved
       else Inl (AccessDetail ''ProtocolAuthorizationActionNotAllowed: no action rule allows the invoked role'')))"

definition authorize_protocol_query_or_subscribe ::
  "'x pext_scheme \<Rightarrow> memory_message_state \<Rightarrow> string \<Rightarrow> records_filter \<Rightarrow> authorization_context \<Rightarrow> string
    \<Rightarrow> resolved_protocol_role accessed" where
  "authorize_protocol_query_or_subscribe E s tenant f auth request_timestamp =
     rbind (ok_or (AccessDetail
       ''ProtocolAuthorizationMissingProtocol: role-authorized query must include protocol'') (rf_protocol f)) (\<lambda>protocol.
     rbind (ok_or (AccessDetail
       ''ProtocolAuthorizationMissingProtocolPath: role-authorized query must include protocolPath'')
       (rf_protocol_path f)) (\<lambda>path.
     rbind (map_err AccessLookup (fetch_protocol_definition E s tenant protocol (Some request_timestamp))) (\<lambda>d.
     rbind (ok_or (AccessDetail (''ProtocolAuthorizationInvalidProtocolPath: '' @ path @ '' is not defined''))
       (rule_at d path)) (\<lambda>rule_set.
     rbind (ok_or (AccessDetail ''protocolRole is required'') (ac_protocol_role auth)) (\<lambda>invoked_role.
       resolve_query_or_subscribe_role E s tenant (ac_author auth) invoked_role protocol (rf_context_id f) CanRead
         rule_set d request_timestamp)))))"

section \<open>Protocol actions\<close>

definition check_actor ::
  "'x pext_scheme \<Rightarrow> string \<Rightarrow> who \<Rightarrow> string option \<Rightarrow> message list \<Rightarrow> protocol_definition option \<Rightarrow> bool" where
  "check_actor E author who of_path record_chain defn =
     (case of_path of
        None \<Rightarrow> False
      | Some target \<Rightarrow>
          list_ex (\<lambda>m.
            case records_write_descriptor m of
              Inl _ \<Rightarrow> False
            | Inr d \<Rightarrow>
                (case parse_cross_protocol_ref target of
                   Some r \<Rightarrow>
                     (case Option.bind defn (\<lambda>d. uses_of d (cr_alias r)) of
                        None \<Rightarrow> False
                      | Some protocol \<Rightarrow> wd_protocol d = protocol \<and> wd_protocol_path d = cr_protocol_path r)
                 | None \<Rightarrow> wd_protocol_path d = target) \<and>
                (case who of
                   WhoAuthor \<Rightarrow> message_author E m = Some author
                 | WhoRecipient \<Rightarrow> wd_recipient d = Some author
                 | WhoAnyone \<Rightarrow> True)) record_chain)"

definition last_recipient :: "message list \<Rightarrow> string option" where
  "last_recipient record_chain =
     (if record_chain = [] then None
      else case records_write_descriptor (last record_chain) of Inl _ \<Rightarrow> None | Inr d \<Rightarrow> wd_recipient d)"

fun action_authorizes ::
  "'x pext_scheme \<Rightarrow> string \<Rightarrow> string option \<Rightarrow> can list \<Rightarrow> message list \<Rightarrow> protocol_definition option \<Rightarrow> action \<Rightarrow> bool"
where
  "action_authorizes E author invoked_role actions record_chain defn (ActionWho a) =
     (list_ex (\<lambda>can. can \<in> set actions) (aw_can a) \<and>
      (case aw_who a of
         WhoAnyone \<Rightarrow> True
       | who \<Rightarrow>
           if invoked_role \<noteq> None then False
           else if who = WhoRecipient \<and> aw_of a = None then last_recipient record_chain = Some author
           else check_actor E author who (aw_of a) record_chain defn))"
| "action_authorizes E author invoked_role actions record_chain defn (ActionRole a) =
     (list_ex (\<lambda>can. can \<in> set actions) (ar_can a) \<and> invoked_role = Some (ar_role a))"

definition authorize_actions ::
  "'x pext_scheme \<Rightarrow> string \<Rightarrow> string option \<Rightarrow> can list \<Rightarrow> rule_set \<Rightarrow> message list \<Rightarrow> protocol_definition option
    \<Rightarrow> unit accessed" where
  "authorize_actions E author invoked_role actions rule_set record_chain defn =
     (if list_ex (action_authorizes E author invoked_role actions record_chain defn) (rs_actions rule_set)
      then Inr ()
      else Inl (AccessDetail ''ProtocolAuthorizationActionNotAllowed: inbound message action is not allowed''))"

section \<open>Single records\<close>

definition first_message ::
  "'x ext_scheme \<Rightarrow> memory_message_state \<Rightarrow> string \<Rightarrow> (string \<times> val qfilter) list \<Rightarrow> message_sort option
    \<Rightarrow> message option accessed" where
  "first_message E s tenant items sort_by_key =
     rbind (map_err AccessStore
       (store_query E tenant [filter_map items] sort_by_key (Some (with_limit 1)) None s)) (\<lambda>found.
       Inr (case mq_messages found of [] \<Rightarrow> None | m # _ \<Rightarrow> Some m))"

definition fetch_newest_record_write ::
  "'x ext_scheme \<Rightarrow> memory_message_state \<Rightarrow> string \<Rightarrow> string \<Rightarrow> message accessed" where
  "fetch_newest_record_write E s tenant ident =
     rbind (first_message E s tenant
       [(''interface'', string_filter ''Records''), (''method'', string_filter ''Write''),
        (''recordId'', string_filter ident)] (Some (SortTimestamp Descending)))
       (ok_or (AccessDetail ''RecordsWriteGetNewestWriteRecordNotFound: record not found''))"

definition fetch_initial_write_message ::
  "'x ext_scheme \<Rightarrow> memory_message_state \<Rightarrow> string \<Rightarrow> string \<Rightarrow> message option accessed" where
  "fetch_initial_write_message E s tenant ident =
     first_message E s tenant [(''entryId'', string_filter ident)] None"

definition record_has_prune ::
  "'x ext_scheme \<Rightarrow> memory_message_state \<Rightarrow> string \<Rightarrow> string \<Rightarrow> bool accessed" where
  "record_has_prune E s tenant ident =
     rbind (first_message E s tenant
       [(''interface'', string_filter ''Records''), (''method'', string_filter ''Delete''),
        (''recordId'', string_filter ident), (''prune'', bool_filter True)] None) (\<lambda>m. Inr (m \<noteq> None))"

definition fetch_parent_record ::
  "'x ext_scheme \<Rightarrow> memory_message_state \<Rightarrow> string \<Rightarrow> string \<Rightarrow> string \<Rightarrow> message option accessed" where
  "fetch_parent_record E s tenant ident protocol =
     rbind (record_has_prune E s tenant ident) (\<lambda>pruned.
       if pruned then Inr None
       else
         rbind (fetch_initial_write_message E s tenant ident) (\<lambda>initial.
         case initial of
           None \<Rightarrow> Inr None
         | Some m \<Rightarrow>
             rbind (map_err AccessDetail (describe_write m)) (\<lambda>d.
               Inr (if wd_protocol d \<noteq> protocol then None else Some m))))"

definition governing_timestamp ::
  "'x pext_scheme \<Rightarrow> memory_message_state \<Rightarrow> string \<Rightarrow> message \<Rightarrow> string \<Rightarrow> string accessed" where
  "governing_timestamp E s tenant m author =
     rbind (map_err AccessDetail (is_initial_write E m author)) (\<lambda>initial.
       if initial then Inr (canonical_rfc3339 E (sent_at m))
       else
         rbind (ok_or (AccessDetail ''RecordsWriteMissingRecordId: recordId is required'') (record_id m)) (\<lambda>ident.
         rbind (fetch_initial_write_message E s tenant ident) (\<lambda>found.
         rbind (ok_or (AccessDetail ''RecordsWriteGetInitialWriteNotFound: Initial write is not found.'') found) (\<lambda>first.
           Inr (canonical_rfc3339 E (sent_at first))))))"

text \<open>
  The loop climbs from a record to the newest write of its parent. Nothing in it bounds the climb, so
  it is partial: on a store with a cycle of parents it does not return.
\<close>

partial_function (option) climb ::
  "'x ext_scheme \<Rightarrow> memory_message_state \<Rightarrow> string \<Rightarrow> message \<Rightarrow> message list accessed option" where
  "climb E s tenant m =
     (case describe_write m of
        Inl e \<Rightarrow> Some (Inl (AccessDetail e))
      | Inr d \<Rightarrow>
          (case wd_parent_id d of
             None \<Rightarrow> Some (Inr [m])
           | Some parent_id \<Rightarrow>
               (case fetch_newest_record_write E s tenant parent_id of
                  Inl e \<Rightarrow> Some (Inl e)
                | Inr parent \<Rightarrow>
                    Option.bind (climb E s tenant parent) (\<lambda>r. Some (rbind r (\<lambda>chain. Inr (m # chain)))))))"

definition construct_record_chain ::
  "'x ext_scheme \<Rightarrow> memory_message_state \<Rightarrow> string \<Rightarrow> message \<Rightarrow> message list accessed option" where
  "construct_record_chain E s tenant m =
     map_option (\<lambda>r. rbind r (\<lambda>chain. Inr (rev chain))) (climb E s tenant m)"

definition written_by :: "'x pext_scheme \<Rightarrow> message option \<Rightarrow> string \<Rightarrow> bool" where
  "written_by E m author = (Option.bind m (message_author E) = Some author)"

fun actions_for_message_kind ::
  "'x pext_scheme \<Rightarrow> memory_message_state \<Rightarrow> string \<Rightarrow> message \<Rightarrow> string \<Rightarrow> records_authorization_kind
    \<Rightarrow> can list accessed" where
  "actions_for_message_kind E s tenant m author AuthWrite =
     rbind (map_err AccessDetail (is_initial_write E m author)) (\<lambda>initial.
       if initial then
         rbind (map_err AccessDetail (describe_write m)) (\<lambda>d.
           Inr (if wd_squash d = Some True then [CanSquash, CanCreate] else [CanCreate]))
       else case record_id m of
              None \<Rightarrow> Inr []
            | Some ident \<Rightarrow>
                rbind (fetch_initial_write_message E s tenant ident) (\<lambda>first.
                  Inr (if written_by E first author then [CanCoUpdate, CanUpdate] else [CanCoUpdate])))"
| "actions_for_message_kind E s tenant m author (AuthDelete prune) =
     (let actions = (if prune then [CanCoPrune] else [CanCoDelete]) in
      case message_record_id m of
        None \<Rightarrow> Inr actions
      | Some ident \<Rightarrow>
          rbind (fetch_initial_write_message E s tenant ident) (\<lambda>first.
            Inr (if written_by E first author
                 then actions @ [if prune then CanPrune else CanDelete] else actions)))"
| "actions_for_message_kind E s tenant m author _ = Inr [CanRead]"

definition authorize_against_protocol ::
  "'x pext_scheme \<Rightarrow> memory_message_state \<Rightarrow> string \<Rightarrow> message \<Rightarrow> authorization_context
    \<Rightarrow> records_authorization_kind \<Rightarrow> string option \<Rightarrow> unit accessed option" where
  "authorize_against_protocol E s tenant m auth kind timestamp =
     (let author = ac_author auth; invoked_role = ac_protocol_role auth;
          checked =
            rbind (map_err AccessDetail (describe_write m)) (\<lambda>w.
            rbind (case timestamp of Some t \<Rightarrow> Inr t | None \<Rightarrow> governing_timestamp E s tenant m author) (\<lambda>at.
            rbind (map_err AccessLookup (fetch_protocol_definition E s tenant (wd_protocol w) (Some at))) (\<lambda>d.
            rbind (ok_or (AccessDetail (''ProtocolAuthorizationInvalidProtocolPath: '' @ wd_protocol_path w @
              '' is not defined'')) (rule_at d (wd_protocol_path w))) (\<lambda>rule_set.
            rbind (if invoked_role \<noteq> None
                   then verify_invoked_role E s tenant author invoked_role (wd_protocol w) (context_id m) d at
                   else Inr None) (\<lambda>_. Inr (d, rule_set))))))
      in case checked of
           Inl e \<Rightarrow> Some (Inl e)
         | Inr (d, rule_set) \<Rightarrow>
             map_option (\<lambda>chain.
               rbind chain (\<lambda>chain.
               rbind (actions_for_message_kind E s tenant m author kind) (\<lambda>actions.
                 authorize_actions E author invoked_role actions rule_set chain (Some d))))
               (construct_record_chain E s tenant m))"

definition authorize_records_read ::
  "'x pext_scheme \<Rightarrow> memory_message_state \<Rightarrow> string \<Rightarrow> message \<Rightarrow> authorization_context option \<Rightarrow> message
    \<Rightarrow> unit accessed option" where
  "authorize_records_read E s tenant read_message signature matched =
     (case describe_write matched of
        Inl e \<Rightarrow> Some (Inl (AccessDetail e))
      | Inr d \<Rightarrow>
          if map_option ac_author signature = Some tenant \<or> wd_published d = Some True then Some (Inr ())
          else case signature of
                 None \<Rightarrow> Some (Inl (AccessDetail
                   ''ProtocolAuthorizationActionNotAllowed: anonymous read is not authorized''))
               | Some auth \<Rightarrow>
                   if wd_recipient d = Some (ac_author auth) \<or> message_author E matched = Some (ac_author auth)
                     then Some (Inr ())
                   else case map_err AccessPermission
                          (authorize_records_read_with_grant E s tenant read_message matched auth) of
                          Inl e \<Rightarrow> Some (Inl e)
                        | Inr True \<Rightarrow> Some (Inr ())
                        | Inr False \<Rightarrow>
                            authorize_against_protocol E s tenant matched auth AuthRead
                              (Some (canonical_rfc3339 E (sent_at read_message))))"

definition authorize_records_delete ::
  "'x pext_scheme \<Rightarrow> memory_message_state \<Rightarrow> string \<Rightarrow> message \<Rightarrow> message \<Rightarrow> authorization_context
    \<Rightarrow> unit accessed option" where
  "authorize_records_delete E s tenant delete_message initial_write auth =
     (case map_err AccessPermission
        (authorize_records_delete_with_grant E s tenant delete_message initial_write auth) of
        Inl e \<Rightarrow> Some (Inl e)
      | Inr True \<Rightarrow> Some (Inr ())
      | Inr False \<Rightarrow>
          if ac_author auth = tenant then Some (Inr ())
          else case records_delete_descriptor delete_message of
                 Inl e \<Rightarrow> Some (Inl (AccessDetail e))
               | Inr d \<Rightarrow>
                   authorize_against_protocol E s tenant initial_write auth (AuthDelete (dd_prune d))
                     (Some (canonical_rfc3339 E (sent_at delete_message))))"

section \<open>Encryption control records\<close>

definition filter_targets_only_controls :: "records_filter \<Rightarrow> bool" where
  "filter_targets_only_controls f =
     (case rf_protocol_path f of None \<Rightarrow> False | Some path \<Rightarrow> control_kind_from_protocol_path path \<noteq> None)"

definition filter_may_match_controls :: "records_filter \<Rightarrow> bool" where
  "filter_may_match_controls f =
     (case rf_protocol_path f of Some path \<Rightarrow> control_kind_from_protocol_path path \<noteq> None | None \<Rightarrow> True)"

definition pinned_tag :: "records_filter \<Rightarrow> string \<Rightarrow> string option" where
  "pinned_tag f tag =
     (case Option.bind (rf_tags f) (\<lambda>tags. bt_get tags tag) of
        Some (FilterEqual (VString v)) \<Rightarrow> Some v
      | _ \<Rightarrow> None)"

definition audience_scope_pinned_by :: "records_filter \<Rightarrow> (string \<times> string \<times> string) option" where
  "audience_scope_pinned_by f =
     (if rf_protocol_path f \<noteq> Some encryption_control_audience_path then None
      else case pinned_tag f ''protocol'' of
             None \<Rightarrow> None
           | Some protocol \<Rightarrow>
               if rf_protocol f \<noteq> Some protocol then None
               else case (pinned_tag f ''rolePath'', pinned_tag f ''contextId'') of
                      (Some role_path, Some context) \<Rightarrow> Some (protocol, role_path, context)
                    | _ \<Rightarrow> None)"

definition filter_pins_an_audience_scope :: "records_filter \<Rightarrow> bool" where
  "filter_pins_an_audience_scope f = (audience_scope_pinned_by f \<noteq> None)"

definition read_requester :: "authorization_context \<Rightarrow> string" where
  "read_requester auth = (if ac_author_delegated_grant auth \<noteq> None then ac_signer auth else ac_author auth)"

definition invoked_read_grant ::
  "'x pext_scheme \<Rightarrow> memory_message_state \<Rightarrow> string \<Rightarrow> message \<Rightarrow> authorization_context
    \<Rightarrow> permission_grant option accessed" where
  "invoked_read_grant E s tenant read_message auth =
     (let requester = read_requester auth in
      case ac_author_delegated_grant auth of
        Some grant \<Rightarrow>
          rbind (map_err AccessPermission
            (perform_base_validation E s read_message (gr_grantor grant) requester grant)) (\<lambda>_. Inr (Some grant))
      | None \<Rightarrow>
          (case ac_permission_grant_id auth of
             None \<Rightarrow> Inr None
           | Some ident \<Rightarrow>
               rbind (map_err AccessPermission (fetch_grant E s tenant ident)) (\<lambda>grant.
               rbind (map_err AccessPermission
                 (perform_base_validation E s read_message tenant requester grant)) (\<lambda>_. Inr (Some grant)))))"

definition authorize_control_read_request ::
  "'x pext_scheme \<Rightarrow> memory_message_state \<Rightarrow> string \<Rightarrow> message \<Rightarrow> authorization_context \<Rightarrow> unit accessed" where
  "authorize_control_read_request E s tenant read_message auth =
     (if read_requester auth = tenant then Inr ()
      else rbind (invoked_read_grant E s tenant read_message auth) (\<lambda>_. Inr ()))"

section \<open>The visibility plan\<close>

datatype plan_mode = PlanSnapshot | PlanEvent

datatype visibility_class = VisibleOwner | VisiblePublished | VisibleNonOwner

record collection_authorization =
  ca_visibility :: visibility_class
  ca_author :: "string option"
  ca_protocol_authorized :: bool
  ca_grant_authorized :: bool

definition should_protocol_authorize :: "authorization_context \<Rightarrow> bool" where
  "should_protocol_authorize auth = (ac_protocol_role auth \<noteq> None)"

definition authorize_collection ::
  "'x pext_scheme \<Rightarrow> memory_message_state \<Rightarrow> string \<Rightarrow> message \<Rightarrow> records_filter \<Rightarrow> authorization_context option
    \<Rightarrow> string \<Rightarrow> collection_authorization accessed" where
  "authorize_collection E s tenant m f signature request_timestamp =
     (if filter_includes_published_records f \<and> signature = None then
        Inr \<lparr>ca_visibility = VisiblePublished, ca_author = None, ca_protocol_authorized = False,
             ca_grant_authorized = False\<rparr>
      else
        rbind (ok_or (AccessDetail ''AuthenticateJwsMissing: authorization signature is required'') signature) (\<lambda>auth.
        let visibility = (if ac_author auth = tenant then VisibleOwner else VisibleNonOwner) in
        if filter_targets_only_controls f then
          rbind (authorize_control_read_request E s tenant m auth) (\<lambda>_.
          let invoked = (should_protocol_authorize auth \<or> ac_permission_grant_id auth \<noteq> None)
          in Inr \<lparr>ca_visibility = visibility, ca_author = Some (ac_author auth),
                  ca_protocol_authorized = invoked, ca_grant_authorized = invoked\<rparr>)
        else
          rbind (map_err AccessPermission
            (authorize_records_query_or_subscribe_with_grant E s tenant m f auth)) (\<lambda>grant_authorized.
          rbind (if should_protocol_authorize auth
                 then rbind (authorize_protocol_query_or_subscribe E s tenant f auth request_timestamp) (\<lambda>_. Inr ())
                 else Inr ()) (\<lambda>_.
            Inr \<lparr>ca_visibility = visibility, ca_author = Some (ac_author auth),
                 ca_protocol_authorized = (should_protocol_authorize auth \<or> grant_authorized),
                 ca_grant_authorized = grant_authorized\<rparr>))))"

text \<open>A non-owner plan always has an author; the source asserts it.\<close>

definition plan_author :: "collection_authorization \<Rightarrow> string" where
  "plan_author auth = (case ca_author auth of None \<Rightarrow> [] | Some author \<Rightarrow> author)"

fun collection_filters ::
  "collection_authorization \<Rightarrow> records_filter \<Rightarrow> date_sort option \<Rightarrow> plan_mode \<Rightarrow> filters" where
  "collection_filters auth f date_sort mode =
     (case (ca_visibility auth, mode) of
        (VisiblePublished, PlanSnapshot) \<Rightarrow> [published_records_filter f date_sort]
      | (VisiblePublished, PlanEvent) \<Rightarrow> [published_records_event_filter f]
      | (VisibleOwner, PlanSnapshot) \<Rightarrow> [owner_records_filter f date_sort]
      | (VisibleOwner, PlanEvent) \<Rightarrow> [owner_records_event_filter f]
      | (VisibleNonOwner, PlanSnapshot) \<Rightarrow>
          non_owner_records_filters f date_sort (plan_author auth) (ca_protocol_authorized auth)
            (filter_pins_an_audience_scope f)
      | (VisibleNonOwner, PlanEvent) \<Rightarrow>
          non_owner_records_event_filters f (plan_author auth) (ca_protocol_authorized auth)
            (filter_pins_an_audience_scope f))"

section \<open>What a filter selects\<close>

lemma matches_set_entry:
  assumes "matches_set E ix fmap" and "bt_get fmap key = Some f"
  shows "\<exists>v. bt_get ix (filter_key_name key) = Some v \<and> matches_filter E v f"
  using assms by (auto simp: matches_set_iff dest: bt_get_SomeD)

lemma insert_filter_get [simp]:
  "bt_get (insert_string_filter key v m) k =
     (if k = FKIndex key \<and> v \<noteq> None then map_option string_filter v else bt_get m k)"
  "bt_get (insert_bool_filter key b m) k =
     (if k = FKIndex key \<and> b \<noteq> None then map_option bool_filter b else bt_get m k)"
  "bt_get (insert_some key g x m) k = (if k = FKIndex key \<and> x \<noteq> None then map_option g x else bt_get m k)"
  by (auto simp: insert_string_filter_def insert_bool_filter_def insert_some_def bt_get_insert split: option.splits)

lemma insert_string_vec_filter_get [simp]:
  "k \<noteq> FKIndex key \<Longrightarrow> bt_get (insert_string_vec_filter key v m) k = bt_get m k"
  by (auto simp: insert_string_vec_filter_def bt_get_insert split: option.splits list.splits)

lemma insert_tag_filters_get:
  "take 4 k \<noteq> ''tag.'' \<Longrightarrow> bt_get (insert_tag_filters tags m) (FKIndex k) = bt_get m (FKIndex k)"
proof (induction tags arbitrary: m)
  case (Cons kv tags)
  obtain key v where "kv = (key, v)" by fastforce
  with Cons.IH [OF Cons.prems] Cons.prems show ?case
    by (auto simp: insert_tag_filters_def bt_get_insert)
qed (simp add: insert_tag_filters_def)

lemma records_filter_target:
  "bt_get (records_filter_to_filter_map f srt) (FKIndex ''protocol'') = map_option string_filter (rf_protocol f)"
  "bt_get (records_filter_to_filter_map f srt) (FKIndex ''protocolPath'') = map_option string_filter (rf_protocol_path f)"
  "bt_get (records_filter_to_filter_map f srt) (FKIndex ''contextId'') = map_option FilterSubtree (rf_context_id f)"
  by (simp_all add: records_filter_to_filter_map_def Let_def insert_tag_filters_get bt_get_insert
      split: option.split)

lemma owner_filter_get:
  "bt_get (owner_records_filter f srt) (FKIndex k) =
     (if k = ''isLatestBaseState'' then Some (bool_filter True)
      else if k = ''method'' then Some (string_filter ''Write'')
      else if k = ''interface'' then Some (string_filter ''Records'')
      else bt_get (records_filter_to_filter_map f srt) (FKIndex k))"
  by (simp add: owner_records_filter_def bt_get_insert)

text \<open>A branch of a plan extends the owner's filter by clauses on other entries.\<close>

definition extends_owner :: "records_filter \<Rightarrow> date_sort option \<Rightarrow> value_filter \<Rightarrow> bool" where
  "extends_owner f srt branch \<longleftrightarrow>
     (\<forall>k \<in> {''isLatestBaseState'', ''method'', ''protocol'', ''protocolPath'', ''contextId''}.
        bt_get branch (FKIndex k) = bt_get (owner_records_filter f srt) (FKIndex k))"

lemma extends_owner_intros:
  "extends_owner f srt (owner_records_filter f srt)"
  "extends_owner f srt branch \<Longrightarrow> extends_owner f srt (bt_insert (FKIndex ''published'') g branch)"
  "extends_owner f srt branch \<Longrightarrow> extends_owner f srt (bt_insert (FKIndex ''author'') g branch)"
  "extends_owner f srt branch \<Longrightarrow> extends_owner f srt (bt_insert (FKIndex ''recipient'') g branch)"
  by (simp_all add: extends_owner_def bt_get_insert)

lemma plan_branches:
  assumes "branch \<in> set (collection_filters auth f srt PlanSnapshot)"
  shows "extends_owner f srt branch"
    and "ca_visibility auth = VisibleOwner
      \<or> bt_get branch (FKIndex ''published'') = Some (bool_filter True)
      \<or> (ca_visibility auth = VisibleNonOwner \<and>
          (bt_get branch (FKIndex ''author'') = Some (string_filter (plan_author auth))
           \<or> bt_get branch (FKIndex ''recipient'') = Some (string_filter (plan_author auth))
           \<or> ca_protocol_authorized auth \<or> filter_pins_an_audience_scope f))"
  using assms
  by (cases "ca_visibility auth";
      auto simp: published_records_filter_def non_owner_records_filters_def non_owner_branches_def Let_def
        bt_get_insert intro!: extends_owner_intros split: if_splits)+

lemma write_indexes_context:
  assumes "records_write_indexes E m author latest = Inr ix" and "describe_write m = Inr d"
  shows "bt_get ix ''contextId'' = map_option VString (context_id m)"
  by (simp add: write_indexes_get [OF assms] bt_get_from write_descriptor_json_def map_add_def split: option.split)

lemma subtree_filter_iff: "matches_filter E (VString v) (FilterSubtree t) \<longleftrightarrow> matches_subtree t (Some v)"
  by (simp add: matches_subtree_iff subtree_iff_segments)

text \<open>A scope that covers a target covers every target inside it.\<close>

definition target_inside :: "scope_target \<Rightarrow> scope_target \<Rightarrow> bool" where
  "target_inside inner outer \<longleftrightarrow>
     (tgt_protocol outer \<noteq> None \<longrightarrow> tgt_protocol inner = tgt_protocol outer) \<and>
     (\<forall>c. tgt_context_id outer = Some c \<longrightarrow> matches_subtree c (tgt_context_id inner)) \<and>
     (\<forall>p. tgt_protocol_path outer = Some p \<longrightarrow> matches_subtree p (tgt_protocol_path inner))"

lemma matches_target_inside:
  assumes "matches_protocol_target scope outer" and "target_inside inner outer"
  shows "matches_protocol_target scope inner"
proof -
  have step: "matches_subtree c inner_part"
    if "matches_subtree c outer_part" "\<And>b. outer_part = Some b \<Longrightarrow> matches_subtree b inner_part"
    for c inner_part outer_part
    using that matches_subtree_trans by (auto simp: matches_subtree_iff)
  from assms show ?thesis
    by (auto simp: matches_protocol_target_def Let_def target_inside_def split: option.splits intro: step)
qed

text \<open>Where a stored write lies, as the scope check of a single record sees it.\<close>

definition write_target :: "message \<Rightarrow> write_descriptor \<Rightarrow> scope_target" where
  "write_target m d =
     \<lparr>tgt_protocol = Some (wd_protocol d), tgt_context_id = context_id m, tgt_protocol_path = Some (wd_protocol_path d)\<rparr>"

definition filter_target :: "records_filter \<Rightarrow> scope_target" where
  "filter_target f =
     \<lparr>tgt_protocol = rf_protocol f, tgt_context_id = rf_context_id f, tgt_protocol_path = rf_protocol_path f\<rparr>"

lemma branch_entry:
  assumes "matches_set E ix branch" and "extends_owner f srt branch"
    and "k \<in> {''isLatestBaseState'', ''method'', ''protocol'', ''protocolPath'', ''contextId''}"
    and "bt_get (owner_records_filter f srt) (FKIndex k) = Some g"
  shows "\<exists>v. bt_get ix k = Some v \<and> matches_filter E v g"
  using matches_set_entry [OF assms(1), of "FKIndex k" g] assms(2-4) by (auto simp: extends_owner_def)

lemma plan_selects_writes:
  assumes "matches_filters E ix (Some (collection_filters auth f srt PlanSnapshot))"
    and "collection_filters auth f srt PlanSnapshot \<noteq> []"
  shows "\<exists>v. bt_get ix ''method'' = Some v \<and> matches_filter E v (string_filter ''Write'')"
proof -
  from assms obtain branch where "branch \<in> set (collection_filters auth f srt PlanSnapshot)" "matches_set E ix branch"
    by (auto simp: matches_filters_def list_ex_iff)
  from branch_entry [OF this(2) plan_branches(1) [OF this(1)], of "''method''"] show ?thesis
    by (auto simp: owner_filter_get)
qed

lemma branch_selects:
  assumes ix: "records_write_indexes E w author latest = Inr ix" "describe_write w = Inr d"
    and branch: "matches_set E ix branch" "extends_owner f srt branch"
  shows "latest" and "target_inside (write_target w d) (filter_target f)"
proof -
  note entry = branch_entry [OF branch]
  show "latest"
    using entry [of "''isLatestBaseState''"] by (simp add: owner_filter_get write_indexes_values [OF ix])
  have protocol: "wd_protocol d = p" if "rf_protocol f = Some p" for p
    using entry [of "''protocol''"] that
    by (simp add: owner_filter_get records_filter_target write_indexes_values [OF ix])
  have path: "wd_protocol_path d = p" if "rf_protocol_path f = Some p" for p
    using entry [of "''protocolPath''"] that
    by (simp add: owner_filter_get records_filter_target write_indexes_values [OF ix])
  have ctx: "matches_subtree c (context_id w)" if "rf_context_id f = Some c" for c
    using entry [of "''contextId''" "FilterSubtree c"] that
    by (auto simp: owner_filter_get records_filter_target write_indexes_context [OF ix] subtree_filter_iff
        simp del: matches_filter.simps)
  show "target_inside (write_target w d) (filter_target f)"
    using protocol path ctx by (auto simp: target_inside_def write_target_def filter_target_def matches_subtree_def)
qed

text \<open>What makes a record visible to a plan that is not the owner's.\<close>

lemma plan_selects:
  assumes ix: "records_write_indexes E w author latest = Inr ix" "describe_write w = Inr d"
    and sel: "matches_filters E ix (Some (collection_filters auth f srt PlanSnapshot))"
    and some: "collection_filters auth f srt PlanSnapshot \<noteq> []"
  shows "latest \<and> target_inside (write_target w d) (filter_target f) \<and>
    (ca_visibility auth = VisibleOwner \<or> wd_published d = Some True \<or>
     (ca_visibility auth = VisibleNonOwner \<and>
       (author = plan_author auth \<or> wd_recipient d = Some (plan_author auth)
        \<or> ca_protocol_authorized auth \<or> filter_pins_an_audience_scope f)))"
proof -
  from sel some obtain branch where branch: "branch \<in> set (collection_filters auth f srt PlanSnapshot)"
    and m: "matches_set E ix branch" by (auto simp: matches_filters_def list_ex_iff)
  note sub = plan_branches [OF branch]
  have "wd_published d = Some True" if "bt_get branch (FKIndex ''published'') = Some (bool_filter True)"
    using matches_set_entry [OF m that] by (simp add: write_indexes_values [OF ix])
  moreover have "author = plan_author auth" if "bt_get branch (FKIndex ''author'') = Some (string_filter (plan_author auth))"
    using matches_set_entry [OF m that] by (simp add: write_indexes_values [OF ix])
  moreover have "wd_recipient d = Some (plan_author auth)"
    if "bt_get branch (FKIndex ''recipient'') = Some (string_filter (plan_author auth))"
    using matches_set_entry [OF m that] by (auto simp: write_indexes_values [OF ix])
  ultimately show ?thesis using sub(2) branch_selects [OF ix m sub(1)] by blast
qed

lemma grant_descriptor_of: "describe_write w = Inr d \<Longrightarrow> grant_write_descriptor w = Inr d"
  by (auto simp: describe_write_def grant_write_descriptor_def map_err_def split: sum.splits)

lemma records_scope_iff:
  "describe_write w = Inr d \<Longrightarrow>
     verify_records_scope w scope = Inr () \<longleftrightarrow> matches_protocol_target scope (write_target w d)"
  by (simp add: verify_records_scope_def grant_descriptor_of write_target_def)

lemma pinned_audience_is_control: "filter_pins_an_audience_scope f \<Longrightarrow> filter_targets_only_controls f"
  by (auto simp: filter_pins_an_audience_scope_def audience_scope_pinned_by_def filter_targets_only_controls_def
      control_kind_from_protocol_path_def split: if_splits)

lemma query_grant_Inr:
  "authorize_records_query_or_subscribe_with_grant E s tenant m f a = Inr b \<longleftrightarrow>
     (case invoked_grant E s tenant a of
        Inl _ \<Rightarrow> False
      | Inr None \<Rightarrow> \<not> b
      | Inr (Some (g, grantor, grantee)) \<Rightarrow>
          b \<and> is_ok (perform_base_validation E s m grantor grantee g) \<and>
          matches_protocol_target (gr_scope g) (filter_target f))"
  by (auto simp: authorize_records_query_or_subscribe_with_grant_def rbind_Inr_iff is_ok_unit_iff filter_target_def
      split: sum.splits option.splits prod.splits)

text \<open>The plans that authorization gives for a filter that is not confined to control records.\<close>

lemma authorized_plan:
  assumes "authorize_collection E s tenant m f signature at = Inr auth" and "\<not> filter_targets_only_controls f"
  obtains (anonymous) "signature = None" "ca_visibility auth = VisiblePublished"
  | (requester) a b where "signature = Some a" "plan_author auth = ac_author a"
      "ca_visibility auth = (if ac_author a = tenant then VisibleOwner else VisibleNonOwner)"
      "authorize_records_query_or_subscribe_with_grant E s tenant m f a = Inr b"
      "ac_protocol_role a \<noteq> None \<longrightarrow> is_ok (authorize_protocol_query_or_subscribe E s tenant f a at)"
      "ca_protocol_authorized auth \<longleftrightarrow> ac_protocol_role a \<noteq> None \<or> b"
proof (cases signature)
  case None
  with assms anonymous show ?thesis by (auto simp: authorize_collection_def split: if_splits)
next
  case (Some a)
  with assms obtain b where
    "map_err AccessPermission (authorize_records_query_or_subscribe_with_grant E s tenant m f a) = Inr b"
    "ac_protocol_role a \<noteq> None \<longrightarrow> is_ok (authorize_protocol_query_or_subscribe E s tenant f a at)"
    "auth = \<lparr>ca_visibility = (if ac_author a = tenant then VisibleOwner else VisibleNonOwner),
       ca_author = Some (ac_author a), ca_protocol_authorized = (ac_protocol_role a \<noteq> None \<or> b),
       ca_grant_authorized = b\<rparr>"
    by (fastforce simp: authorize_collection_def rbind_Inr_iff Let_def should_protocol_authorize_def is_ok_iff
        split: if_splits)
  then show ?thesis
    by (intro requester [OF Some, where b = b])
       (auto simp: plan_author_def map_err_def split: sum.splits)
qed

text \<open>
  What a plan with at least one branch can select, in terms of the requester and of what they invoke.
\<close>

lemma plan_is_authorized:
  assumes ix: "records_write_indexes E w author latest = Inr ix" "describe_write w = Inr d"
    and plan: "authorize_collection E s tenant m f signature at = Inr auth" "\<not> filter_targets_only_controls f"
    and some: "collection_filters auth f srt PlanSnapshot \<noteq> []"
    and sel: "matches_filters E ix (Some (collection_filters auth f srt PlanSnapshot))"
  shows "latest \<and>
    (wd_published d = Some True \<or>
     (\<exists>a. signature = Some a \<and>
       (ac_author a = tenant \<or> author = ac_author a \<or> wd_recipient d = Some (ac_author a)
        \<or> (\<exists>g p q. invoked_grant E s tenant a = Inr (Some (g, p, q)))
        \<or> is_ok (authorize_protocol_query_or_subscribe E s tenant f a at)))) \<and>
    (\<forall>a g p q. signature = Some a \<and> invoked_grant E s tenant a = Inr (Some (g, p, q)) \<longrightarrow>
       is_ok (perform_base_validation E s m p q g) \<and> verify_records_scope w (gr_scope g) = Inr ())"
proof -
  from plan have no_pin: "\<not> filter_pins_an_audience_scope f" using pinned_audience_is_control by blast
  note picked = plan_selects [OF ix sel some]
  from plan show ?thesis
  proof (cases rule: authorized_plan)
    case anonymous
    with picked show ?thesis by auto
  next
    case (requester a b)
    have "is_ok (perform_base_validation E s m p q g) \<and> verify_records_scope w (gr_scope g) = Inr ()"
      if "invoked_grant E s tenant a = Inr (Some (g, p, q))" for g p q
      using requester(4) that picked matches_target_inside [of "gr_scope g" "filter_target f" "write_target w d"]
      by (simp add: query_grant_Inr records_scope_iff [OF ix(2)])
    moreover have "\<exists>g p q. invoked_grant E s tenant a = Inr (Some (g, p, q))" if b
      using requester(4) that by (auto simp: query_grant_Inr split: sum.splits option.splits)
    ultimately show ?thesis using requester picked no_pin by auto
  qed
qed

text \<open>
  A plan has a branch unless it is for unpublished records only and excludes its requester both as
  an author and as a recipient.
\<close>

lemma plan_nonempty:
  assumes "authorize_collection E s tenant m f signature at = Inr auth" and "\<not> filter_targets_only_controls f"
    and "rf_published f = Some False \<Longrightarrow> \<forall>a. signature = Some a \<longrightarrow>
      should_build_author_filter f (ac_author a) \<or> should_build_recipient_filter f (ac_author a)"
  shows "collection_filters auth f srt PlanSnapshot \<noteq> []"
  using assms(1,2)
proof (cases rule: authorized_plan)
  case (requester a b)
  with assms(3) show ?thesis
    by (auto simp: non_owner_records_filters_def non_owner_branches_def filter_includes_published_records_def
        filter_includes_unpublished_records_def Let_def split: if_splits)
qed simp

lemma empty_plan:
  assumes "ac_author a \<noteq> tenant" and "ac_author_delegated_grant a = None" and "ac_permission_grant_id a = None"
    and "ac_protocol_role a = None" and "\<not> filter_targets_only_controls f"
    and "rf_published f = Some False" and "rf_date_published f = None"
    and "rf_author f = Some authors" "authors \<noteq> []" "ac_author a \<notin> set authors"
    and "rf_recipient f = Some recipients" "recipients \<noteq> []" "ac_author a \<notin> set recipients"
  obtains auth where "authorize_collection E s tenant m f (Some a) at = Inr auth"
    and "ca_visibility auth = VisibleNonOwner" and "\<And>srt mode. collection_filters auth f srt mode = []"
proof
  let ?auth = "\<lparr>ca_visibility = VisibleNonOwner, ca_author = Some (ac_author a), ca_protocol_authorized = False,
    ca_grant_authorized = False\<rparr>"
  show "authorize_collection E s tenant m f (Some a) at = Inr ?auth"
    using assms
    by (simp add: authorize_collection_def authorize_records_query_or_subscribe_with_grant_def invoked_grant_def
        map_err_def should_protocol_authorize_def)
  have "\<not> filter_pins_an_audience_scope f" using assms(5) pinned_audience_is_control by blast
  then show "collection_filters ?auth f srt mode = []" for srt mode
    using assms
    by (simp add: non_owner_records_filters_def non_owner_records_event_filters_def non_owner_branches_def
        plan_author_def filter_includes_published_records_def filter_includes_unpublished_records_def
        should_build_author_filter_def should_build_recipient_filter_def split: plan_mode.split)
qed simp

section \<open>Examples\<close>

definition signed_as :: "string \<Rightarrow> authorization_context" where
  "signed_as did =
     \<lparr>ac_signer = did, ac_author = did,
      ac_payload = PayloadGeneric \<lparr>apd_descriptor_cid = [], apd_delegated_grant_id = None,
        apd_permission_grant_id = None, apd_permission_grant_ids = None, apd_protocol_role = None\<rparr>,
      ac_permission_grant_invocation = GrantNone, ac_author_delegated_grant = None, ac_owner = None\<rparr>"

definition letter_to :: "string \<Rightarrow> message" where
  "letter_to did =
     \<lparr>msg_descriptor = DescriptorRecords (RecordsWrite
        \<lparr>wd_protocol = ''http://chat'', wd_protocol_path = ''thread'', wd_recipient = Some did,
         wd_schema = None, wd_tags = None, wd_parent_id = None, wd_data_cid = ''data'',
         wd_data_size = 4, wd_date_created = 1, wd_message_timestamp = 7, wd_published = None,
         wd_date_published = None, wd_data_format = ''text'', wd_permission_grant_id = None,
         wd_squash = None\<rparr>),
      msg_fields = FieldsWrite (WriteFields authorization_default (Some ''letter'') (Some ''letter'') None None None)\<rparr>"

end
