(* ===== verification/GrantKeys.thy ===== *)
theory GrantKeys
  imports RecordsAccess
begin

text \<open>
  Which keys a permission grant delivers, \<open>permissions/grant_key_coverage.rs\<close>: the scopes a grant can
  deliver keys for, the test whether a delivered key lies in a grant's reach, and the enumeration of
  everything a grant delivers. The theorem states that the two agree.
\<close>

record eligible_scope =
  eg_protocol :: string
  eg_protocol_path :: "string option"
  eg_method :: scope_records_method

record delivered_scope =
  ds_protocol :: string
  ds_protocol_path :: "string option"

definition eligible_grant_scope :: "permission_scope \<Rightarrow> eligible_scope option" where
  "eligible_grant_scope scope =
     (case scope of
        ScopeRecords r \<Rightarrow>
          if rscope_method r \<noteq> ScopeRead \<and> rscope_method r \<noteq> ScopeWrite then None
          else (case rscope_selector r of
                  Some (SelProtocolPath p) \<Rightarrow>
                    Some \<lparr>eg_protocol = rscope_protocol r, eg_protocol_path = Some p, eg_method = rscope_method r\<rparr>
                | Some (SelContextId _) \<Rightarrow> None
                | None \<Rightarrow> Some \<lparr>eg_protocol = rscope_protocol r, eg_protocol_path = None, eg_method = rscope_method r\<rparr>)
      | _ \<Rightarrow> None)"

definition is_keyed_role :: "protocol_definition \<Rightarrow> string \<Rightarrow> bool" where
  "is_keyed_role d path =
     (case rule_at d path of
        None \<Rightarrow> False
      | Some rs \<Rightarrow> rs_role rs = Some True \<and> rs_key_agreement rs \<noteq> None)"

text \<open>The helper of this module agrees with the one of the scopes.\<close>

definition path_in_subtree :: "string \<Rightarrow> string \<Rightarrow> bool" where
  "path_in_subtree scope path = matches_subtree scope (Some path)"

fun local_read_role :: "protocol_definition \<Rightarrow> action \<Rightarrow> string option" where
  "local_read_role d (ActionRole a) =
     (if CanRead \<in> set (ar_can a) \<and> parse_cross_protocol_ref (ar_role a) = None \<and> is_keyed_role d (ar_role a)
      then Some (ar_role a) else None)"
| "local_read_role d (ActionWho a) = None"

function collect_read_roles :: "protocol_definition \<Rightarrow> rule_set \<Rightarrow> string bset \<Rightarrow> string bset" where
  "collect_read_roles d rs found =
     fold (\<lambda>kv. collect_read_roles d (snd kv)) (rs_rules rs)
       (fold (\<lambda>a found. case local_read_role d a of None \<Rightarrow> found | Some r \<Rightarrow> bs_insert r found) (rs_actions rs) found)"
  by pat_completeness auto
termination
  by (relation "measure (\<lambda>(_, rs, _). structure_size (rs_rules rs))")
     (auto dest: structure_size_child [of "fst kv" "snd kv" for kv, simplified])

declare collect_read_roles.simps [simp del]

definition read_roles_under :: "protocol_definition \<Rightarrow> string \<Rightarrow> string bset" where
  "read_roles_under d scope_path =
     (case rule_at d scope_path of None \<Rightarrow> [] | Some rs \<Rightarrow> collect_read_roles d rs [])"

definition read_grant_covers_delivered_scope ::
  "eligible_scope \<Rightarrow> delivered_scope \<Rightarrow> protocol_definition option \<Rightarrow> bool" where
  "read_grant_covers_delivered_scope grant delivered defn =
     (if eg_method grant \<noteq> ScopeRead \<or> eg_protocol grant \<noteq> ds_protocol delivered then False
      else case eg_protocol_path grant of
             None \<Rightarrow> True
           | Some grant_path \<Rightarrow>
               (case ds_protocol_path delivered of
                  None \<Rightarrow> False
                | Some delivered_path \<Rightarrow>
                    path_in_subtree grant_path delivered_path \<or>
                    (case defn of
                       None \<Rightarrow> False
                     | Some d \<Rightarrow> is_keyed_role d delivered_path \<and> delivered_path \<in> set (read_roles_under d grant_path))))"

definition write_grant_covers_delivered_scope ::
  "eligible_scope \<Rightarrow> delivered_scope \<Rightarrow> protocol_definition option \<Rightarrow> bool" where
  "write_grant_covers_delivered_scope grant delivered defn =
     (if eg_method grant \<noteq> ScopeWrite \<or> eg_protocol grant \<noteq> ds_protocol delivered then False
      else case (ds_protocol_path delivered, defn) of
             (Some delivered_path, Some d) \<Rightarrow>
               is_keyed_role d delivered_path \<and>
               (case eg_protocol_path grant of
                  None \<Rightarrow> True
                | Some grant_path \<Rightarrow> path_in_subtree grant_path delivered_path)
           | _ \<Rightarrow> False)"

definition grant_covers_delivered_scope ::
  "eligible_scope \<Rightarrow> delivered_scope \<Rightarrow> protocol_definition option \<Rightarrow> bool" where
  "grant_covers_delivered_scope grant delivered defn =
     (case eg_method grant of
        ScopeRead \<Rightarrow> read_grant_covers_delivered_scope grant delivered defn
      | ScopeWrite \<Rightarrow> write_grant_covers_delivered_scope grant delivered defn
      | _ \<Rightarrow> False)"

section \<open>Enumeration\<close>

text \<open>A granted scope is its protocol with the path, in the derived order.\<close>

type_synonym granted_scope = "string \<times> string option"

datatype delivery_scopes_error = DefinitionRequired

definition role_in_scope :: "protocol_definition \<Rightarrow> string option \<Rightarrow> string \<Rightarrow> bool" where
  "role_in_scope d scope_path path =
     (is_keyed_role d path \<and> (case scope_path of None \<Rightarrow> True | Some scope \<Rightarrow> path_in_subtree scope path))"

function walk_keyed_roles :: "protocol_definition \<Rightarrow> rule_map \<Rightarrow> string \<Rightarrow> string option \<Rightarrow> string list" where
  "walk_keyed_roles d rules pfx scope_path =
     concat (map (\<lambda>kv. let path = (if pfx = [] then fst kv else pfx @ ''/'' @ fst kv) in
       (if role_in_scope d scope_path path then [path] else []) @
       walk_keyed_roles d (rs_rules (snd kv)) path scope_path) rules)"
  by pat_completeness auto
termination
  by (relation "measure (\<lambda>(_, rules, _, _). structure_size rules)")
     (auto dest: structure_size_child [of "fst kv" "snd kv" for kv, simplified])

declare walk_keyed_roles.simps [simp del]

definition keyed_roles_under :: "protocol_definition \<Rightarrow> string option \<Rightarrow> string list" where
  "keyed_roles_under d scope_path = walk_keyed_roles d (pd_structure d) [] scope_path"

definition grant_key_delivery_scopes ::
  "eligible_scope \<Rightarrow> protocol_definition option \<Rightarrow> (delivery_scopes_error, granted_scope list) result" where
  "grant_key_delivery_scopes grant defn =
     (case eg_method grant of
        ScopeRead \<Rightarrow>
          Inr (fold bs_insert
            (case (eg_protocol_path grant, defn) of
               (Some path, Some d) \<Rightarrow> map (\<lambda>role. (eg_protocol grant, Some role)) (read_roles_under d path)
             | _ \<Rightarrow> [])
            (bs_insert (eg_protocol grant, eg_protocol_path grant) []))
      | ScopeWrite \<Rightarrow>
          (case defn of
             None \<Rightarrow> Inl DefinitionRequired
           | Some d \<Rightarrow>
               Inr (fold bs_insert
                 (map (\<lambda>role. (eg_protocol grant, Some role)) (keyed_roles_under d (eg_protocol_path grant))) []))
      | _ \<Rightarrow> Inr [])"

section \<open>Lemmas\<close>

lemma set_fold_bs_insert [simp]: "set (fold bs_insert xs s) = set xs \<union> set s"
  by (induction xs arbitrary: s) auto

lemma set_fold_roles:
  "set (fold (\<lambda>a found. case g a of None \<Rightarrow> found | Some r \<Rightarrow> bs_insert r found) actions found) =
     set found \<union> {r. \<exists>a \<in> set actions. g a = Some r}"
  by (induction actions arbitrary: found) (auto split: option.splits)

lemma local_read_role_keyed: "local_read_role d a = Some r \<Longrightarrow> is_keyed_role d r"
  by (cases a) (auto split: if_splits)

lemma collect_read_roles_keyed:
  "r \<in> set (collect_read_roles d rs found) \<Longrightarrow> r \<in> set found \<or> is_keyed_role d r"
proof (induction d rs found rule: collect_read_roles.induct)
  case (1 d rs found)
  define start where "start =
    fold (\<lambda>a found. case local_read_role d a of None \<Rightarrow> found | Some r \<Rightarrow> bs_insert r found) (rs_actions rs) found"
  have "r \<in> set (fold (\<lambda>kv. collect_read_roles d (snd kv)) kvs acc) \<Longrightarrow> r \<in> set acc \<or> is_keyed_role d r"
    if "set kvs \<subseteq> set (rs_rules rs)" for kvs acc
    using that
  proof (induction kvs arbitrary: acc)
    case (Cons kv kvs)
    then have "r \<in> set (collect_read_roles d (snd kv) acc) \<or> is_keyed_role d r" by simp
    with "1.IH" [of kv] Cons.prems(2) show ?case by auto
  qed simp
  moreover have "r \<in> set (fold (\<lambda>kv. collect_read_roles d (snd kv)) (rs_rules rs) start)"
    using "1.prems" by (subst (asm) collect_read_roles.simps) (simp add: start_def)
  ultimately have "r \<in> set start \<or> is_keyed_role d r" by blast
  then show ?case by (auto simp: start_def set_fold_roles dest: local_read_role_keyed)
qed

lemma read_roles_keyed: "r \<in> set (read_roles_under d path) \<Longrightarrow> is_keyed_role d r"
  by (auto simp: read_roles_under_def split: option.splits dest: collect_read_roles_keyed)

lemma walk_keyed_roles_in_scope:
  "path \<in> set (walk_keyed_roles d rules pfx scope_path) \<Longrightarrow> role_in_scope d scope_path path"
proof (induction d rules pfx scope_path rule: walk_keyed_roles.induct)
  case (1 d rules pfx scope_path)
  from "1.prems" obtain kv where kv: "kv \<in> set rules" and
    "path \<in> set (let p = (if pfx = [] then fst kv else pfx @ ''/'' @ fst kv) in
       (if role_in_scope d scope_path p then [p] else []) @ walk_keyed_roles d (rs_rules (snd kv)) p scope_path)"
    by (subst (asm) walk_keyed_roles.simps) auto
  with "1.IH" [OF kv refl] show ?case by (auto simp: Let_def split: if_splits)
qed

section \<open>Properties\<close>

text \<open>
  C40: enumerating and checking agree. Every scope that the enumeration says a grant delivers a key for
  is one that the check, asked with the same definition, finds inside the grant's reach.
\<close>

theorem delivered_scopes_are_covered:
  assumes "grant_key_delivery_scopes grant defn = Inr scopes" and "(p, path) \<in> set scopes"
  shows "grant_covers_delivered_scope grant \<lparr>ds_protocol = p, ds_protocol_path = path\<rparr> defn"
proof (cases "eg_method grant")
  case ScopeRead
  with assms show ?thesis
    by (auto simp: grant_key_delivery_scopes_def grant_covers_delivered_scope_def
        read_grant_covers_delivered_scope_def path_in_subtree_def matches_subtree_def read_roles_keyed
        split: option.splits)
next
  case ScopeWrite
  with assms show ?thesis
    by (auto simp: grant_key_delivery_scopes_def grant_covers_delivered_scope_def
        write_grant_covers_delivered_scope_def keyed_roles_under_def role_in_scope_def
        split: option.splits dest!: walk_keyed_roles_in_scope)
qed (use assms in \<open>simp add: grant_key_delivery_scopes_def\<close>)

definition keyed_chat :: protocol_definition where
  "keyed_chat =
     \<lparr>pd_protocol = ''http://chat'', pd_published = True, pd_uses = None, pd_key_agreement = None, pd_types = [],
      pd_structure = bt_from
        [(''member'', RuleSet (Some ''key'') [] (Some True) None None None None None None None []),
         (''thread'', RuleSet None [ActionRole \<lparr>ar_role = ''member'', ar_can = [CanRead]\<rparr>] None None None None None
            None None None [])]\<rparr>"

theorem delivered_scopes_are_covered_witness:
  "\<exists>scopes. grant_key_delivery_scopes
       \<lparr>eg_protocol = ''http://chat'', eg_protocol_path = Some ''thread'', eg_method = ScopeRead\<rparr> (Some keyed_chat) = Inr scopes
     \<and> (''http://chat'', Some ''member'') \<in> set scopes
     \<and> grant_covers_delivered_scope
         \<lparr>eg_protocol = ''http://chat'', eg_protocol_path = Some ''thread'', eg_method = ScopeRead\<rparr>
         \<lparr>ds_protocol = ''http://chat'', ds_protocol_path = Some ''member''\<rparr> (Some keyed_chat)"
proof -
  let ?g = "\<lparr>eg_protocol = ''http://chat'', eg_protocol_path = Some ''thread'', eg_method = ScopeRead\<rparr>"
  have "case grant_key_delivery_scopes ?g (Some keyed_chat) of
      Inr scopes \<Rightarrow> (''http://chat'', Some ''member'') \<in> set scopes | Inl _ \<Rightarrow> False"
    by code_simp
  then obtain scopes where "grant_key_delivery_scopes ?g (Some keyed_chat) = Inr scopes"
    "(''http://chat'', Some ''member'') \<in> set scopes" by (auto split: sum.splits)
  with delivered_scopes_are_covered [OF this] show ?thesis by blast
qed

end
