(* ===== verification/RecordsReading.thy ===== *)
theory RecordsReading
  imports GrantKeys
begin

text \<open>
  Reading collections of records: who may see an encryption control record
  (\<open>handlers/records/control/\<close>), the projection to the current audience of a role, the page that is
  filled from the store after both have removed records, and the handlers of RecordsQuery and
  RecordsCount (\<open>handlers/records/query.rs\<close>, \<open>count.rs\<close>). Climbing to parent records may not end, so
  what may climb is an option; a page is filled by a loop that may not end either.
\<close>

section \<open>Audiences\<close>

text \<open>An audience scope is the triple of protocol, role path and context, in the derived order.\<close>

type_synonym audience_scope = "string \<times> string \<times> string"

record audience_id =
  ai_scope :: audience_scope
  ai_key_id :: string

abbreviation ai_protocol :: "audience_id \<Rightarrow> string" where
  "ai_protocol ident \<equiv> fst (ai_scope ident)"

abbreviation ai_role_path :: "audience_id \<Rightarrow> string" where
  "ai_role_path ident \<equiv> fst (snd (ai_scope ident))"

abbreviation ai_context_id :: "audience_id \<Rightarrow> string" where
  "ai_context_id ident \<equiv> snd (snd (ai_scope ident))"

datatype control_code =
    ControlMissingTag control_kind
  | ControlTagsMismatch control_kind
  | ControlContextIdInvalid
  | ControlRolePathInvalid
  | ControlProtocolNotFound
  | ControlUnexpected access_error
  | ControlReadUnauthorized access_error
  | ControlWriterUnauthorized "permission_error option"
  | ControlSchemaFailure
  | ControlKeyIdMismatch
  | ControlSealKeyIdMismatch
  | ControlRecipientMissing
  | ControlRecipientAuthorityInvalid
  | ControlAudienceMissing
  | ControlRecipientRoleMissing

datatype control_failure =
    ControlDwn control_code
  | ControlDetail string
  | ControlInternal access_error

type_synonym 'a controlled = "(control_failure, 'a) result"

definition control_kind_of :: "message \<Rightarrow> control_kind option" where
  "control_kind_of m =
     (case records_write_descriptor m of
        Inl _ \<Rightarrow> None | Inr d \<Rightarrow> control_kind_from_protocol_path (wd_protocol_path d))"

definition required_string_tag :: "message \<Rightarrow> string \<Rightarrow> control_kind \<Rightarrow> string controlled" where
  "required_string_tag m tag kind =
     (case records_write_descriptor m of
        Inl _ \<Rightarrow> Inl (ControlDwn (ControlMissingTag kind))
      | Inr d \<Rightarrow>
          (case Option.bind (wd_tags d) (\<lambda>tags. bt_get tags tag) of
             Some (VString v) \<Rightarrow> Inr v
           | _ \<Rightarrow> Inl (ControlDwn (ControlMissingTag kind))))"

definition audience_id_from_message :: "message \<Rightarrow> control_kind \<Rightarrow> audience_id controlled" where
  "audience_id_from_message m kind =
     rbind (map_err (\<lambda>_. ControlDwn (ControlMissingTag kind)) (records_write_descriptor m)) (\<lambda>d.
     rbind (required_string_tag m ''protocol'' kind) (\<lambda>protocol.
     rbind (required_string_tag m ''rolePath'' kind) (\<lambda>role_path.
     rbind (required_string_tag m ''contextId'' kind) (\<lambda>context.
     rbind (required_string_tag m ''keyId'' kind) (\<lambda>key.
       if protocol \<noteq> wd_protocol d then Inl (ControlDwn (ControlTagsMismatch kind))
       else Inr \<lparr>ai_scope = (protocol, role_path, context), ai_key_id = key\<rparr>)))))"

definition role_parent_depth :: "audience_id \<Rightarrow> nat" where
  "role_parent_depth ident = length (split_on slash (ai_role_path ident)) - 1"

definition validate_context_depth :: "audience_id \<Rightarrow> unit controlled" where
  "validate_context_depth ident =
     (if (role_parent_depth ident = 0) \<noteq> (ai_context_id ident = [])
      then Inl (ControlDwn ControlContextIdInvalid) else Inr ())"

definition resolve_role_audience_definition ::
  "'x ext_scheme \<Rightarrow> memory_message_state \<Rightarrow> string \<Rightarrow> audience_id \<Rightarrow> string
    \<Rightarrow> (protocol_definition \<times> rule_set) controlled" where
  "resolve_role_audience_definition E s tenant ident timestamp =
     rbind (validate_context_depth ident) (\<lambda>_.
     rbind (map_err (\<lambda>e. case e of
              LookupNotFound _ \<Rightarrow> ControlDwn ControlProtocolNotFound
            | LookupStore e \<Rightarrow> ControlInternal (AccessStore e)
            | LookupInvalidMessage d \<Rightarrow> ControlDetail d)
       (fetch_protocol_definition E s tenant (ai_protocol ident) (Some timestamp))) (\<lambda>d.
     case rule_at d (ai_role_path ident) of
       Some rs \<Rightarrow>
         if rs_role rs = Some True \<and> rs_key_agreement rs \<noteq> None then Inr (d, rs)
         else Inl (ControlDwn ControlRolePathInvalid)
     | None \<Rightarrow> Inl (ControlDwn ControlRolePathInvalid)))"

section \<open>Authority over a role\<close>

record control_actor =
  actor_did :: string
  actor_grant :: "permission_grant option"

definition grant_covers_role :: "permission_scope \<Rightarrow> audience_id \<Rightarrow> scope_records_method \<Rightarrow> bool" where
  "grant_covers_role scope ident method =
     (case scope of
        ScopeRecords r \<Rightarrow>
          rscope_method r = method \<and>
          matches_protocol_target scope
            \<lparr>tgt_protocol = Some (ai_protocol ident), tgt_context_id = None,
             tgt_protocol_path = Some (ai_role_path ident)\<rparr>
      | _ \<Rightarrow> False)"

definition grant_covers_role_create :: "permission_scope \<Rightarrow> audience_id \<Rightarrow> bool" where
  "grant_covers_role_create scope ident = grant_covers_role scope ident ScopeWrite"

definition role_record_exists ::
  "'x ext_scheme \<Rightarrow> memory_message_state \<Rightarrow> string \<Rightarrow> string \<Rightarrow> string \<Rightarrow> string \<Rightarrow> string option \<Rightarrow> bool store_result"
where
  "role_record_exists E s tenant recipient protocol role_path context =
     rbind (query_role_records E s tenant recipient protocol role_path context) (\<lambda>m. Inr (m \<noteq> None))"

definition invoked_role_is_held ::
  "'x ext_scheme \<Rightarrow> memory_message_state \<Rightarrow> string \<Rightarrow> string \<Rightarrow> string \<Rightarrow> audience_id \<Rightarrow> protocol_definition
    \<Rightarrow> bool controlled" where
  "invoked_role_is_held E s tenant actor role_reference ident defn =
     (case (case parse_cross_protocol_ref role_reference of
              Some r \<Rightarrow> map_option (\<lambda>p. (p, cr_protocol_path r)) (uses_of defn (cr_alias r))
            | None \<Rightarrow> Some (ai_protocol ident, role_reference)) of
        None \<Rightarrow> Inr False
      | Some (protocol, role_path) \<Rightarrow>
          map_err (\<lambda>e. ControlDwn (ControlUnexpected (AccessStore e)))
            (role_record_exists E s tenant actor protocol role_path (Some (ai_context_id ident))))"

definition role_parent_chain ::
  "'x ext_scheme \<Rightarrow> memory_message_state \<Rightarrow> string \<Rightarrow> audience_id \<Rightarrow> message list controlled option" where
  "role_parent_chain E s tenant ident =
     (let parent_record_id = last (split_on slash (ai_context_id ident)) in
      if parent_record_id = [] then Some (Inr [])
      else case fetch_newest_record_write E s tenant parent_record_id of
             Inl _ \<Rightarrow> Some (Inr [])
           | Inr parent \<Rightarrow>
               map_option (map_err (\<lambda>e. ControlDwn (ControlUnexpected e))) (construct_record_chain E s tenant parent))"

fun any_action_creates ::
  "'x pext_scheme \<Rightarrow> memory_message_state \<Rightarrow> string \<Rightarrow> string \<Rightarrow> audience_id \<Rightarrow> protocol_definition \<Rightarrow> string option
    \<Rightarrow> message list \<Rightarrow> action list \<Rightarrow> bool controlled" where
  "any_action_creates E s tenant did ident defn invoked_role chain [] = Inr False"
| "any_action_creates E s tenant did ident defn invoked_role chain (ActionWho a # actions) =
     (if CanCreate \<in> set (aw_can a) \<and>
         (aw_who a = WhoAnyone \<or> check_actor E did (aw_who a) (aw_of a) chain (Some defn)) then Inr True
      else any_action_creates E s tenant did ident defn invoked_role chain actions)"
| "any_action_creates E s tenant did ident defn invoked_role chain (ActionRole a # actions) =
     (if CanCreate \<in> set (ar_can a) \<and> invoked_role = Some (ar_role a) then
        rbind (invoked_role_is_held E s tenant did (ar_role a) ident defn) (\<lambda>held.
          if held then Inr True
          else any_action_creates E s tenant did ident defn invoked_role chain actions)
      else any_action_creates E s tenant did ident defn invoked_role chain actions)"

definition actor_can_create_role ::
  "'x pext_scheme \<Rightarrow> memory_message_state \<Rightarrow> string \<Rightarrow> control_actor \<Rightarrow> audience_id
    \<Rightarrow> protocol_definition \<times> rule_set \<Rightarrow> authorization_context \<Rightarrow> bool controlled option" where
  "actor_can_create_role E s tenant actor ident role auth =
     (if actor_did actor = tenant then Some (Inr True)
      else if (case actor_grant actor of
                 None \<Rightarrow> False | Some g \<Rightarrow> grant_covers_role_create (gr_scope g) ident) then Some (Inr True)
      else
        map_option (\<lambda>chain. rbind chain (\<lambda>chain.
          any_action_creates E s tenant (actor_did actor) ident (fst role) (ac_protocol_role auth) chain
            (rs_actions (snd role)))) (role_parent_chain E s tenant ident))"

section \<open>Reading control records\<close>

definition names_record :: "records_filter \<Rightarrow> message \<Rightarrow> bool" where
  "names_record f control = (rf_record_id f \<noteq> None \<and> rf_record_id f = record_id control)"

definition pins_audience_scope :: "records_filter \<Rightarrow> audience_id \<Rightarrow> bool" where
  "pins_audience_scope f ident = (audience_scope_pinned_by f = Some (ai_scope ident))"

definition pins_audience_key :: "records_filter \<Rightarrow> audience_id \<Rightarrow> bool" where
  "pins_audience_key f ident = (pins_audience_scope f ident \<and> pinned_tag f ''keyId'' = Some (ai_key_id ident))"

definition exact_audience_request_matches :: "records_filter \<Rightarrow> audience_id \<Rightarrow> message \<Rightarrow> bool" where
  "exact_audience_request_matches f ident control = (names_record f control \<or> pins_audience_scope f ident)"

definition can_enumerate_audience ::
  "'x pext_scheme \<Rightarrow> memory_message_state \<Rightarrow> string \<Rightarrow> message \<Rightarrow> authorization_context \<Rightarrow> string \<Rightarrow> audience_id
    \<Rightarrow> permission_grant option \<Rightarrow> bool controlled option" where
  "can_enumerate_audience E s tenant read_message auth requester ident grant =
     (if (case grant of None \<Rightarrow> False | Some g \<Rightarrow> grant_covers_role (gr_scope g) ident ScopeRead) then Some (Inr True)
      else case resolve_role_audience_definition E s tenant ident (canonical_rfc3339 E (sent_at read_message)) of
             Inl e \<Rightarrow> Some (Inl e)
           | Inr role \<Rightarrow>
               actor_can_create_role E s tenant \<lparr>actor_did = requester, actor_grant = None\<rparr> ident role auth)"

definition delivery_reachable_by_grant ::
  "'x pext_scheme \<Rightarrow> memory_message_state \<Rightarrow> string \<Rightarrow> message \<Rightarrow> message \<Rightarrow> audience_id \<Rightarrow> permission_grant option
    \<Rightarrow> bool controlled" where
  "delivery_reachable_by_grant E s tenant read_message control ident grant =
     (case grant of
        None \<Rightarrow> Inr False
      | Some g \<Rightarrow>
          rbind (map_err (\<lambda>e. ControlDwn (ControlUnexpected (AccessDetail e))) (describe_write control)) (\<lambda>d.
          case wd_recipient d of
            None \<Rightarrow> Inr False
          | Some recipient \<Rightarrow>
              if recipient \<noteq> gr_grantor g \<and> recipient \<noteq> gr_grantee g then Inr False
              else case eligible_grant_scope (gr_scope g) of
                     None \<Rightarrow> Inr False
                   | Some scope \<Rightarrow>
                       let delivered = \<lparr>ds_protocol = ai_protocol ident, ds_protocol_path = Some (ai_role_path ident)\<rparr> in
                       if eg_method scope \<noteq> ScopeRead then Inr False
                       else if read_grant_covers_delivered_scope scope delivered None then Inr True
                       else case fetch_protocol_definition E s tenant (ai_protocol ident)
                                   (Some (canonical_rfc3339 E (sent_at read_message))) of
                              Inr defn \<Rightarrow> Inr (read_grant_covers_delivered_scope scope delivered (Some defn))
                            | Inl (LookupStore e) \<Rightarrow> Inl (ControlInternal (AccessStore e))
                            | Inl _ \<Rightarrow> Inr False))"

definition can_read ::
  "'x pext_scheme \<Rightarrow> memory_message_state \<Rightarrow> string \<Rightarrow> message \<Rightarrow> authorization_context option \<Rightarrow> message
    \<Rightarrow> records_filter option \<Rightarrow> bool controlled option" where
  "can_read E s tenant read_message signature control f =
     (case control_kind_of control of
        None \<Rightarrow> Some (Inr True)
      | Some kind \<Rightarrow>
          (case signature of
             None \<Rightarrow> Some (Inr False)
           | Some auth \<Rightarrow>
               let requester = read_requester auth in
               if requester = tenant then Some (Inr True)
               else case map_err (\<lambda>e. ControlDwn (ControlReadUnauthorized e))
                           (invoked_read_grant E s tenant read_message auth) of
                      Inl e \<Rightarrow> Some (Inl e)
                    | Inr grant \<Rightarrow>
                        (case audience_id_from_message control kind of
                           Inl e \<Rightarrow> Some (Inl e)
                         | Inr ident \<Rightarrow>
                             (case kind of
                                ControlDelivery \<Rightarrow>
                                  (case describe_write control of
                                     Inl e \<Rightarrow> Some (Inl (ControlDwn (ControlUnexpected (AccessDetail e))))
                                   | Inr d \<Rightarrow>
                                       if wd_recipient d = Some requester \<or> message_author E control = Some requester
                                         then Some (Inr True)
                                       else Some (delivery_reachable_by_grant E s tenant read_message control ident grant))
                              | ControlAudience \<Rightarrow>
                                  if (case f of None \<Rightarrow> False | Some f \<Rightarrow> exact_audience_request_matches f ident control)
                                    then Some (Inr True)
                                  else can_enumerate_audience E s tenant read_message auth requester ident grant))))"

fun keep_readable ::
  "'x pext_scheme \<Rightarrow> memory_message_state \<Rightarrow> string \<Rightarrow> message \<Rightarrow> authorization_context option \<Rightarrow> records_filter option
    \<Rightarrow> message list \<Rightarrow> message list controlled option" where
  "keep_readable E s tenant request signature f [] = Some (Inr [])"
| "keep_readable E s tenant request signature f (m # ms) =
     (case can_read E s tenant request signature m f of
        None \<Rightarrow> None
      | Some (Inl e) \<Rightarrow> Some (Inl e)
      | Some (Inr readable) \<Rightarrow>
          map_option (\<lambda>rest. rbind rest (\<lambda>rest. Inr (if readable then m # rest else rest)))
            (keep_readable E s tenant request signature f ms))"

definition filter_visible_controls ::
  "'x pext_scheme \<Rightarrow> memory_message_state \<Rightarrow> string \<Rightarrow> message \<Rightarrow> authorization_context option \<Rightarrow> records_filter option
    \<Rightarrow> message list \<Rightarrow> message list controlled option" where
  "filter_visible_controls E s tenant request signature f records =
     (if \<not> list_ex (\<lambda>m. control_kind_of m \<noteq> None) records then Some (Inr records)
      else keep_readable E s tenant request signature f records)"

section \<open>The current audience of a role\<close>

definition projection_rank :: "'x pext_scheme \<Rightarrow> string \<Rightarrow> message \<Rightarrow> (bool \<times> string \<times> string) option" where
  "projection_rank E tenant m =
     (case (records_write_descriptor m, message_signer E m, record_id m) of
        (Inr d, Some signer, Some ident) \<Rightarrow>
          Some (signer \<noteq> tenant, canonical_rfc3339 E (wd_date_created d), ident)
      | _ \<Rightarrow> None)"

text \<open>\<open>Iterator::min_by\<close> returns the first of several minimal elements.\<close>

fun least_ranked :: "('a::linorder \<times> 'b) list \<Rightarrow> ('a \<times> 'b) option" where
  "least_ranked [] = None"
| "least_ranked (x # xs) =
     (case least_ranked xs of
        None \<Rightarrow> Some x | Some y \<Rightarrow> if fst y < fst x then Some y else Some x)"

definition audience_filter :: "audience_scope \<Rightarrow> value_filter" where
  "audience_filter scope =
     fold (\<lambda>(tag, v). bt_insert (FKIndex (''tag.'' @ tag)) (string_filter v))
       [(''protocol'', fst scope), (''rolePath'', fst (snd scope)), (''contextId'', snd (snd scope))]
       (filter_map [(''interface'', string_filter ''Records''), (''method'', string_filter ''Write''),
          (''protocol'', string_filter (fst scope)),
          (''protocolPath'', string_filter encryption_control_audience_path),
          (''isLatestBaseState'', bool_filter True)])"

definition current_audience_record_id ::
  "'x pext_scheme \<Rightarrow> memory_message_state \<Rightarrow> string \<Rightarrow> audience_scope \<Rightarrow> string option controlled" where
  "current_audience_record_id E s tenant scope =
     rbind (map_err (\<lambda>e. ControlInternal (AccessStore e))
       (store_query E tenant [audience_filter scope] None None None s)) (\<lambda>stored.
       Inr (Option.bind
         (least_ranked (concat (map (\<lambda>m.
            case projection_rank E tenant m of None \<Rightarrow> [] | Some rank \<Rightarrow> [(rank, m)]) (mq_messages stored))))
         (\<lambda>(_, m). record_id m)))"

definition projected_scope :: "records_filter option \<Rightarrow> message \<Rightarrow> audience_scope option" where
  "projected_scope f m =
     (if control_kind_of m \<noteq> Some ControlAudience then None
      else case audience_id_from_message m ControlAudience of
             Inl _ \<Rightarrow> None
           | Inr ident \<Rightarrow>
               if (case f of None \<Rightarrow> False | Some f \<Rightarrow> names_record f m \<or> pins_audience_key f ident) then None
               else Some (ai_scope ident))"

definition project_current_audiences ::
  "'x pext_scheme \<Rightarrow> memory_message_state \<Rightarrow> string \<Rightarrow> records_filter option \<Rightarrow> message list \<Rightarrow> message list controlled"
where
  "project_current_audiences E s tenant f records =
     (let scopes = bs_from (concat (map (\<lambda>m. case projected_scope f m of None \<Rightarrow> [] | Some sc \<Rightarrow> [sc]) records)) in
      if scopes = [] then Inr records
      else
        rbind (try_map (\<lambda>scope.
          rbind (current_audience_record_id E s tenant scope) (\<lambda>winner. Inr (scope, winner))) scopes) (\<lambda>current.
          Inr (filter (\<lambda>m.
            case projected_scope f m of
              None \<Rightarrow> True
            | Some scope \<Rightarrow> Option.bind (bt_get (bt_from current) scope) id = record_id m) records)))"

section \<open>Filling a page\<close>

partial_function (option) fill_page ::
  "'x pext_scheme \<Rightarrow> memory_message_state \<Rightarrow> string \<Rightarrow> message \<Rightarrow> authorization_context option \<Rightarrow> records_filter
    \<Rightarrow> filters \<Rightarrow> message_sort option \<Rightarrow> u64 option \<Rightarrow> record_limit_occupancy option \<Rightarrow> cursor option \<Rightarrow> message list
    \<Rightarrow> (message list \<times> cursor option) controlled option" where
  "fill_page E s tenant request signature f filters sort_by_key limit record_limit cursor visible =
     (case store_query E tenant filters sort_by_key
        (Some \<lparr>pg_cursor = cursor,
               pg_limit = map_option (\<lambda>l. saturating_sub l (of_nat (length visible))) limit\<rparr>) record_limit s of
        Inl e \<Rightarrow> Some (Inl (ControlInternal (AccessStore e)))
      | Inr page \<Rightarrow>
          (case project_current_audiences E s tenant (Some f) (mq_messages page) of
             Inl e \<Rightarrow> Some (Inl e)
           | Inr projected \<Rightarrow>
               (case filter_visible_controls E s tenant request signature (Some f) projected of
                  None \<Rightarrow> None
                | Some (Inl e) \<Rightarrow> Some (Inl e)
                | Some (Inr kept) \<Rightarrow>
                    (case limit of
                       Some l \<Rightarrow>
                         if of_nat (length (visible @ kept)) < l \<and> mq_messages page \<noteq> [] \<and> mq_cursor page \<noteq> None
                         then fill_page E s tenant request signature f filters sort_by_key limit record_limit
                                (mq_cursor page) (visible @ kept)
                         else Some (Inr (visible @ kept, mq_cursor page))
                     | None \<Rightarrow> Some (Inr (visible @ kept, mq_cursor page))))))"

declare fill_page.simps [code]

definition collect_visible_page ::
  "'x pext_scheme \<Rightarrow> memory_message_state \<Rightarrow> string \<Rightarrow> message \<Rightarrow> authorization_context option \<Rightarrow> records_filter
    \<Rightarrow> filters \<Rightarrow> message_sort option \<Rightarrow> pagination option \<Rightarrow> record_limit_occupancy option
    \<Rightarrow> (message list \<times> cursor option) controlled option" where
  "collect_visible_page E s tenant request signature f filters sort_by_key pagination record_limit =
     fill_page E s tenant request signature f filters sort_by_key (Option.bind pagination pg_limit) record_limit
       (Option.bind pagination pg_cursor) []"

section \<open>Record limits\<close>

definition parent_context_id :: "string \<Rightarrow> string" where
  "parent_context_id context = join_on slash (butlast (split_on slash context))"

definition record_limit_max ::
  "'x ext_scheme \<Rightarrow> memory_message_state \<Rightarrow> string \<Rightarrow> string \<Rightarrow> string \<Rightarrow> string \<Rightarrow> u64 option accessed" where
  "record_limit_max E s tenant protocol path request_timestamp =
     (case fetch_protocol_definition E s tenant protocol (Some request_timestamp) of
        Inl (LookupNotFound _) \<Rightarrow> Inr None
      | Inl e \<Rightarrow> Inl (AccessLookup e)
      | Inr d \<Rightarrow> Inr (Option.bind (rule_at d path) rs_record_limit))"

definition resolve_record_limit_policy ::
  "'x ext_scheme \<Rightarrow> memory_message_state \<Rightarrow> string \<Rightarrow> records_filter \<Rightarrow> string
    \<Rightarrow> record_limit_occupancy option accessed" where
  "resolve_record_limit_policy E s tenant f request_timestamp =
     (case (rf_protocol f, rf_protocol_path f) of
        (Some protocol, Some path) \<Rightarrow>
          rbind (record_limit_max E s tenant protocol path request_timestamp) (\<lambda>limit.
          case limit of
            None \<Rightarrow> Inr None
          | Some n \<Rightarrow>
              let policy = \<lparr>rl_protocol = protocol, rl_protocol_path = path, rl_context_id = None,
                    rl_parent_id = None, rl_max = n\<rparr> in
              if slash \<notin> set path then Inr (Some policy)
              else
                let policy = policy\<lparr>rl_parent_id := map_option (\<lambda>p. [p]) (rf_parent_id f)\<rparr> in
                Inr (Some (case rf_context_id f of
                  None \<Rightarrow> policy
                | Some context \<Rightarrow>
                    policy\<lparr>rl_context_id := Some
                      (if length (split_on slash context) = length (split_on slash path)
                       then parent_context_id context else context)\<rparr>)))
      | _ \<Rightarrow> Inr None)"

section \<open>Handlers\<close>

text \<open>A reply is its status code with what it carries; a refusal keeps the error it prints.\<close>

datatype refusal =
    RefusedText string
  | RefusedAuthentication authorization_validation_error
  | RefusedAccess access_error
  | RefusedControl control_failure
  | RefusedStore message_store_error

datatype 'a reply = Replied nat 'a | Refused nat refusal

definition authentication_refusal :: "authorization_validation_error \<Rightarrow> 'a reply" where
  "authentication_refusal e =
     Refused (case e of AuthUnauthorized _ \<Rightarrow> 401 | _ \<Rightarrow> 400) (RefusedAuthentication e)"

definition control_refusal :: "control_failure \<Rightarrow> 'a reply" where
  "control_refusal e = Refused (case e of ControlInternal _ \<Rightarrow> 500 | _ \<Rightarrow> 401) (RefusedControl e)"

record query_entry =
  qe_message :: message
  qe_initial_write :: "write_message option"

fun write_fields_of :: "fields \<Rightarrow> write_fields" where
  "write_fields_of (FieldsWrite f) = f"
| "write_fields_of (FieldsInitialWrite f) = iw_write_fields f"
| "write_fields_of (FieldsAuthorization _) = WriteFields authorization_default None None None None None"

definition resolve_initial_write ::
  "'x pext_scheme \<Rightarrow> memory_message_state \<Rightarrow> string \<Rightarrow> message \<Rightarrow> write_message option accessed" where
  "resolve_initial_write E s tenant event =
     (let find_write = (\<lambda>ident.
            rbind (fetch_initial_write_message E s tenant ident) (\<lambda>found.
            case found of
              None \<Rightarrow> Inr None
            | Some m \<Rightarrow>
                rbind (map_err AccessDetail (describe_write m)) (\<lambda>d.
                  Inr (Some (WriteMessage d (write_fields_of (msg_fields m)))))))
      in case msg_descriptor event of
           DescriptorRecords (RecordsWrite _) \<Rightarrow>
             rbind (ok_or (AccessDetail ''RecordsWrite message missing author'') (message_author E event)) (\<lambda>author.
             rbind (map_err AccessDetail (is_initial_write E event author)) (\<lambda>initial.
               if initial then Inr None
               else rbind (ok_or (AccessDetail ''RecordsWrite message missing recordId'') (record_id event)) find_write))
         | DescriptorRecords (RecordsDelete d) \<Rightarrow> find_write (dd_record_id d)
         | _ \<Rightarrow> Inr None)"

definition attach_initial_writes ::
  "'x pext_scheme \<Rightarrow> memory_message_state \<Rightarrow> string \<Rightarrow> message list \<Rightarrow> query_entry list accessed" where
  "attach_initial_writes E s tenant messages =
     try_map (\<lambda>m. rbind (resolve_initial_write E s tenant m) (\<lambda>w.
       Inr \<lparr>qe_message = m, qe_initial_write = w\<rparr>)) messages"

definition records_query ::
  "'x pext_scheme \<Rightarrow> bool \<Rightarrow> memory_message_state \<Rightarrow> string \<Rightarrow> message \<Rightarrow> records_query_descriptor
    \<Rightarrow> (query_entry list \<times> cursor option) reply option" where
  "records_query E resolver s tenant m d =
     (let f = rqd_filter d; at = canonical_rfc3339 E (rqd_message_timestamp d) in
      if rf_published f = Some False \<and> published_sort (rqd_date_sort d)
        then Some (Refused 400 (RefusedText ''RecordsQueryParseFilterPublishedSortInvalid''))
      else case validate_nested_protocol_path_scope f False of
        Inl reason \<Rightarrow> Some (Refused 400 (RefusedText (''RecordsQueryNestedProtocolPathContextIdInvalid: '' @ reason)))
      | Inr _ \<Rightarrow>
      case validate_authorization_signature E resolver m False of
        Inl e \<Rightarrow> Some (authentication_refusal e)
      | Inr signature \<Rightarrow>
      case authorize_collection E s tenant m f signature at of
        Inl e \<Rightarrow> Some (Refused 401 (RefusedAccess e))
      | Inr auth \<Rightarrow>
      case resolve_record_limit_policy E s tenant f at of
        Inl e \<Rightarrow> Some (Refused 500 (RefusedAccess e))
      | Inr record_limit \<Rightarrow>
      case collect_visible_page E s tenant m signature f (collection_filters auth f (rqd_date_sort d) PlanSnapshot)
             (Some (date_sort_to_message_sort (rqd_date_sort d) False)) (rqd_pagination d) record_limit of
        None \<Rightarrow> None
      | Some (Inl e) \<Rightarrow> Some (control_refusal e)
      | Some (Inr (messages, cursor)) \<Rightarrow>
      case attach_initial_writes E s tenant messages of
        Inl e \<Rightarrow> Some (Refused 500 (RefusedAccess e))
      | Inr entries \<Rightarrow> Some (Replied 200 (entries, cursor)))"

definition records_count ::
  "'x pext_scheme \<Rightarrow> bool \<Rightarrow> memory_message_state \<Rightarrow> string \<Rightarrow> message \<Rightarrow> records_count_descriptor
    \<Rightarrow> u64 reply option" where
  "records_count E resolver s tenant m d =
     (let f = rcd_filter d; at = canonical_rfc3339 E (rcd_message_timestamp d) in
      case validate_nested_protocol_path_scope f False of
        Inl reason \<Rightarrow> Some (Refused 400 (RefusedText (''RecordsCountNestedProtocolPathContextIdInvalid: '' @ reason)))
      | Inr _ \<Rightarrow>
      case validate_authorization_signature E resolver m False of
        Inl e \<Rightarrow> Some (authentication_refusal e)
      | Inr signature \<Rightarrow>
      case authorize_collection E s tenant m f signature at of
        Inl e \<Rightarrow> Some (Refused 401 (RefusedAccess e))
      | Inr auth \<Rightarrow>
      case resolve_record_limit_policy E s tenant f at of
        Inl e \<Rightarrow> Some (Refused 500 (RefusedAccess e))
      | Inr record_limit \<Rightarrow>
      let filters = collection_filters auth f None PlanSnapshot in
      if filter_may_match_controls f then
        (case collect_visible_page E s tenant m signature f filters None None record_limit of
           None \<Rightarrow> None
         | Some (Inl e) \<Rightarrow> Some (control_refusal e)
         | Some (Inr (messages, _)) \<Rightarrow> Some (Replied 200 (of_nat (length messages))))
      else case store_count E tenant filters None record_limit s of
             Inl e \<Rightarrow> Some (Refused 500 (RefusedStore e))
           | Inr n \<Rightarrow> Some (Replied 200 n))"

section \<open>What a page can hold\<close>

lemma query_rows_within:
  assumes "row \<in> set (query_rows E t fs srt occupants s)"
  shows "row \<in> set (tenant_rows s t)" and "matches_filters E (mr_indexes row) (Some fs)"
proof -
  have "set (query_rows E t fs srt occupants s) \<subseteq> set (query_rows E t fs srt None s)"
    by (auto simp: query_rows_def Let_def split: prod.splits option.splits)
  with assms show "row \<in> set (tenant_rows s t)" "matches_filters E (mr_indexes row) (Some fs)"
    by (auto simp: set_query_rows selected_def)
qed

lemma query_page_within:
  "query_page E srt pg rows = Inr r \<Longrightarrow> set (mq_messages r) \<subseteq> mr_message ` set rows"
  by (auto simp: query_page_def Let_def intro!: imageI dest!: in_set_takeD in_set_dropD
      split: prod.splits option.splits if_splits)

definition holds :: "'x ext_scheme \<Rightarrow> memory_message_state \<Rightarrow> string \<Rightarrow> filters \<Rightarrow> message \<Rightarrow> bool" where
  "holds E s tenant fs m \<longleftrightarrow>
     (\<exists>row \<in> set (tenant_rows s tenant). mr_message row = m \<and> matches_filters E (mr_indexes row) (Some fs))"

lemma store_query_within:
  assumes "store_query E t fs srt pg policy s = Inr r" and "m \<in> set (mq_messages r)"
  shows "holds E s t fs m"
proof -
  from assms obtain occupants where "query_page E srt pg (query_rows E t fs srt occupants s) = Inr r"
    by (auto simp: store_query_def empty_query_result_def rbind_Inr_iff split: if_splits option.splits)
  from query_page_within [OF this] assms(2) show ?thesis
    by (auto simp: holds_def dest: query_rows_within)
qed

lemma projected_within: "project_current_audiences E s t f ms = Inr ms' \<Longrightarrow> set ms' \<subseteq> set ms"
  by (auto simp: project_current_audiences_def Let_def rbind_Inr_iff split: if_splits)

lemma keep_readable_within:
  "keep_readable E s t request signature f ms = Some (Inr ms') \<Longrightarrow> set ms' \<subseteq> set ms"
  by (induction ms arbitrary: ms') (auto simp: rbind_Inr_iff split: option.splits sum.splits if_splits)

lemma visible_within:
  "filter_visible_controls E s t request signature f ms = Some (Inr ms') \<Longrightarrow> set ms' \<subseteq> set ms"
  by (auto simp: filter_visible_controls_def dest: keep_readable_within split: if_splits)

lemma fill_page_within:
  assumes "fill_page E s t request signature f fs srt limit policy cursor visible = Some (Inr (ms, c))"
    and "\<forall>m \<in> set visible. holds E s t fs m"
  shows "\<forall>m \<in> set ms. holds E s t fs m"
proof -
  have "\<forall>ms c. r = Inr (ms, c) \<longrightarrow> (\<forall>m \<in> set visible. holds E s t fs m) \<longrightarrow> (\<forall>m \<in> set ms. holds E s t fs m)"
    if "fill_page E s t request signature f fs srt limit policy cursor visible = Some r" for r
    using that
  proof (induction rule: fill_page.raw_induct [rotated, consumes 1])
    case (1 loop E s t request signature f fs srt limit policy cursor visible r)
    show ?case
    proof (intro allI impI)
      fix ms c
      assume r: "r = Inr (ms, c)" and visible: "\<forall>m \<in> set visible. holds E s t fs m"
      from 1(2) r obtain page projected kept where
        page: "store_query E t fs srt (Some \<lparr>pg_cursor = cursor,
            pg_limit = map_option (\<lambda>l. saturating_sub l (of_nat (length visible))) limit\<rparr>) policy s = Inr page"
        and projected: "project_current_audiences E s t (Some f) (mq_messages page) = Inr projected"
        and kept: "filter_visible_controls E s t request signature (Some f) projected = Some (Inr kept)"
        and rest: "ms = visible @ kept \<or>
          loop E s t request signature f fs srt limit policy (mq_cursor page) (visible @ kept) = Some (Inr (ms, c))"
        by (auto split: sum.splits option.splits if_splits)
      have "\<forall>m \<in> set (visible @ kept). holds E s t fs m"
        using visible store_query_within [OF page] projected_within [OF projected] visible_within [OF kept] by auto
      with rest 1(1) show "\<forall>m \<in> set ms. holds E s t fs m" by blast
    qed
  qed
  with assms show ?thesis by blast
qed

lemma try_map_ok: "\<forall>x \<in> set xs. is_ok (g x) \<Longrightarrow> is_ok (try_map g xs)"
  by (induction xs) (auto simp: is_ok_iff)

lemma attached_messages:
  "attach_initial_writes E s t ms = Inr entries \<Longrightarrow> map qe_message entries = ms"
  unfolding attach_initial_writes_def
  by (induction ms arbitrary: entries) (auto simp: rbind_Inr_iff)

text \<open>
  A successful reply to a query comes from the plan of its requester, and every entry is a row of
  the tenant that the plan selects.
\<close>

lemma query_reply_within:
  assumes "records_query E resolver s tenant m d = Some (Replied status (entries, cursor))"
  obtains signature auth where
    "validate_authorization_signature E resolver m False = Inr signature"
    "authorize_collection E s tenant m (rqd_filter d) signature (canonical_rfc3339 E (rqd_message_timestamp d)) = Inr auth"
    "status = 200"
    "\<forall>e \<in> set entries.
       holds E s tenant (collection_filters auth (rqd_filter d) (rqd_date_sort d) PlanSnapshot) (qe_message e)"
proof -
  let ?f = "rqd_filter d" and ?at = "canonical_rfc3339 E (rqd_message_timestamp d)"
  from assms obtain signature auth policy ms where
    sig: "validate_authorization_signature E resolver m False = Inr signature"
    and auth: "authorize_collection E s tenant m ?f signature ?at = Inr auth"
    and page: "collect_visible_page E s tenant m signature ?f
      (collection_filters auth ?f (rqd_date_sort d) PlanSnapshot)
      (Some (date_sort_to_message_sort (rqd_date_sort d) False)) (rqd_pagination d) policy = Some (Inr (ms, cursor))"
    and entries: "attach_initial_writes E s tenant ms = Inr entries" and "status = 200"
    by (auto simp: records_query_def Let_def authentication_refusal_def control_refusal_def
        split: if_splits sum.splits option.splits prod.splits)
  moreover from page have "\<forall>x \<in> set ms.
      holds E s tenant (collection_filters auth ?f (rqd_date_sort d) PlanSnapshot) x"
    unfolding collect_visible_page_def by (rule fill_page_within) simp
  ultimately show ?thesis using that attached_messages [OF entries] by force
qed

text \<open>
  A row under the method Write carries the index entries that the handler of RecordsWrite computes
  for its message, for the author and the state that the row itself records.
\<close>

definition indexed_as_written :: "'x mext_scheme \<Rightarrow> message_row \<Rightarrow> bool" where
  "indexed_as_written E row =
     (case bt_get (mr_indexes row) ''method'' of
        Some (VString method) \<Rightarrow>
          method = ''Write'' \<longrightarrow>
          (case (bt_get (mr_indexes row) ''author'', bt_get (mr_indexes row) ''isLatestBaseState'') of
             (Some (VString author), Some (VBool latest)) \<Rightarrow>
               records_write_indexes E (mr_message row) author latest = Inr (mr_indexes row)
           | _ \<Rightarrow> False)
      | _ \<Rightarrow> False)"

lemma planned_row:
  assumes "indexed_as_written E row"
    and "matches_filters E (mr_indexes row) (Some (collection_filters auth f srt PlanSnapshot))"
    and "collection_filters auth f srt PlanSnapshot \<noteq> []"
  obtains author latest w where
    "records_write_indexes E (mr_message row) author latest = Inr (mr_indexes row)"
    "describe_write (mr_message row) = Inr w"
    "bt_get (mr_indexes row) ''author'' = Some (VString author)"
    "bt_get (mr_indexes row) ''isLatestBaseState'' = Some (VBool latest)"
proof -
  from assms(1) obtain v where "bt_get (mr_indexes row) ''method'' = Some (VString v)"
    by (auto simp: indexed_as_written_def split: option.splits val.splits)
  with plan_selects_writes [OF assms(2,3)] have "bt_get (mr_indexes row) ''method'' = Some (VString ''Write'')" by simp
  with assms(1) obtain author latest where
    ix: "records_write_indexes E (mr_message row) author latest = Inr (mr_indexes row)"
      "bt_get (mr_indexes row) ''author'' = Some (VString author)"
      "bt_get (mr_indexes row) ''isLatestBaseState'' = Some (VBool latest)"
    by (auto simp: indexed_as_written_def split: val.splits option.splits)
  moreover from ix(1) obtain w where "describe_write (mr_message row) = Inr w"
    by (auto simp: records_write_indexes_def rbind_Inr_iff)
  ultimately show ?thesis using that by blast
qed

text \<open>With nothing to hide and no limit, a page is everything the store selects.\<close>

lemma unlimited_page:
  assumes "\<forall>row \<in> set (tenant_rows s t). control_kind_of (mr_message row) = None"
  shows "collect_visible_page E s t request signature f fs srt None None =
    Some (Inr (map mr_message (query_rows E t fs srt None s), None))"
proof -
  let ?ms = "map mr_message (query_rows E t fs srt None s)"
  have page: "store_query E t fs srt (Some \<lparr>pg_cursor = None, pg_limit = None\<rparr>) None s =
      Inr \<lparr>mq_messages = ?ms, mq_cursor = None\<rparr>"
    by (simp add: store_query_def query_page_def Let_def split: prod.splits)
  have plain: "control_kind_of m = None" if "m \<in> set ?ms" for m
    using that assms by (auto simp: set_query_rows)
  then have "concat (map (\<lambda>m. case projected_scope (Some f) m of None \<Rightarrow> [] | Some sc \<Rightarrow> [sc]) ?ms) = []"
    by (auto simp: projected_scope_def)
  then have "project_current_audiences E s t (Some f) ?ms = Inr ?ms"
    unfolding project_current_audiences_def Let_def by (simp only: bs_from_def foldl.simps if_True simp_thms)
  moreover have "\<not> list_ex (\<lambda>m. control_kind_of m \<noteq> None) ?ms"
    using plain by (auto simp: list_ex_iff simp del: set_map)
  ultimately show ?thesis
    unfolding collect_visible_page_def
    by (subst fill_page.simps) (simp add: page filter_visible_controls_def)
qed

section \<open>Properties\<close>


text \<open>
  C36: a filter for unpublished records that excludes its requester both as an author and as a
  recipient leaves the plan without a branch, and the store takes a plan without branches to select
  everything. The node answers such a query of any authenticated requester, with no grant and no
  role, with every message of the tenant that carries the property the reply is sorted by,
  unpublished ones included; only encryption control records would be filtered out afterwards.
\<close>

theorem excluded_requester_is_shown_everything:
  assumes "validate_authorization_signature E resolver m False = Inr (Some a)"
    and "ac_author a \<noteq> tenant" and "ac_author_delegated_grant a = None" and "ac_permission_grant_id a = None"
    and "ac_protocol_role a = None"
    and "rf_published (rqd_filter d) = Some False" and "rf_date_published (rqd_filter d) = None"
    and "rf_author (rqd_filter d) = Some authors" "authors \<noteq> []" "ac_author a \<notin> set authors"
    and "rf_recipient (rqd_filter d) = Some recipients" "recipients \<noteq> []" "ac_author a \<notin> set recipients"
    and "rf_protocol_path (rqd_filter d) = None" and "\<not> published_sort (rqd_date_sort d)"
    and "rqd_pagination d = None"
    and "\<forall>row \<in> set (tenant_rows s tenant). control_kind_of (mr_message row) = None"
  shows "\<exists>messages.
    set messages = {mr_message row | row. row \<in> set (tenant_rows s tenant) \<and>
      bt_contains (mr_indexes row) (fst (sort_property (date_sort_to_message_sort (rqd_date_sort d) False)))} \<and>
    records_query E resolver s tenant m d =
      (case attach_initial_writes E s tenant messages of
         Inl e \<Rightarrow> Some (Refused 500 (RefusedAccess e))
       | Inr entries \<Rightarrow> Some (Replied 200 (entries, None)))"
proof -
  let ?f = "rqd_filter d" and ?srt = "Some (date_sort_to_message_sort (rqd_date_sort d) False)"
  let ?rows = "query_rows E tenant [] ?srt None s"
  have records: "\<not> filter_targets_only_controls ?f"
    using assms(14) by (simp add: filter_targets_only_controls_def)
  obtain auth where "authorize_collection E s tenant m ?f (Some a) (canonical_rfc3339 E (rqd_message_timestamp d)) = Inr auth"
    and "\<And>srt mode. collection_filters auth ?f srt mode = []"
    using empty_plan [OF assms(2-5) records assms(6-13)] by metis
  then have "records_query E resolver s tenant m d =
      (case attach_initial_writes E s tenant (map mr_message ?rows) of
         Inl e \<Rightarrow> Some (Refused 500 (RefusedAccess e))
       | Inr entries \<Rightarrow> Some (Replied 200 (entries, None)))"
    using assms(1,14-17)
    by (simp add: records_query_def Let_def validate_nested_protocol_path_scope_def resolve_record_limit_policy_def
        unlimited_page split: option.split)
  moreover have "set (map mr_message ?rows) = {mr_message row | row. row \<in> set (tenant_rows s tenant) \<and>
      bt_contains (mr_indexes row) (fst (sort_property (date_sort_to_message_sort (rqd_date_sort d) False)))}"
    by (auto simp: set_query_rows selected_def matches_filters_def)
  ultimately show ?thesis by blast
qed

section \<open>Examples\<close>

text \<open>A private letter on Alice's node, signed by Alice and addressed to Carol.\<close>

definition private_letter :: message where
  "private_letter =
     (letter_to ''did:carol'')\<lparr>msg_fields := FieldsWrite (WriteFields
        (Authorization (sample_jws ''did:alice#1'' ''wletter'') None None None)
        (Some ''letter'') (Some ''letter'') None None None)\<rparr>"

definition letter_store :: memory_message_state where
  "letter_store =
     (case records_write_indexes plain_pext private_letter ''did:alice'' True of
        Inl _ \<Rightarrow> memory_message_state_default
      | Inr ix \<Rightarrow> try_put plain_pext ''did:alice'' private_letter ix (store_open ''epoch'' memory_message_state_default))"

definition query_descriptor_for :: "records_filter \<Rightarrow> records_query_descriptor" where
  "query_descriptor_for f =
     \<lparr>rqd_message_timestamp = 9, rqd_filter = f, rqd_pagination = None,
      rqd_permission_grant_id = None, rqd_date_sort = None\<rparr>"

definition query_of :: "string \<Rightarrow> records_filter \<Rightarrow> message" where
  "query_of kid f =
     \<lparr>msg_descriptor = DescriptorRecords (RecordsQuery (query_descriptor_for f)),
      msg_fields = FieldsAuthorization (Authorization (sample_jws kid ''g'') None None None)\<rparr>"


theorem excluded_requester_is_shown_everything_witness:
  "\<exists>entries. records_query plain_pext True letter_store ''did:alice''
       (query_of ''did:bob#1'' (records_filter_default\<lparr>rf_published := Some False, rf_author := Some [''did:alice''],
          rf_recipient := Some [''did:carol'']\<rparr>))
       (query_descriptor_for (records_filter_default\<lparr>rf_published := Some False, rf_author := Some [''did:alice''],
          rf_recipient := Some [''did:carol'']\<rparr>)) = Some (Replied 200 (entries, None))
     \<and> private_letter \<in> qe_message ` set entries"
proof -
  let ?f = "records_filter_default\<lparr>rf_published := Some False, rf_author := Some [''did:alice''],
    rf_recipient := Some [''did:carol'']\<rparr>"
  let ?q = "query_of ''did:bob#1'' ?f" and ?d = "query_descriptor_for ?f"
  have "case validate_authorization_signature plain_pext True ?q False of
      Inr (Some a) \<Rightarrow> ac_author a = ''did:bob'' \<and> ac_author_delegated_grant a = None
        \<and> ac_permission_grant_id a = None \<and> ac_protocol_role a = None
    | _ \<Rightarrow> False"
    by code_simp
  then obtain a where a: "validate_authorization_signature plain_pext True ?q False = Inr (Some a)"
      "ac_author a = ''did:bob''" "ac_author_delegated_grant a = None" "ac_permission_grant_id a = None"
      "ac_protocol_role a = None"
    by (auto split: sum.splits option.splits)
  have plain: "\<forall>row \<in> set (tenant_rows letter_store ''did:alice''). control_kind_of (mr_message row) = None"
    by code_simp
  have f: "rqd_filter ?d = ?f" "rqd_pagination ?d = None" "rqd_date_sort ?d = None"
    by (simp_all add: query_descriptor_for_def)
  obtain messages where all: "set messages = {mr_message row | row. row \<in> set (tenant_rows letter_store ''did:alice'') \<and>
      bt_contains (mr_indexes row) (fst (sort_property (date_sort_to_message_sort None False)))}"
    and run: "records_query plain_pext True letter_store ''did:alice'' ?q ?d =
      (case attach_initial_writes plain_pext letter_store ''did:alice'' messages of
         Inl e \<Rightarrow> Some (Refused 500 (RefusedAccess e)) | Inr entries \<Rightarrow> Some (Replied 200 (entries, None)))"
    using excluded_requester_is_shown_everything [OF a(1), of "''did:alice''" ?d "[''did:alice'']" "[''did:carol'']" letter_store]
      a plain f
    by (auto simp: records_filter_default_def published_sort_def)
  have "set (tenant_rows letter_store ''did:alice'') \<noteq> {} \<and>
      (\<forall>row \<in> set (tenant_rows letter_store ''did:alice''). mr_message row = private_letter \<and>
        bt_contains (mr_indexes row) (fst (sort_property (date_sort_to_message_sort None False))))"
    by code_simp
  then have only: "set messages = {private_letter}" unfolding all ex_in_conv [symmetric] by force
  have "is_ok (resolve_initial_write plain_pext letter_store ''did:alice'' private_letter)" by code_simp
  then have "is_ok (attach_initial_writes plain_pext letter_store ''did:alice'' messages)"
    unfolding attach_initial_writes_def using only
    by (intro try_map_ok) (auto simp: is_ok_iff)
  then obtain entries where "attach_initial_writes plain_pext letter_store ''did:alice'' messages = Inr entries"
    by (auto simp: is_ok_iff)
  with run attached_messages [OF this] only show ?thesis by (metis image_set singletonI sum.case(2))
qed

end
