(* ===== verification/Admission.thy ===== *)
theory Admission
  imports RecordsReading
begin

text \<open>
  What a write has to pass before it can change anything: integrity of the message against its signed
  payload (\<open>handlers/records/common.rs\<close>), the policy in force for it (\<open>policy.rs\<close>) and its
  enforcement (\<open>integrity.rs\<close>), the contract and the authority of encryption control records
  (\<open>control/admission.rs\<close>, \<open>control/authorization.rs\<close>, \<open>permissions/control.rs\<close>,
  \<open>encryption/control.rs\<close>) and the admission of delivered grant keys (\<open>encryption/protocol.rs\<close>).
  Failures keep the distinction the code makes: a code, a detail, or an internal error. A failure to
  find the governing timestamp keeps its text.
\<close>

section \<open>Parameters and failures\<close>

text \<open>
  Base64 encoding, the CID of data, keys (\<open>ssi_jwk\<close>) and JSON Schema are third-party. A key is its
  text; \<open>jwk_params\<close> reads its type.
\<close>

datatype key_params = ParamsOKP string "u8 list" | ParamsEC | ParamsRSA | ParamsSymmetric

record wext = pext +
  encode_base64url :: "u8 list \<Rightarrow> string"
  cid_of_data :: "u8 list \<Rightarrow> cid"
  jwk_params :: "jwk \<Rightarrow> key_params"
  jwk_thumbprint :: "jwk \<Rightarrow> string option"
  jwk_of_json :: "json \<Rightarrow> jwk option"
  schema_accepts :: "string \<Rightarrow> json \<Rightarrow> bool"

datatype grant_key_error =
    KeyMissingEncryption
  | KeyEncryptionNotAllowed
  | KeyInvalidTags
  | KeyAuthorMismatch
  | KeyRecipientMismatch
  | KeyScopeMismatch
  | KeyNotYetActive
  | KeyGrantExpired
  | KeyGrantRevoked
  | KeyGrantMissing
  | KeyProtocolNotFound
  | KeyWrappedDeliveryInvalid
  | KeySchemaUnexpectedRecord
  | KeyInternal access_error

datatype write_code =
    WriteEncryptionRequired
  | WriteEncryptionNotAllowed
  | WriteProtocolPathEntryMissing
  | WriteKeyAgreementMissing
  | WriteRoleAudienceEntryMissing
  | WriteRoleAudienceMissing
  | WriteInvalidType
  | WriteProtocolNotFound
  | WriteImmutableRecord
  | WriteCrossProtocolParentNotFound
  | WriteParentRecordNotFound
  | WriteIncorrectProtocolPath
  | WriteIncorrectContextId
  | WriteParentlessIncorrectProtocolPath
  | WriteControlCode control_code
  | WriteGrantKey grant_key_error
  | WriteDataIntegrity data_integrity_error
  | WriteMissingEncodedDataInPrevious
  | WriteMissingDataInPrevious
  | WriteSquashBackstop instant
  | WriteInitialWriteNotFound
  | WriteImmutablePropertyChanged string
  | WriteNotAllowedAfterDelete

datatype write_failure =
    WriteDwn write_code
  | WriteDetail access_error
  | WriteInternal access_error

type_synonym 'a admitted = "(write_failure, 'a) result"

fun failure_of_control :: "control_failure \<Rightarrow> write_failure" where
  "failure_of_control (ControlDwn c) = WriteDwn (WriteControlCode c)"
| "failure_of_control (ControlDetail d) = WriteDetail (AccessDetail d)"
| "failure_of_control (ControlInternal e) = WriteInternal e"

fun failure_of_lookup :: "definition_lookup_error \<Rightarrow> write_failure" where
  "failure_of_lookup (LookupNotFound _) = WriteDwn WriteProtocolNotFound"
| "failure_of_lookup (LookupStore e) = WriteInternal (AccessStore e)"
| "failure_of_lookup (LookupInvalidMessage d) = WriteDetail (AccessDetail d)"

abbreviation detailed :: "(string, 'a) result \<Rightarrow> 'a admitted" where
  "detailed \<equiv> map_err (\<lambda>e. WriteDetail (AccessDetail e))"

section \<open>Integrity of the message\<close>

definition octet_params :: "'x wext_scheme \<Rightarrow> jwk \<Rightarrow> (string, u8 list) result" where
  "octet_params E k =
     (case jwk_params E k of
        ParamsOKP curve bytes \<Rightarrow> if curve \<noteq> ''X25519'' then Inl ''UnsupportedCurve'' else Inr bytes
      | _ \<Rightarrow> Inl ''NotAnX25519Jwk'')"

definition envelope_validate :: "'x wext_scheme \<Rightarrow> encryption_envelope \<Rightarrow> (string, unit) result" where
  "envelope_validate E envelope =
     rbind (ok_or ''RecordsWriteValidateIntegrityEncryptionInitializationVectorInvalid''
       (decode_base64url E (ee_initialization_vector envelope))) (\<lambda>iv.
       if length iv \<noteq> 16 then Inl ''RecordsWriteValidateIntegrityEncryptionInitializationVectorInvalid''
       else try_each (\<lambda>entry.
         map_err (\<lambda>_. ''RecordsWriteValidateIntegrityEncryptionEphemeralPublicKeyInvalid'')
           (rbind (octet_params E (ke_ephemeral_public_key entry)) (\<lambda>_. Inr ()))) (ee_key_encryption envelope))"

definition validate_records_write_integrity ::
  "'x wext_scheme \<Rightarrow> message \<Rightarrow> authorization_context \<Rightarrow> (string, unit) result" where
  "validate_records_write_integrity E m auth =
     (case ac_payload auth of
        PayloadGeneric _ \<Rightarrow> Inl ''RecordsWriteValidateIntegrityAuthorizationPayloadMissing''
      | PayloadRecordsWrite payload \<Rightarrow>
          rbind (ok_or ''RecordsWriteValidateIntegrityRecordIdMissing'' (record_id m)) (\<lambda>ident.
          if rwp_record_id payload \<noteq> ident then Inl ''RecordsWriteValidateIntegrityRecordIdUnauthorized''
          else
            rbind (write_fields m) (\<lambda>f.
            rbind (case wf_encryption f of None \<Rightarrow> Inr () | Some envelope \<Rightarrow> envelope_validate E envelope) (\<lambda>_.
            if context_id m \<noteq> Some (rwp_context_id payload)
              then Inl ''RecordsWriteValidateIntegrityContextIdNotInSignerSignaturePayload''
            else
              rbind (is_initial_write E m (ac_author auth)) (\<lambda>initial.
              if \<not> initial then Inr ()
              else
                rbind (describe_write m) (\<lambda>d.
                if wd_message_timestamp d \<noteq> wd_date_created d
                  then Inl ''RecordsWriteValidateIntegrityDateCreatedMismatch''
                else if wd_parent_id d = None \<and> context_id m \<noteq> Some ident
                  then Inl ''RecordsWriteValidateIntegrityContextIdMismatch''
                else Inr ()))))))"

section \<open>The policy in force\<close>

record effective_policy =
  ep_definition :: protocol_definition
  ep_rule_set :: rule_set
  ep_type_name :: string
  ep_encryption_required :: bool
  ep_key_agreement :: "jwk option"

definition referenced_definition_for_ref_path ::
  "'x ext_scheme \<Rightarrow> memory_message_state \<Rightarrow> string \<Rightarrow> write_descriptor \<Rightarrow> protocol_definition \<Rightarrow> string
    \<Rightarrow> protocol_definition option admitted" where
  "referenced_definition_for_ref_path E s tenant w defn at =
     (case ref_position defn (wd_protocol_path w) of
        None \<Rightarrow> Inr None
      | Some parsed \<Rightarrow>
          rbind (ok_or (WriteDetail (AccessDetail ''ProtocolsConfigureInvalidRefAlias''))
            (uses_of defn (cr_alias parsed))) (\<lambda>uri.
          rbind (map_err failure_of_lookup (fetch_protocol_definition E s tenant uri (Some at))) (\<lambda>d. Inr (Some d))))"

definition resolve_policy ::
  "'x pext_scheme \<Rightarrow> memory_message_state \<Rightarrow> string \<Rightarrow> message \<Rightarrow> string \<Rightarrow> effective_policy admitted" where
  "resolve_policy E s tenant m author =
     rbind (detailed (describe_write m)) (\<lambda>w.
     rbind (map_err WriteDetail (governing_timestamp E s tenant m author)) (\<lambda>at.
     rbind (case core_definition (wd_protocol w) of
              Some d \<Rightarrow> Inr d
            | None \<Rightarrow> map_err failure_of_lookup (fetch_protocol_definition E s tenant (wd_protocol w) (Some at))) (\<lambda>defn.
     rbind (ok_or (WriteDetail (AccessDetail ''ProtocolAuthorizationInvalidProtocolPath''))
       (rule_at defn (wd_protocol_path w))) (\<lambda>rule_set.
     rbind (referenced_definition_for_ref_path E s tenant w defn at) (\<lambda>referenced.
     let (types, type_name) =
           (case (referenced, ref_position defn (wd_protocol_path w)) of
              (Some r, Some _) \<Rightarrow> (pd_types r, wd_protocol_path w)
            | _ \<Rightarrow> (pd_types defn, last (split_on slash (wd_protocol_path w))));
         protocol_type = bt_get types type_name
     in if referenced \<noteq> None \<and> protocol_type = None then Inl (WriteDwn WriteInvalidType)
        else Inr \<lparr>ep_definition = defn, ep_rule_set = rule_set, ep_type_name = type_name,
               ep_encryption_required = (Option.bind protocol_type ts_encryption_required = Some True),
               ep_key_agreement = rs_key_agreement rule_set\<rparr>)))))"

section \<open>Admission of control records\<close>

definition max_control_data_size :: u64 where
  "max_control_data_size = 30000"

abbreviation unexpected :: "(string, 'a) result \<Rightarrow> 'a controlled" where
  "unexpected \<equiv> map_err (\<lambda>e. ControlDwn (ControlUnexpected (AccessDetail e)))"

definition refuse_control :: "string \<Rightarrow> 'a controlled" where
  "refuse_control detail = Inl (ControlDwn (ControlUnexpected (AccessDetail detail)))"

definition validate_lifecycle :: "'x mext_scheme \<Rightarrow> message \<Rightarrow> string \<Rightarrow> unit controlled" where
  "validate_lifecycle E m author =
     rbind (unexpected (describe_write m)) (\<lambda>d.
     rbind (unexpected (is_initial_write E m author)) (\<lambda>initial.
       if \<not> initial then refuse_control ''encryption control records are immutable''
       else if wd_published d = Some True then refuse_control ''encryption control records must not be published''
       else if max_control_data_size < wd_data_size d then refuse_control ''encryption control records are too large''
       else Inr ()))"

definition stored_audience_exists ::
  "'x ext_scheme \<Rightarrow> memory_message_state \<Rightarrow> string \<Rightarrow> audience_id \<Rightarrow> bool controlled" where
  "stored_audience_exists E s tenant ident =
     rbind (map_err (\<lambda>e. ControlInternal (AccessStore e))
       (store_query E tenant
          [bt_insert (FKIndex ''tag.keyId'') (string_filter (ai_key_id ident)) (audience_filter (ai_scope ident))]
          None (Some (with_limit 1)) None s)) (\<lambda>found. Inr (mq_messages found \<noteq> []))"

definition validate_delivery_references ::
  "'x ext_scheme \<Rightarrow> memory_message_state \<Rightarrow> string \<Rightarrow> message \<Rightarrow> audience_id \<Rightarrow> string \<Rightarrow> unit controlled" where
  "validate_delivery_references E s tenant m ident recipient =
     rbind (required_string_tag m ''recipientAuthority'' ControlDelivery) (\<lambda>authority.
     if authority \<noteq> ''roleHolder'' then Inl (ControlDwn ControlRecipientAuthorityInvalid)
     else
       rbind (stored_audience_exists E s tenant ident) (\<lambda>exists.
       if \<not> exists then Inl (ControlDwn ControlAudienceMissing)
       else
         rbind (map_err (\<lambda>e. ControlDwn (ControlUnexpected (AccessStore e)))
           (role_record_exists E s tenant recipient (ai_protocol ident) (ai_role_path ident)
              (Some (ai_context_id ident)))) (\<lambda>holds_role.
         if \<not> holds_role then Inl (ControlDwn ControlRecipientRoleMissing) else Inr ())))"

definition control_referential_integrity ::
  "'x mext_scheme \<Rightarrow> memory_message_state \<Rightarrow> string \<Rightarrow> message \<Rightarrow> control_kind \<Rightarrow> string \<Rightarrow> unit controlled" where
  "control_referential_integrity E s tenant m kind author =
     rbind (validate_lifecycle E m author) (\<lambda>_.
     rbind (unexpected (describe_write m)) (\<lambda>d.
     rbind (audience_id_from_message m kind) (\<lambda>ident.
     rbind (resolve_role_audience_definition E s tenant ident (canonical_rfc3339 E (wd_message_timestamp d))) (\<lambda>_.
     rbind (unexpected (write_fields m)) (\<lambda>f.
       case kind of
         ControlAudience \<Rightarrow>
           if wf_encryption f \<noteq> None then refuse_control ''audience control records must be plaintext'' else Inr ()
       | ControlDelivery \<Rightarrow>
           if wf_encryption f = None then refuse_control ''delivery control records must be encrypted''
           else case wd_recipient d of
                  None \<Rightarrow> Inl (ControlDwn ControlRecipientMissing)
                | Some recipient \<Rightarrow> validate_delivery_references E s tenant m ident recipient)))))"

section \<open>The payload of an audience\<close>

record seal_key_wrap =
  sk_key_id :: string
  sk_ephemeral_public_key :: jwk
  sk_encrypted_key :: string

record audience_payload =
  ap_protocol :: string
  ap_role_path :: string
  ap_context_id :: string
  ap_key_id :: string
  ap_public_key_jwk :: jwk
  ap_sealed_private_key :: seal_key_wrap

definition de_jwk :: "'x wext_scheme \<Rightarrow> json \<Rightarrow> jwk de" where
  "de_jwk E j = ok_or (DeCustom ''invalid JWK'') (jwk_of_json E j)"

definition de_seal :: "'x wext_scheme \<Rightarrow> json \<Rightarrow> seal_key_wrap de" where
  "de_seal E j =
     rbind (de_struct False [''derivationScheme'', ''algorithm'', ''keyId'', ''ephemeralPublicKey'', ''encryptedKey''] j) (\<lambda>fs.
     rbind (de_required ''derivationScheme'' de_string fs) (\<lambda>scheme.
     if scheme \<noteq> ''seal'' then Inl (UnknownVariant scheme) else
     rbind (de_required ''algorithm'' (de_variant [(''X25519-HKDF-SHA256+A256KW'', ())]) fs) (\<lambda>_.
     rbind (de_required ''keyId'' de_string fs) (\<lambda>key.
     rbind (de_required ''ephemeralPublicKey'' (de_jwk E) fs) (\<lambda>ephemeral.
     rbind (de_required ''encryptedKey'' de_string fs) (\<lambda>wrapped.
       Inr \<lparr>sk_key_id = key, sk_ephemeral_public_key = ephemeral, sk_encrypted_key = wrapped\<rparr>))))))"

definition de_audience_payload :: "'x wext_scheme \<Rightarrow> json \<Rightarrow> audience_payload de" where
  "de_audience_payload E j =
     rbind (de_struct True [''protocol'', ''rolePath'', ''contextId'', ''keyId'', ''publicKeyJwk'', ''sealedPrivateKey''] j) (\<lambda>fs.
     rbind (de_required ''protocol'' de_string fs) (\<lambda>protocol.
     rbind (de_required ''rolePath'' de_string fs) (\<lambda>role_path.
     rbind (de_required ''contextId'' de_string fs) (\<lambda>context.
     rbind (de_required ''keyId'' de_string fs) (\<lambda>key.
     rbind (de_required ''publicKeyJwk'' (de_jwk E) fs) (\<lambda>jwk.
     rbind (de_required ''sealedPrivateKey'' (de_seal E) fs) (\<lambda>seal.
       Inr \<lparr>ap_protocol = protocol, ap_role_path = role_path, ap_context_id = context, ap_key_id = key,
            ap_public_key_jwk = jwk, ap_sealed_private_key = seal\<rparr>)))))))"

definition encryption_audience_schema :: string where
  "encryption_audience_schema = ''https://identity.foundation/dwn/json-schemas/encryption/audience.json''"

definition audience_payload_parse :: "'x wext_scheme \<Rightarrow> u8 list \<Rightarrow> audience_payload controlled" where
  "audience_payload_parse E bytes =
     rbind (ok_or (ControlDwn ControlSchemaFailure) (json_of_bytes E bytes)) (\<lambda>raw.
       if \<not> schema_accepts E encryption_audience_schema raw then Inl (ControlDwn ControlSchemaFailure)
       else map_err (\<lambda>_. ControlDwn ControlSchemaFailure) (de_audience_payload E raw))"

definition claimed_id :: "audience_payload \<Rightarrow> audience_id" where
  "claimed_id p = \<lparr>ai_scope = (ap_protocol p, ap_role_path p, ap_context_id p), ai_key_id = ap_key_id p\<rparr>"

definition verify_key_id :: "'x wext_scheme \<Rightarrow> audience_payload \<Rightarrow> unit controlled" where
  "verify_key_id E p =
     (if jwk_thumbprint E (ap_public_key_jwk p) = Some (ap_key_id p) then Inr ()
      else Inl (ControlDwn ControlKeyIdMismatch))"

definition verify_seal_key_id :: "'x wext_scheme \<Rightarrow> audience_payload \<Rightarrow> jwk \<Rightarrow> unit controlled" where
  "verify_seal_key_id E p role_key =
     (if jwk_thumbprint E role_key = Some (sk_key_id (ap_sealed_private_key p)) then Inr ()
      else Inl (ControlDwn ControlSealKeyIdMismatch))"

definition validate_payload ::
  "'x wext_scheme \<Rightarrow> memory_message_state \<Rightarrow> string \<Rightarrow> message \<Rightarrow> control_kind \<Rightarrow> u8 list \<Rightarrow> unit controlled" where
  "validate_payload E s tenant m kind bytes =
     (if kind = ControlDelivery then Inr ()
      else
        rbind (unexpected (describe_write m)) (\<lambda>d.
        rbind (audience_id_from_message m kind) (\<lambda>ident.
        rbind (audience_payload_parse E bytes) (\<lambda>payload.
        if claimed_id payload \<noteq> ident then Inl (ControlDwn (ControlTagsMismatch ControlAudience))
        else
          rbind (verify_key_id E payload) (\<lambda>_.
          rbind (resolve_role_audience_definition E s tenant ident (canonical_rfc3339 E (wd_message_timestamp d))) (\<lambda>role.
          rbind (ok_or (ControlDwn ControlRolePathInvalid) (rs_key_agreement (snd role))) (\<lambda>role_key.
            verify_seal_key_id E payload role_key)))))))"

section \<open>Who a control write acts as\<close>

definition validate_control_grant ::
  "'x pext_scheme \<Rightarrow> memory_message_state \<Rightarrow> message \<Rightarrow> string \<Rightarrow> string \<Rightarrow> permission_grant \<Rightarrow> unit permitted" where
  "validate_control_grant E s m grantor grantee grant =
     rbind (perform_base_validation E s m grantor grantee grant) (\<lambda>_.
       map_err PermissionInvalidGrant (verify_records_write_conditions m (gr_conditions grant)))"

definition resolve_control_actor ::
  "'x pext_scheme \<Rightarrow> memory_message_state \<Rightarrow> string \<Rightarrow> message \<Rightarrow> authorization_context \<Rightarrow> control_actor permitted" where
  "resolve_control_actor E s tenant m auth =
     (if (case ac_owner auth of None \<Rightarrow> False | Some owner \<Rightarrow> oa_owner owner \<noteq> tenant)
        then Inl (PermissionAuthorization (AuthUnauthorized ''owner is not the tenant''))
      else case ac_author_delegated_grant auth of
        Some grant \<Rightarrow>
          rbind (validate_control_grant E s m (ac_author auth) (ac_signer auth) grant) (\<lambda>_.
            Inr \<lparr>actor_did = ac_signer auth, actor_grant = Some grant\<rparr>)
      | None \<Rightarrow>
          (case ac_owner auth of
             Some owner \<Rightarrow>
               (case oa_delegated_grant owner of
                  Some grant \<Rightarrow>
                    rbind (validate_control_grant E s m (oa_owner owner) (oa_signer owner) grant) (\<lambda>_.
                      Inr \<lparr>actor_did = oa_signer owner, actor_grant = Some grant\<rparr>)
                | None \<Rightarrow> Inr \<lparr>actor_did = oa_owner owner, actor_grant = None\<rparr>)
           | None \<Rightarrow>
               (case ac_permission_grant_id auth of
                  None \<Rightarrow> Inr \<lparr>actor_did = ac_author auth, actor_grant = None\<rparr>
                | Some ident \<Rightarrow>
                    rbind (fetch_grant E s tenant ident) (\<lambda>grant.
                    rbind (validate_control_grant E s m tenant (ac_author auth) grant) (\<lambda>_.
                      Inr \<lparr>actor_did = ac_author auth, actor_grant = Some grant\<rparr>)))))"

definition authorize_control_write ::
  "'x pext_scheme \<Rightarrow> memory_message_state \<Rightarrow> string \<Rightarrow> message \<Rightarrow> control_kind \<Rightarrow> authorization_context
    \<Rightarrow> unit controlled option" where
  "authorize_control_write E s tenant m kind auth =
     (case rbind (unexpected (describe_write m)) (\<lambda>d.
           rbind (audience_id_from_message m kind) (\<lambda>ident.
           rbind (resolve_role_audience_definition E s tenant ident (canonical_rfc3339 E (wd_message_timestamp d))) (\<lambda>role.
           rbind (map_err (\<lambda>e. ControlDwn (ControlWriterUnauthorized (Some e)))
             (resolve_control_actor E s tenant m auth)) (\<lambda>actor. Inr (ident, role, actor))))) of
        Inl e \<Rightarrow> Some (Inl e)
      | Inr (ident, role, actor) \<Rightarrow>
          map_option (\<lambda>allowed. rbind allowed (\<lambda>allowed.
            if allowed then Inr () else Inl (ControlDwn (ControlWriterUnauthorized None))))
            (actor_can_create_role E s tenant actor ident role auth))"

section \<open>Referential integrity\<close>

fun any_audience_stored ::
  "'x ext_scheme \<Rightarrow> memory_message_state \<Rightarrow> string \<Rightarrow> audience_scope \<Rightarrow> key_encryption list \<Rightarrow> bool controlled" where
  "any_audience_stored E s tenant scope [] = Inr False"
| "any_audience_stored E s tenant scope (entry # entries) =
     rbind (stored_audience_exists E s tenant \<lparr>ai_scope = scope, ai_key_id = ke_key_id entry\<rparr>) (\<lambda>exists.
       if exists then Inr True else any_audience_stored E s tenant scope entries)"

fun is_audience_entry :: "string \<Rightarrow> string \<Rightarrow> key_encryption \<Rightarrow> bool" where
  "is_audience_entry protocol role_path (KeyRoleAudience _ _ _ p r) = (p = protocol \<and> r = role_path)"
| "is_audience_entry protocol role_path (KeyProtocolPath _ _ _) = False"

fun validate_role_audience ::
  "'x ext_scheme \<Rightarrow> memory_message_state \<Rightarrow> string \<Rightarrow> message \<Rightarrow> protocol_definition \<Rightarrow> encryption_envelope \<Rightarrow> action
    \<Rightarrow> unit admitted" where
  "validate_role_audience E s tenant m defn envelope (ActionWho _) = Inr ()"
| "validate_role_audience E s tenant m defn envelope (ActionRole a) =
     (if CanRead \<notin> set (ar_can a) then Inr ()
      else case (case parse_cross_protocol_ref (ar_role a) of
                   Some r \<Rightarrow> map_option (\<lambda>p. (p, cr_protocol_path r)) (uses_of defn (cr_alias r))
                 | None \<Rightarrow> Some (pd_protocol defn, ar_role a)) of
             None \<Rightarrow> Inr ()
           | Some (protocol, role_path) \<Rightarrow>
               (case role_audience_context_id role_path (context_id m) of
                  None \<Rightarrow> Inr ()
                | Some context \<Rightarrow>
                    let entries = filter (is_audience_entry protocol role_path) (ee_key_encryption envelope) in
                    if entries = [] then Inl (WriteDwn WriteRoleAudienceEntryMissing)
                    else
                      rbind (map_err failure_of_control
                        (any_audience_stored E s tenant (protocol, role_path, context) entries)) (\<lambda>found.
                        if found then Inr () else Inl (WriteDwn WriteRoleAudienceMissing))))"

definition validate_role_audiences ::
  "'x ext_scheme \<Rightarrow> memory_message_state \<Rightarrow> string \<Rightarrow> message \<Rightarrow> protocol_definition \<Rightarrow> rule_set \<Rightarrow> encryption_envelope
    \<Rightarrow> unit admitted" where
  "validate_role_audiences E s tenant m defn rule_set envelope =
     try_each (validate_role_audience E s tenant m defn envelope) (rs_actions rule_set)"

definition validate_encryption_policy ::
  "'x wext_scheme \<Rightarrow> memory_message_state \<Rightarrow> string \<Rightarrow> message \<Rightarrow> write_descriptor \<Rightarrow> effective_policy
    \<Rightarrow> encryption_envelope option \<Rightarrow> unit admitted" where
  "validate_encryption_policy E s tenant m w policy encryption =
     (if ep_encryption_required policy \<and> encryption = None then Inl (WriteDwn WriteEncryptionRequired)
      else if \<not> ep_encryption_required policy \<and> encryption \<noteq> None then Inl (WriteDwn WriteEncryptionNotAllowed)
      else case encryption of
        None \<Rightarrow> Inr ()
      | Some envelope \<Rightarrow>
          (case ep_key_agreement policy of
             Some agreement \<Rightarrow>
               rbind (ok_or (WriteInternal (AccessDetail ''invalid JWK thumbprint'')) (jwk_thumbprint E agreement)) (\<lambda>key.
               if \<not> list_ex (\<lambda>entry. case entry of
                        KeyProtocolPath ident _ _ \<Rightarrow> ident = key | KeyRoleAudience _ _ _ _ _ \<Rightarrow> False)
                      (ee_key_encryption envelope)
                 then Inl (WriteDwn WriteProtocolPathEntryMissing)
               else validate_role_audiences E s tenant m (ep_definition policy) (ep_rule_set policy) envelope)
           | None \<Rightarrow>
               if pd_protocol (ep_definition policy) = encryption_protocol_uri \<and> wd_protocol_path w = grant_key_path
               then Inr () else Inl (WriteDwn WriteKeyAgreementMissing)))"

definition validate_size :: "rule_set \<Rightarrow> u64 \<Rightarrow> unit admitted" where
  "validate_size rule_set data_size =
     (case rs_size rule_set of
        None \<Rightarrow> Inr ()
      | Some bounds \<Rightarrow>
          if (case size_min bounds of None \<Rightarrow> False | Some least \<Rightarrow> data_size < least)
             \<or> (case size_max bounds of None \<Rightarrow> False | Some most \<Rightarrow> most < data_size)
          then Inl (WriteDetail (AccessDetail ''ProtocolAuthorizationInvalidDataSize'')) else Inr ())"

definition validate_parentage ::
  "'x ext_scheme \<Rightarrow> memory_message_state \<Rightarrow> string \<Rightarrow> message \<Rightarrow> write_descriptor \<Rightarrow> protocol_definition \<Rightarrow> unit admitted"
where
  "validate_parentage E s tenant m w defn =
     (case wd_parent_id w of
        None \<Rightarrow>
          if slash \<in> set (wd_protocol_path w) then Inl (WriteDwn WriteParentlessIncorrectProtocolPath) else Inr ()
      | Some parent_id \<Rightarrow>
          let owner = parent_protocol defn (wd_protocol_path w) in
          rbind (map_err WriteDetail (fetch_parent_record E s tenant parent_id owner)) (\<lambda>found.
          rbind (ok_or (WriteDwn (if owner \<noteq> wd_protocol w then WriteCrossProtocolParentNotFound
                                  else WriteParentRecordNotFound)) found) (\<lambda>parent.
          rbind (detailed (describe_write parent)) (\<lambda>pw.
          if wd_protocol_path pw @ [slash] @ last (split_on slash (wd_protocol_path w)) \<noteq> wd_protocol_path w
            then Inl (WriteDwn WriteIncorrectProtocolPath)
          else
            rbind (ok_or (WriteDwn WriteIncorrectContextId) (context_id parent)) (\<lambda>parent_context.
            rbind (ok_or (WriteDwn WriteIncorrectContextId) (message_record_id m)) (\<lambda>ident.
            rbind (detailed (write_fields m)) (\<lambda>f.
            rbind (ok_or (WriteDwn WriteIncorrectContextId) (wf_context_id f)) (\<lambda>context.
              if context \<noteq> parent_context @ [slash] @ ident then Inl (WriteDwn WriteIncorrectContextId)
              else Inr ()))))))))"

definition validate_referential_integrity ::
  "'x wext_scheme \<Rightarrow> memory_message_state \<Rightarrow> string \<Rightarrow> message \<Rightarrow> string \<Rightarrow> unit admitted" where
  "validate_referential_integrity E s tenant m author =
     rbind (detailed (describe_write m)) (\<lambda>w.
     case control_kind_from_protocol_path (wd_protocol_path w) of
       Some kind \<Rightarrow> map_err failure_of_control (control_referential_integrity E s tenant m kind author)
     | None \<Rightarrow>
         rbind (resolve_policy E s tenant m author) (\<lambda>policy.
         let rule_set = ep_rule_set policy in
         rbind (detailed (write_fields m)) (\<lambda>f.
         rbind (validate_encryption_policy E s tenant m w policy (wf_encryption f)) (\<lambda>_.
         rbind (if rs_immutable rule_set = Some True then detailed (is_initial_write E m author) else Inr True) (\<lambda>mutable.
         if \<not> mutable then Inl (WriteDwn WriteImmutableRecord)
         else
           rbind (validate_size rule_set (wd_data_size w)) (\<lambda>_.
           rbind (if wd_squash w = Some True then
                    if rs_squash rule_set \<noteq> Some True then Inr False else detailed (is_initial_write E m author)
                  else Inr True) (\<lambda>squashes.
           if \<not> squashes then Inl (WriteDetail (AccessDetail ''ProtocolAuthorizationInvalidSquash''))
           else validate_parentage E s tenant m w (ep_definition policy))))))))"

section \<open>Delivered grant keys\<close>

fun grant_key_reply_code :: "grant_key_error \<Rightarrow> nat" where
  "grant_key_reply_code (KeyInternal _) = 500"
| "grant_key_reply_code KeyAuthorMismatch = 401"
| "grant_key_reply_code _ = 400"

definition failure_of_grant :: "permission_error \<Rightarrow> grant_key_error" where
  "failure_of_grant e =
     (case e of
        PermissionInvalidGrant (GrantNotFound _) \<Rightarrow> KeyGrantMissing
      | PermissionInvalidGrant GrantExpired \<Rightarrow> KeyGrantExpired
      | PermissionInvalidGrant GrantRevoked \<Rightarrow> KeyGrantRevoked
      | _ \<Rightarrow> KeyInternal (AccessPermission e))"

fun tag_str :: "val \<Rightarrow> string option" where
  "tag_str (VString v) = Some v"
| "tag_str (VCid c) = Some c"
| "tag_str _ = None"

definition required_tag :: "map_value option \<Rightarrow> string \<Rightarrow> (grant_key_error, string) result" where
  "required_tag tags name =
     ok_or KeyInvalidTags (Option.bind (Option.bind tags (\<lambda>t. bt_get t name)) tag_str)"

definition optional_tag :: "map_value option \<Rightarrow> string \<Rightarrow> (grant_key_error, string option) result" where
  "optional_tag tags name =
     (case Option.bind tags (\<lambda>t. bt_get t name) of
        None \<Rightarrow> Inr None
      | Some v \<Rightarrow> rbind (ok_or KeyInvalidTags (tag_str v)) (\<lambda>t. Inr (Some t)))"

definition is_key_id :: "string \<Rightarrow> bool" where
  "is_key_id key =
     (length key = 43 \<and> list_all (\<lambda>c. is_ascii_alphanumeric c \<or> c = CHR ''-'' \<or> c = CHR ''_'') key)"

definition delivery_representation :: "write_descriptor \<Rightarrow> bool \<Rightarrow> (grant_key_error, unit) result" where
  "delivery_representation w has_envelope =
     (if wd_protocol_path w = grant_key_path
      then if has_envelope then Inr () else Inl KeyMissingEncryption
      else if has_envelope then Inl KeyEncryptionNotAllowed
      else if max_encoded_data_size < wd_data_size w then Inl KeyMissingEncryption
      else Inr ())"

definition delivery_scope_check ::
  "'x ext_scheme \<Rightarrow> memory_message_state \<Rightarrow> string \<Rightarrow> instant \<Rightarrow> permission_grant \<Rightarrow> string \<Rightarrow> string option
    \<Rightarrow> (grant_key_error, unit) result" where
  "delivery_scope_check E s tenant at grant protocol path =
     rbind (ok_or KeyScopeMismatch (eligible_grant_scope (gr_scope grant))) (\<lambda>scope.
     if eg_protocol scope \<noteq> protocol then Inl KeyScopeMismatch
     else
       let delivered = \<lparr>ds_protocol = protocol, ds_protocol_path = path\<rparr> in
       if grant_covers_delivered_scope scope delivered None then Inr ()
       else if path = None then Inl KeyScopeMismatch
       else
         rbind (map_err (\<lambda>e. case e of LookupNotFound _ \<Rightarrow> KeyProtocolNotFound | e \<Rightarrow> KeyInternal (AccessLookup e))
           (fetch_protocol_definition E s tenant protocol (Some (canonical_rfc3339 E at)))) (\<lambda>defn.
           if grant_covers_delivered_scope scope delivered (Some defn) then Inr () else Inl KeyScopeMismatch))"

definition pre_process_encryption_write ::
  "'x pext_scheme \<Rightarrow> memory_message_state \<Rightarrow> string \<Rightarrow> message \<Rightarrow> (grant_key_error, unit) result" where
  "pre_process_encryption_write E s tenant m =
     rbind (map_err (\<lambda>e. KeyInternal (AccessDetail e)) (describe_write m)) (\<lambda>w.
     if wd_protocol w \<noteq> encryption_protocol_uri then Inr ()
     else if wd_protocol_path w \<noteq> grant_key_path \<and> wd_protocol_path w \<noteq> wrapped_grant_key_path then Inr ()
     else
       rbind (map_err (\<lambda>e. KeyInternal (AccessDetail e)) (write_fields m)) (\<lambda>f.
       rbind (delivery_representation w (wf_encryption f \<noteq> None)) (\<lambda>_.
       let tags = wd_tags w in
       if (case tags of None \<Rightarrow> False
           | Some t \<Rightarrow> list_ex (\<lambda>(name, _). name \<notin> {''grantId'', ''protocol'', ''protocolPath'', ''keyId''}) t)
         then Inl KeyInvalidTags
       else
         rbind (required_tag tags ''grantId'') (\<lambda>grant_id.
         rbind (required_tag tags ''protocol'') (\<lambda>protocol.
         rbind (optional_tag tags ''protocolPath'') (\<lambda>path.
         rbind (required_tag tags ''keyId'') (\<lambda>key.
         if \<not> is_key_id key then Inl KeyInvalidTags
         else
           rbind (map_err failure_of_grant (fetch_grant E s tenant grant_id)) (\<lambda>grant.
           let at = wd_message_timestamp w in
           if at < gr_date_granted grant then Inl KeyNotYetActive
           else if gr_date_expires grant \<le> at then Inl KeyGrantExpired
           else
             rbind (map_err failure_of_grant (verify_grant_not_revoked E s tenant at grant)) (\<lambda>_.
             if message_author E m \<noteq> Some (gr_grantor grant) then Inl KeyAuthorMismatch
             else if wd_recipient w \<noteq> Some (gr_grantee grant) then Inl KeyRecipientMismatch
             else delivery_scope_check E s tenant at grant protocol path)))))))))"

definition validate_encryption_delivery :: "'x wext_scheme \<Rightarrow> message \<Rightarrow> u8 list \<Rightarrow> (grant_key_error, unit) result" where
  "validate_encryption_delivery E m bytes =
     rbind (map_err (\<lambda>e. KeyInternal (AccessDetail e)) (describe_write m)) (\<lambda>w.
     if wd_protocol w \<noteq> encryption_protocol_uri \<or> wd_protocol_path w \<noteq> wrapped_grant_key_path then Inr ()
     else
       rbind (ok_or KeyMissingEncryption (json_of_bytes E bytes)) (\<lambda>envelope.
         if schema_accepts E wrapped_grant_key_envelope_schema_uri envelope then Inr ()
         else Inl KeyWrappedDeliveryInvalid))"

definition validate_encryption_record_schema :: "message \<Rightarrow> (grant_key_error, unit) result" where
  "validate_encryption_record_schema m =
     rbind (map_err (\<lambda>e. KeyInternal (AccessDetail e)) (describe_write m)) (\<lambda>w.
     if wd_protocol w \<noteq> encryption_protocol_uri then Inr ()
     else if wd_protocol_path w = grant_key_path \<or> wd_protocol_path w = wrapped_grant_key_path then Inr ()
     else Inl KeySchemaUnexpectedRecord)"

end
