(* ===== verification/RecordsWriting.thy ===== *)
theory RecordsWriting
  imports Admission RecordsState
begin

text \<open>
  The handlers of RecordsWrite and RecordsDelete (\<open>handlers/records/write.rs\<close>, \<open>delete.rs\<close>) with
  the data processing (\<open>data.rs\<close>), the squash rules (\<open>squash.rs\<close>) and the purge of records
  (\<open>common.rs\<close>) they use. A handler runs on the message store and a data store, which is any
  implementation of its trait; an operation of the data store that fails leaves it as it was. The
  result is the stores and the reply, or \<open>None\<close> when a climb to parent records or a descent to child
  records does not end.
\<close>

section \<open>Data\<close>

record 'd data_store_ops = "'d data_ops" +
  ds_put :: "string \<Rightarrow> string \<Rightarrow> cid \<Rightarrow> u8 list \<Rightarrow> 'd \<Rightarrow> (string, u64 \<times> 'd) result"
  ds_get :: "string \<Rightarrow> string \<Rightarrow> cid \<Rightarrow> 'd \<Rightarrow> (string, (string, u8 list) result option) result"

definition encoded_data_bytes :: "'x pext_scheme \<Rightarrow> message \<Rightarrow> (string, u8 list option) result" where
  "encoded_data_bytes E m =
     rbind (write_fields m) (\<lambda>f.
       case wf_encoded_data f of
         None \<Rightarrow> Inr None
       | Some encoded \<Rightarrow>
           rbind (ok_or ''RecordsWriteEncodedDataInvalid'' (decode_base64url E encoded)) (\<lambda>bytes. Inr (Some bytes)))"

definition set_encoded_data :: "message \<Rightarrow> string option \<Rightarrow> (string, message) result" where
  "set_encoded_data m encoded =
     rbind (write_fields m) (\<lambda>_.
       Inr (m\<lparr>msg_fields := update_write_fields (with_encoded_data encoded) (msg_fields m)\<rparr>))"

definition failure_of_delivery :: "grant_key_error \<Rightarrow> write_failure" where
  "failure_of_delivery e = (case e of KeyInternal d \<Rightarrow> WriteInternal d | _ \<Rightarrow> WriteDwn (WriteGrantKey e))"

text \<open>The data store is part of the result on failure too: a put that stored too much is taken back.\<close>

definition process_message_with_data_stream ::
  "'x wext_scheme \<Rightarrow> ('d, 'y) data_store_ops_scheme \<Rightarrow> memory_message_state \<Rightarrow> string \<Rightarrow> message \<Rightarrow> u8 list \<Rightarrow> 'd
    \<Rightarrow> message admitted \<times> 'd" where
  "process_message_with_data_stream E D s tenant m bytes d =
     (case rbind (detailed (describe_write m)) (\<lambda>w.
           rbind (map_err (\<lambda>e. WriteDwn (WriteDataIntegrity e))
             (validate_data_integrity (wd_data_cid w) (wd_data_size w) (cid_of_data E bytes) (of_nat (length bytes)))) (\<lambda>_.
           rbind (case control_kind_from_protocol_path (wd_protocol_path w) of
                    None \<Rightarrow> Inr ()
                  | Some kind \<Rightarrow> map_err failure_of_control (validate_payload E s tenant m kind bytes)) (\<lambda>_.
             Inr w))) of
        Inl e \<Rightarrow> (Inl e, d)
      | Inr w \<Rightarrow>
          if wd_data_size w \<le> max_encoded_data_size then
            (rbind (if wd_protocol w = encryption_protocol_uri
                    then map_err failure_of_delivery (validate_encryption_delivery E m bytes) else Inr ()) (\<lambda>_.
               detailed (set_encoded_data m (Some (encode_base64url E bytes)))), d)
          else
            (case record_id m of
               None \<Rightarrow> (Inl (WriteDetail (AccessDetail ''RecordsWriteMissingRecordId: recordId is required'')), d)
             | Some ident \<Rightarrow>
                 (case ds_put D tenant ident (wd_data_cid w) bytes d of
                    Inl e \<Rightarrow> (Inl (WriteInternal (AccessDetail e)), d)
                  | Inr (stored, d) \<Rightarrow>
                      if stored \<noteq> wd_data_size w then
                        (Inl (WriteDwn (WriteDataIntegrity (DataSizeMismatch stored (wd_data_size w)))),
                         case ds_delete D tenant ident (wd_data_cid w) d of Inl _ \<Rightarrow> d | Inr d \<Rightarrow> d)
                      else (detailed (set_encoded_data m None), d))))"

definition process_message_without_data_stream ::
  "('d, 'y) data_store_ops_scheme \<Rightarrow> string \<Rightarrow> message \<Rightarrow> message \<Rightarrow> 'd \<Rightarrow> message admitted" where
  "process_message_without_data_stream D tenant m newest_existing_write d =
     rbind (detailed (describe_write m)) (\<lambda>w.
     rbind (detailed (describe_write newest_existing_write)) (\<lambda>newest.
     rbind (map_err (\<lambda>e. WriteDwn (WriteDataIntegrity e))
       (validate_data_integrity (wd_data_cid w) (wd_data_size w) (wd_data_cid newest) (wd_data_size newest))) (\<lambda>_.
     if wd_data_size w \<le> max_encoded_data_size then
       rbind (detailed (write_fields newest_existing_write)) (\<lambda>f.
       rbind (ok_or (WriteDwn WriteMissingEncodedDataInPrevious) (wf_encoded_data f)) (\<lambda>encoded.
         detailed (set_encoded_data m (Some encoded))))
     else
       rbind (ok_or (WriteDetail (AccessDetail ''RecordsWriteMissingRecordId: previous recordId is required''))
         (record_id newest_existing_write)) (\<lambda>ident.
       rbind (detailed (ds_get D tenant ident (wd_data_cid w) d)) (\<lambda>found.
         if found = None then Inl (WriteDwn WriteMissingDataInPrevious)
         else detailed (set_encoded_data m None))))))"

section \<open>Order of messages and clean-up\<close>

definition compare_messages :: "'x mext_scheme \<Rightarrow> message \<Rightarrow> message \<Rightarrow> ordering" where
  "compare_messages E l r =
     ord_then (ord_cmp (sent_at l) (sent_at r))
       (case (message_cid E l, message_cid E r) of
          (Inr a, Inr b) \<Rightarrow> ord_cmp a b
        | (Inr _, Inl _) \<Rightarrow> Greater
        | (Inl _, Inr _) \<Rightarrow> Less
        | (Inl _, Inl _) \<Rightarrow> Equal)"

definition newest_message :: "'x mext_scheme \<Rightarrow> message list \<Rightarrow> message option" where
  "newest_message E messages = max_by (compare_messages E) messages"

definition delete_from_data_store_if_needed ::
  "('d, 'y) data_ops_scheme \<Rightarrow> string \<Rightarrow> message \<Rightarrow> message \<Rightarrow> 'd \<Rightarrow> (string, 'd) result" where
  "delete_from_data_store_if_needed D tenant m newest d =
     (case records_write_descriptor m of
        Inl _ \<Rightarrow> Inr d
      | Inr w \<Rightarrow>
          if wd_data_size w \<le> max_encoded_data_size then Inr d
          else if (case records_write_descriptor newest of Inl _ \<Rightarrow> False | Inr n \<Rightarrow> wd_data_cid n = wd_data_cid w) then Inr d
          else case record_id m of None \<Rightarrow> Inr d | Some ident \<Rightarrow> ds_delete D tenant ident (wd_data_cid w) d)"

text \<open>
  From here on the stores travel together. A step that fails leaves what it had done before: the
  result of a failing run is the stores with the error.
\<close>

type_synonym 'd stores = "memory_message_state \<times> 'd"
type_synonym 'd effect = "'d stores \<times> access_error option"

fun then_run :: "'d effect \<Rightarrow> ('d stores \<Rightarrow> 'd effect) \<Rightarrow> 'd effect" where
  "then_run (st, None) g = g st"
| "then_run (st, Some e) g = (st, Some e)"

fun run_each :: "('a \<Rightarrow> 'd stores \<Rightarrow> 'd effect) \<Rightarrow> 'a list \<Rightarrow> 'd stores \<Rightarrow> 'd effect" where
  "run_each g [] st = (st, None)"
| "run_each g (x # xs) st = then_run (g x st) (run_each g xs)"

definition on_data :: "('d \<Rightarrow> (string, 'd) result) \<Rightarrow> 'd stores \<Rightarrow> 'd effect" where
  "on_data g = (\<lambda>(s, d). case g d of Inl e \<Rightarrow> ((s, d), Some (AccessDetail e)) | Inr d' \<Rightarrow> ((s, d'), None))"

definition purge_message :: "'x mext_scheme \<Rightarrow> string \<Rightarrow> message \<Rightarrow> 'd stores \<Rightarrow> 'd effect" where
  "purge_message E tenant m = (\<lambda>(s, d).
     case message_cid E m of
       Inl e \<Rightarrow> ((s, d), Some (AccessDetail e))
     | Inr c \<Rightarrow>
         (case store_delete E tenant c s of
            Inl e \<Rightarrow> ((s, d), Some (AccessStore e))
          | Inr s' \<Rightarrow> ((s', d), None)))"

definition purge_record_messages ::
  "'x mext_scheme \<Rightarrow> ('d, 'y) data_ops_scheme \<Rightarrow> string \<Rightarrow> message list \<Rightarrow> 'd stores \<Rightarrow> 'd effect" where
  "purge_record_messages E D tenant record_messages st =
     then_run
       (case newest_message E (filter (\<lambda>m. is_ok (records_write_descriptor m)) record_messages) of
          None \<Rightarrow> (st, None)
        | Some newest \<Rightarrow>
            (case (record_id newest, records_write_descriptor newest) of
               (Some ident, Inr w) \<Rightarrow> on_data (ds_delete D tenant ident (wd_data_cid w)) st
             | _ \<Rightarrow> (st, None)))
       (run_each (purge_message E tenant) record_messages)"

definition group_by_record :: "message list \<Rightarrow> (string, message list) btree" where
  "group_by_record messages =
     foldl (\<lambda>groups m. case message_record_id m of
              None \<Rightarrow> groups
            | Some ident \<Rightarrow> bt_insert ident (bt_get_or [] groups ident @ [m]) groups) [] messages"

text \<open>
  Purging the descendants of a record: first those of its children, one after the other, then the
  children themselves. The loop over the children and the recursion are one function over the records
  whose descendants are still to be purged.
\<close>

definition children_filters :: "string \<Rightarrow> filters" where
  "children_filters ident =
     [filter_map [(''interface'', string_filter ''Records''), (''parentId'', string_filter ident)]]"

partial_function (option) purge_descendants ::
  "'x mext_scheme \<Rightarrow> ('d, 'y) data_ops_scheme \<Rightarrow> string \<Rightarrow> string list \<Rightarrow> 'd stores \<Rightarrow> 'd effect option" where
  "purge_descendants E D tenant idents st =
     (case idents of
        [] \<Rightarrow> Some (st, None)
      | ident # rest \<Rightarrow>
          (case store_query E tenant (children_filters ident) None None None (fst st) of
             Inl e \<Rightarrow> Some (st, Some (AccessStore e))
           | Inr found \<Rightarrow>
               Option.bind (purge_descendants E D tenant (map fst (group_by_record (mq_messages found))) st) (\<lambda>below.
                 (case then_run below
                    (run_each (purge_record_messages E D tenant) (map snd (group_by_record (mq_messages found)))) of
                    (st', Some e) \<Rightarrow> Some (st', Some e)
                  | (st', None) \<Rightarrow> purge_descendants E D tenant rest st'))))"

definition purge_record_descendants ::
  "'x mext_scheme \<Rightarrow> ('d, 'y) data_ops_scheme \<Rightarrow> string \<Rightarrow> string \<Rightarrow> 'd stores \<Rightarrow> 'd effect option" where
  "purge_record_descendants E D tenant ident st = purge_descendants E D tenant [ident] st"

section \<open>Squash\<close>

definition parent_context_filter :: "message \<Rightarrow> value_filter \<Rightarrow> value_filter" where
  "parent_context_filter m fmap =
     (case context_id m of
        None \<Rightarrow> fmap
      | Some context \<Rightarrow>
          let parent = parent_context_id context
          in if parent = [] then fmap else bt_insert (FKIndex ''contextId'') (FilterSubtree parent) fmap)"

definition enforce_squash_backstop ::
  "'x ext_scheme \<Rightarrow> memory_message_state \<Rightarrow> string \<Rightarrow> message \<Rightarrow> unit admitted" where
  "enforce_squash_backstop E s tenant m =
     rbind (detailed (describe_write m)) (\<lambda>w.
     case fetch_protocol_definition E s tenant (wd_protocol w) None of
       Inl _ \<Rightarrow> Inr ()
     | Inr defn \<Rightarrow>
         (case rule_at defn (wd_protocol_path w) of
            None \<Rightarrow> Inr ()
          | Some rule_set \<Rightarrow>
              if rs_squash rule_set \<noteq> Some True then Inr ()
              else
                rbind (map_err (\<lambda>e. WriteDetail (AccessStore e))
                  (store_query E tenant
                     [parent_context_filter m (filter_map
                        [(''interface'', string_filter ''Records''), (''method'', string_filter ''Write''),
                         (''isLatestBaseState'', bool_filter True), (''protocol'', string_filter (wd_protocol w)),
                         (''protocolPath'', string_filter (wd_protocol_path w)), (''squash'', bool_filter True)])]
                     (Some (SortTimestamp Descending)) (Some (with_limit 1)) None s)) (\<lambda>found.
                case mq_messages found of
                  [] \<Rightarrow> Inr ()
                | newest # _ \<Rightarrow>
                    if wd_message_timestamp w \<le> sent_at newest then Inl (WriteDwn (WriteSquashBackstop (sent_at newest)))
                    else Inr ())))"

text \<open>
  What happens to the messages a new state outranks: the initial write is kept, without data and no
  longer as the latest state, everything else is deleted. Which author the write handler and the
  delete handler ask an initial write for is the argument \<open>own\<close>.
\<close>

fun retain_outranked ::
  "'x mext_scheme \<Rightarrow> (message \<Rightarrow> bool) \<Rightarrow> (message \<Rightarrow> string) \<Rightarrow> string list \<Rightarrow> message list
    \<Rightarrow> (string, latest_state_mutation list \<times> string list) result" where
  "retain_outranked E initial own outranked [] = Inr ([], [])"
| "retain_outranked E initial own outranked (m # ms) =
     rbind (message_cid E m) (\<lambda>c.
     if c \<notin> set outranked then retain_outranked E initial own outranked ms
     else if initial m then
       rbind (set_encoded_data m None) (\<lambda>kept.
       rbind (records_write_indexes E kept (own kept) False) (\<lambda>ix.
       rbind (retain_outranked E initial own outranked ms) (\<lambda>(retains, deletes).
         Inr (\<lparr>lm_message = kept, lm_indexes = ix\<rparr> # retains, deletes))))
     else
       rbind (retain_outranked E initial own outranked ms) (\<lambda>(retains, deletes). Inr (retains, c # deletes)))"

fun outranked_by :: "records_transition_plan \<Rightarrow> string list option" where
  "outranked_by (PlanApply _ outranked) = Some outranked"
| "outranked_by (PlanDuplicate _) = Some []"
| "outranked_by (PlanSuperseded _ _) = None"

definition records_write_transition ::
  "'x mext_scheme \<Rightarrow> message \<Rightarrow> key_values \<Rightarrow> message list \<Rightarrow> records_transition_plan \<Rightarrow> string
    \<Rightarrow> (string, latest_state_transition) result" where
  "records_write_transition E m ix existing plan author =
     rbind (ok_or ''RecordsStateSupersededTransition: superseded write cannot be committed'' (outranked_by plan)) (\<lambda>outranked.
     rbind (retain_outranked E (\<lambda>w. is_initial_write E w author = Inr True) (\<lambda>_. author) outranked existing) (\<lambda>(retains, deletes).
       Inr \<lparr>lt_put = \<lparr>lm_message = m, lm_indexes = ix\<rparr>, lt_retains = retains, lt_deletes = deletes\<rparr>))"

definition perform_records_squash ::
  "'x mext_scheme \<Rightarrow> ('d, 'y) data_ops_scheme \<Rightarrow> string \<Rightarrow> message \<Rightarrow> 'd stores \<Rightarrow> 'd effect" where
  "perform_records_squash E D tenant m st =
     (case (describe_write m, record_id m) of
        (Inl e, _) \<Rightarrow> (st, Some (AccessDetail e))
      | (_, None) \<Rightarrow> (st, Some (AccessDetail ''RecordsWriteMissingRecordId: recordId is required''))
      | (Inr w, Some own) \<Rightarrow>
          (case store_query E tenant
                  [parent_context_filter m (filter_map
                     [(''interface'', string_filter ''Records''), (''protocol'', string_filter (wd_protocol w)),
                      (''protocolPath'', string_filter (wd_protocol_path w))])] None None None (fst st) of
             Inl e \<Rightarrow> (st, Some (AccessStore e))
           | Inr siblings \<Rightarrow>
               run_each (\<lambda>(ident, messages) st.
                 if ident = own then (st, None)
                 else case newest_message E messages of
                        None \<Rightarrow> (st, None)
                      | Some newest \<Rightarrow>
                          if sent_at newest < wd_message_timestamp w
                          then purge_record_messages E D tenant messages st else (st, None))
                 (group_by_record (mq_messages siblings)) st))"

section \<open>The handler of RecordsWrite\<close>

datatype write_refusal =
    RefuseText string
  | RefuseAuthentication authorization_validation_error
  | RefuseWrite write_failure
  | RefuseAccess access_error
  | RefuseControl control_failure
  | RefusePermission permission_error
  | RefuseGrantKey grant_key_error

datatype write_reply = WriteReply (reply_code: nat) (reply_refusal: "write_refusal option")

type_synonym 'a checked_write = "(nat \<times> write_refusal, 'a) result"

fun failure_code :: "write_failure \<Rightarrow> nat" where
  "failure_code (WriteInternal _) = 500"
| "failure_code _ = 400"

abbreviation refuse_failure :: "'a admitted \<Rightarrow> 'a checked_write" where
  "refuse_failure \<equiv> map_err (\<lambda>e. (failure_code e, RefuseWrite e))"

abbreviation bad_request :: "(string, 'a) result \<Rightarrow> 'a checked_write" where
  "bad_request \<equiv> map_err (\<lambda>e. (400, RefuseText e))"

definition authorize_records_write ::
  "'x pext_scheme \<Rightarrow> memory_message_state \<Rightarrow> string \<Rightarrow> message \<Rightarrow> authorization_context
    \<Rightarrow> (write_refusal, unit) result option" where
  "authorize_records_write E s tenant m auth =
     (case control_kind_of m of
        Some kind \<Rightarrow> map_option (map_err RefuseControl) (authorize_control_write E s tenant m kind auth)
      | None \<Rightarrow>
          (case map_err RefusePermission (authorize_delegated_records_write E s m auth) of
             Inl e \<Rightarrow> Some (Inl e)
           | Inr True \<Rightarrow> Some (Inr ())
           | Inr False \<Rightarrow>
               if ac_author auth = tenant then Some (Inr ())
               else case map_err RefusePermission (authorize_records_write_with_grant_id E s tenant m auth) of
                      Inl e \<Rightarrow> Some (Inl e)
                    | Inr True \<Rightarrow> Some (Inr ())
                    | Inr False \<Rightarrow>
                        map_option (map_err RefuseAccess) (authorize_against_protocol E s tenant m auth AuthWrite None)))"

text \<open>
  An error of the permissions protocol is answered with 401 only when its text starts with a certain
  prefix, which none of those texts has; it is always 400.
\<close>

definition pre_process_write ::
  "'x pext_scheme \<Rightarrow> memory_message_state \<Rightarrow> string \<Rightarrow> message \<Rightarrow> unit checked_write" where
  "pre_process_write E s tenant m =
     rbind (map_err (\<lambda>e. (400, RefusePermission e)) (pre_process_permissions_write E s tenant m)) (\<lambda>_.
       map_err (\<lambda>e. (grant_key_reply_code e, RefuseGrantKey e)) (pre_process_encryption_write E s tenant m))"

definition validate_record :: "'x pext_scheme \<Rightarrow> message \<Rightarrow> unit checked_write" where
  "validate_record E m =
     rbind (map_err (\<lambda>e. (400, RefusePermission (PermissionInvalidGrant e))) (validate_permissions_record_schema E m)) (\<lambda>_.
       map_err (\<lambda>e. (grant_key_reply_code e, RefuseGrantKey e)) (validate_encryption_record_schema m))"

definition record_filters :: "string \<Rightarrow> filters" where
  "record_filters ident =
     [filter_map [(''interface'', string_filter ''Records''), (''recordId'', string_filter ident)]]"

definition fetch_record_messages ::
  "'x ext_scheme \<Rightarrow> memory_message_state \<Rightarrow> string \<Rightarrow> string \<Rightarrow> message list store_result" where
  "fetch_record_messages E s tenant ident =
     rbind (store_query E tenant (record_filters ident) None None None s) (\<lambda>r. Inr (mq_messages r))"

text \<open>What the handler knows before it authenticates: the messages of the record and the plan.\<close>

definition plan_write ::
  "'x mext_scheme \<Rightarrow> memory_message_state \<Rightarrow> string \<Rightarrow> message \<Rightarrow> (message list \<times> records_transition_plan) checked_write" where
  "plan_write E s tenant m =
     rbind (ok_or (400, RefuseText ''RecordsWriteMissingRecordId: recordId is required'') (record_id m)) (\<lambda>ident.
     rbind (map_err (\<lambda>e. (500, RefuseAccess (AccessStore e))) (fetch_record_messages E s tenant ident)) (\<lambda>existing.
     rbind (bad_request (plan_records_transition E m existing)) (\<lambda>plan.
       case plan of
         PlanDuplicate _ \<Rightarrow> Inl (409, RefuseText ''Conflict'')
       | _ \<Rightarrow> Inr (existing, plan))))"

definition authenticate_write :: "'x pext_scheme \<Rightarrow> bool \<Rightarrow> message \<Rightarrow> authorization_context checked_write" where
  "authenticate_write E resolver m =
     (case validate_authorization_signature E resolver m True of
        Inr (Some auth) \<Rightarrow> Inr auth
      | Inr None \<Rightarrow> Inl (401, RefuseText ''AuthenticateJwsMissing: authorization signature is required'')
      | Inl e \<Rightarrow> Inl (case e of AuthUnauthorized _ \<Rightarrow> 401 | _ \<Rightarrow> 400, RefuseAuthentication e))"

definition check_initial_write ::
  "'x pext_scheme \<Rightarrow> message \<Rightarrow> authorization_context \<Rightarrow> message list \<Rightarrow> bool checked_write" where
  "check_initial_write E m auth existing =
     rbind (bad_request (is_initial_write E m (ac_author auth))) (\<lambda>initial.
     if initial then Inr True
     else
       rbind (ok_or (400, RefuseWrite (WriteDwn WriteInitialWriteNotFound)) (find_initial_write E existing)) (\<lambda>first.
       rbind (map_err (\<lambda>e. (400, RefuseWrite (WriteDwn (WriteImmutablePropertyChanged e))))
         (verify_immutable_properties first m)) (\<lambda>_. Inr False)))"

definition check_superseded ::
  "'x mext_scheme \<Rightarrow> message \<Rightarrow> message list \<Rightarrow> records_transition_plan \<Rightarrow> unit checked_write" where
  "check_superseded E m existing plan =
     (case plan of
        PlanSuperseded _ _ \<Rightarrow>
          (case newest_message E existing of
             Some newest \<Rightarrow>
               if is_ok (records_delete_descriptor newest) \<and> compare_messages E m newest = Greater
               then Inl (400, RefuseWrite (WriteDwn WriteNotAllowedAfterDelete))
               else Inl (409, RefuseText ''Conflict'')
           | None \<Rightarrow> Inl (409, RefuseText ''Conflict''))
      | _ \<Rightarrow> Inr ())"

record prepared_write =
  pw_auth :: authorization_context
  pw_existing :: "message list"
  pw_plan :: records_transition_plan
  pw_initial :: bool

definition prepare_write ::
  "'x wext_scheme \<Rightarrow> bool \<Rightarrow> memory_message_state \<Rightarrow> string \<Rightarrow> message \<Rightarrow> prepared_write checked_write option" where
  "prepare_write E resolver s tenant m =
     (case rbind (plan_write E s tenant m) (\<lambda>(existing, plan).
           rbind (authenticate_write E resolver m) (\<lambda>auth.
           rbind (bad_request (validate_records_write_integrity E m auth)) (\<lambda>_.
           rbind (refuse_failure (validate_referential_integrity E s tenant m (ac_author auth))) (\<lambda>_.
             Inr (existing, plan, auth))))) of
        Inl e \<Rightarrow> Some (Inl e)
      | Inr (existing, plan, auth) \<Rightarrow>
          map_option (\<lambda>authorized.
            rbind (map_err (\<lambda>e. (401, e)) authorized) (\<lambda>_.
            rbind (pre_process_write E s tenant m) (\<lambda>_.
            rbind (check_initial_write E m auth existing) (\<lambda>initial.
            rbind (map_err (\<lambda>e. (case e of WriteInternal _ \<Rightarrow> 500 | _ \<Rightarrow> 409, RefuseWrite e))
              (enforce_squash_backstop E s tenant m)) (\<lambda>_.
            rbind (check_superseded E m existing plan) (\<lambda>_.
              Inr \<lparr>pw_auth = auth, pw_existing = existing, pw_plan = plan, pw_initial = initial\<rparr>))))))
            (authorize_records_write E s tenant m auth))"

text \<open>
  The data of the write: supplied with the request, or carried by the message, or taken over from the
  newest write of the record. The result is the message as it will be stored and whether it is the
  latest state with data.
\<close>

definition process_data ::
  "'x wext_scheme \<Rightarrow> ('d, 'y) data_store_ops_scheme \<Rightarrow> memory_message_state \<Rightarrow> string \<Rightarrow> message \<Rightarrow> u8 list option
    \<Rightarrow> prepared_write \<Rightarrow> 'd \<Rightarrow> (message \<times> bool) checked_write \<times> 'd" where
  "process_data E D s tenant m supplied prep d =
     (let supplied = (case supplied of
            Some bytes \<Rightarrow> Some bytes
          | None \<Rightarrow> (case encoded_data_bytes E m of Inr bytes \<Rightarrow> bytes | Inl _ \<Rightarrow> None))
      in case supplied of
        None \<Rightarrow>
          (if control_kind_of m \<noteq> None
             then Inl (400, RefuseWrite (WriteDwn (WriteControlCode (ControlUnexpected
                    (AccessDetail ''encryption control records must be written with their data'')))))
           else if pw_initial prep then Inr (m, False)
           else case newest_message E (pw_existing prep) of
                  Some newest \<Rightarrow>
                    if is_ok (records_write_descriptor newest)
                    then rbind (refuse_failure (process_message_without_data_stream D tenant m newest d)) (\<lambda>m. Inr (m, True))
                    else Inl (400, RefuseWrite (WriteDwn WriteMissingDataInPrevious))
                | None \<Rightarrow> Inl (400, RefuseWrite (WriteDwn WriteMissingDataInPrevious)), d)
      | Some bytes \<Rightarrow>
          (case process_message_with_data_stream E D s tenant m bytes d of
             (r, d) \<Rightarrow> (rbind (refuse_failure r) (\<lambda>m. Inr (m, True)), d)))"

definition remove_authorized_run ::
  "'x mext_scheme \<Rightarrow> ('d, 'y) data_ops_scheme \<Rightarrow> string \<Rightarrow> instant \<Rightarrow> message \<Rightarrow> 'd stores \<Rightarrow> 'd effect" where
  "remove_authorized_run E D tenant revoked_at m st =
     (if sent_at m < revoked_at then (st, None)
      else
        then_run
          (case (records_write_descriptor m, record_id m) of
             (Inr w, Some ident) \<Rightarrow>
               if max_encoded_data_size < wd_data_size w
               then on_data (ds_delete D tenant ident (wd_data_cid w)) st else (st, None)
           | _ \<Rightarrow> (st, None))
          (purge_message E tenant m))"

definition post_process_write ::
  "'x pext_scheme \<Rightarrow> ('d, 'y) data_ops_scheme \<Rightarrow> string \<Rightarrow> message \<Rightarrow> 'd stores \<Rightarrow> 'd effect" where
  "post_process_write E D tenant m st =
     (case grant_write_descriptor m of
        Inl e \<Rightarrow> (st, Some (AccessPermission (PermissionInvalidGrant e)))
      | Inr w \<Rightarrow>
          if \<not> is_revocation_write w then (st, None)
          else case wd_parent_id w of
                 None \<Rightarrow> (st, None)
               | Some ident \<Rightarrow>
                   (case store_query E tenant (authorized_filters ident) None None None (fst st) of
                      Inl e \<Rightarrow> (st, Some (AccessStore e))
                    | Inr found \<Rightarrow>
                        run_each (remove_authorized_run E D tenant (wd_message_timestamp w)) (mq_messages found) st))"

definition clean_up_data ::
  "'x mext_scheme \<Rightarrow> ('d, 'y) data_ops_scheme \<Rightarrow> string \<Rightarrow> message \<Rightarrow> string list \<Rightarrow> message \<Rightarrow> 'd stores \<Rightarrow> 'd effect" where
  "clean_up_data E D tenant newest cleanup existing st =
     (case message_cid E existing of
        Inl _ \<Rightarrow> (st, None)
      | Inr c \<Rightarrow>
          if c \<in> set cleanup then on_data (delete_from_data_store_if_needed D tenant existing newest) st else (st, None))"

text \<open>What follows an admitted write: the last checks and one commit, then the clean-up that can no longer refuse it.\<close>

definition write_checks ::
  "'x wext_scheme \<Rightarrow> string \<Rightarrow> message \<Rightarrow> bool \<Rightarrow> prepared_write \<Rightarrow> memory_message_state
    \<Rightarrow> (memory_message_state \<times> wake option \<times> progress_token option) checked_write" where
  "write_checks E tenant m latest prep s =
     rbind (validate_record E m) (\<lambda>_.
     rbind (bad_request (records_write_indexes E m (ac_author (pw_auth prep)) latest)) (\<lambda>ix.
     rbind (bad_request (records_write_transition E m ix (pw_existing prep) (pw_plan prep) (ac_author (pw_auth prep)))) (\<lambda>tr.
       map_err (\<lambda>e. (500, RefuseAccess (AccessStore e))) (commit_latest_state E tenant tr s))))"

definition after_commit ::
  "'x wext_scheme \<Rightarrow> ('d, 'y) data_store_ops_scheme \<Rightarrow> string \<Rightarrow> message \<Rightarrow> prepared_write \<Rightarrow> bool \<Rightarrow> 'd stores \<Rightarrow> 'd effect" where
  "after_commit E D tenant m prep squash st =
     then_run (run_each (clean_up_data E D tenant m
         (case pw_plan prep of PlanApply _ outranked \<Rightarrow> outranked | _ \<Rightarrow> [])) (pw_existing prep) st) (\<lambda>st.
     then_run (if squash then perform_records_squash E D tenant m st else (st, None)) (\<lambda>st.
       post_process_write E D tenant m st))"

definition finish_write ::
  "'x wext_scheme \<Rightarrow> ('d, 'y) data_store_ops_scheme \<Rightarrow> string \<Rightarrow> message \<Rightarrow> bool \<Rightarrow> prepared_write \<Rightarrow> bool \<Rightarrow> 'd stores
    \<Rightarrow> 'd stores \<times> write_reply" where
  "finish_write E D tenant m latest prep squash st =
     (case write_checks E tenant m latest prep (fst st) of
        Inl (code, e) \<Rightarrow> (st, WriteReply code (Some e))
      | Inr (s, _) \<Rightarrow>
          (case after_commit E D tenant m prep squash (s, snd st) of
             (st, Some e) \<Rightarrow> (st, WriteReply 500 (Some (RefuseAccess e)))
           | (st, None) \<Rightarrow> (st, WriteReply (if pw_initial prep \<and> \<not> latest then 204 else 202) None)))"

definition records_write ::
  "'x wext_scheme \<Rightarrow> ('d, 'y) data_store_ops_scheme \<Rightarrow> bool \<Rightarrow> string \<Rightarrow> message \<Rightarrow> write_descriptor \<Rightarrow> u8 list option
    \<Rightarrow> 'd stores \<Rightarrow> ('d stores \<times> write_reply) option" where
  "records_write E D resolver tenant m descriptor supplied st =
     map_option (\<lambda>prepared.
       case prepared of
         Inl (code, e) \<Rightarrow> (st, WriteReply code (Some e))
       | Inr prep \<Rightarrow>
           (case process_data E D (fst st) tenant m supplied prep (snd st) of
              (Inl (code, e), d) \<Rightarrow> ((fst st, d), WriteReply code (Some e))
            | (Inr (m, latest), d) \<Rightarrow>
                finish_write E D tenant m latest prep (wd_squash descriptor = Some True) (fst st, d)))
       (prepare_write E resolver (fst st) tenant m)"

section \<open>The handler of RecordsDelete\<close>

definition author_of :: "'x pext_scheme \<Rightarrow> message \<Rightarrow> string" where
  "author_of E m = (case message_author E m of None \<Rightarrow> [] | Some a \<Rightarrow> a)"

definition prepare_records_delete_transition ::
  "'x pext_scheme \<Rightarrow> message \<Rightarrow> key_values \<Rightarrow> message list \<Rightarrow> records_transition_plan
    \<Rightarrow> (string, latest_state_transition \<times> string list) result" where
  "prepare_records_delete_transition E m ix existing plan =
     rbind (ok_or ''RecordsStateSupersededTransition: superseded delete cannot be committed'' (outranked_by plan)) (\<lambda>cleanup.
     rbind (records_delete_descriptor m) (\<lambda>d.
     rbind (retain_outranked E
       (\<lambda>w. is_ok (records_write_descriptor w) \<and> record_id w = Some (dd_record_id d)
            \<and> is_initial_write E w (author_of E w) = Inr True) (author_of E) cleanup existing) (\<lambda>(retains, deletes).
       Inr (\<lparr>lt_put = \<lparr>lm_message = m, lm_indexes = ix\<rparr>, lt_retains = retains, lt_deletes = deletes\<rparr>, cleanup))))"

definition delete_checks ::
  "'x pext_scheme \<Rightarrow> string \<Rightarrow> message \<Rightarrow> message list \<Rightarrow> message \<Rightarrow> records_transition_plan \<Rightarrow> memory_message_state
    \<Rightarrow> (memory_message_state \<times> string list \<times> delete_descriptor) accessed" where
  "delete_checks E tenant m existing initial_write plan s =
     rbind (ok_or (AccessDetail ''RecordsDeleteMissingAuthor: author is required'') (message_author E m)) (\<lambda>author.
     rbind (map_err AccessDetail (records_delete_indexes E m initial_write author)) (\<lambda>ix.
     rbind (map_err AccessDetail (prepare_records_delete_transition E m ix existing plan)) (\<lambda>(tr, cleanup).
     rbind (map_err AccessStore (commit_latest_state E tenant tr s)) (\<lambda>(s, _).
     rbind (map_err AccessDetail (records_delete_descriptor m)) (\<lambda>d.
       Inr (s, cleanup, d))))))"

definition perform_records_delete ::
  "'x pext_scheme \<Rightarrow> ('d, 'y) data_ops_scheme \<Rightarrow> string \<Rightarrow> message \<Rightarrow> message list \<Rightarrow> message \<Rightarrow> records_transition_plan
    \<Rightarrow> 'd stores \<Rightarrow> 'd effect option" where
  "perform_records_delete E D tenant m existing initial_write plan st =
     (case delete_checks E tenant m existing initial_write plan (fst st) of
        Inl e \<Rightarrow> Some (st, Some e)
      | Inr (s, cleanup, d) \<Rightarrow>
          map_option (\<lambda>purged. then_run purged (run_each (clean_up_data E D tenant m cleanup) existing))
            (if dd_prune d then purge_record_descendants E D tenant (dd_record_id d) (s, snd st)
             else Some ((s, snd st), None)))"

definition delete_target :: "'x pext_scheme \<Rightarrow> message list \<Rightarrow> message option" where
  "delete_target E existing =
     (case find_initial_write E existing of
        Some m \<Rightarrow> Some m
      | None \<Rightarrow> find (\<lambda>m. is_ok (records_write_descriptor m)) existing)"

definition plan_delete ::
  "'x pext_scheme \<Rightarrow> bool \<Rightarrow> memory_message_state \<Rightarrow> string \<Rightarrow> message \<Rightarrow> delete_descriptor
    \<Rightarrow> (authorization_context \<times> message list \<times> records_transition_plan \<times> message) checked_write" where
  "plan_delete E resolver s tenant m descriptor =
     rbind (authenticate_write E resolver m) (\<lambda>auth.
     rbind (map_err (\<lambda>e. (500, RefuseAccess (AccessStore e))) (fetch_record_messages E s tenant (dd_record_id descriptor))) (\<lambda>existing.
     if existing = [] then Inl (404, RefuseText ''Not Found'')
     else
       rbind (bad_request (plan_records_transition E m existing)) (\<lambda>plan.
       case plan of
         PlanApply _ _ \<Rightarrow>
           rbind (ok_or (401, RefuseText ''RecordsDeleteAuthorizationFailed: initial write not found'')
             (delete_target E existing)) (\<lambda>initial_write.
           if control_kind_of initial_write \<noteq> None
             then Inl (400, RefuseWrite (WriteDwn (WriteControlCode (ControlUnexpected
                    (AccessDetail ''encryption control records cannot be deleted'')))))
           else Inr (auth, existing, plan, initial_write))
       | _ \<Rightarrow> Inl (409, RefuseText ''Conflict''))))"

definition records_delete ::
  "'x pext_scheme \<Rightarrow> ('d, 'y) data_ops_scheme \<Rightarrow> bool \<Rightarrow> string \<Rightarrow> message \<Rightarrow> delete_descriptor \<Rightarrow> 'd stores
    \<Rightarrow> ('d stores \<times> write_reply) option" where
  "records_delete E D resolver tenant m descriptor st =
     (case plan_delete E resolver (fst st) tenant m descriptor of
        Inl (code, e) \<Rightarrow> Some (st, WriteReply code (Some e))
      | Inr (auth, existing, plan, initial_write) \<Rightarrow>
          (case authorize_records_delete E (fst st) tenant m initial_write auth of
             None \<Rightarrow> None
           | Some (Inl e) \<Rightarrow> Some (st, WriteReply 401 (Some (RefuseAccess e)))
           | Some (Inr _) \<Rightarrow>
               map_option (\<lambda>(st, failed).
                 case failed of
                   Some e \<Rightarrow> (st, WriteReply 500 (Some (RefuseAccess e)))
                 | None \<Rightarrow> (st, WriteReply 202 None))
                 (perform_records_delete E D tenant m existing initial_write plan st)))"

end
