(* ===== verification/WriteEffects.thy ===== *)
theory WriteEffects
  imports RecordsWriting StoreOperations
begin

text \<open>
  What the handlers of RecordsWrite and RecordsDelete do to the stores. The only operations of the
  message store they call are the latest-state commit and the deletion of a message of their tenant,
  so whatever these two keep, every run of a handler keeps, also a run that fails in the middle. The
  contracts are the locales \<open>deletion_property\<close>, for what follows a commit, and \<open>store_property\<close>,
  which extends it; they are interpreted for reachability, for the permanence of feed positions, for
  the isolation of tenants and for the rows that are left. The theorems after them say what a refused
  and an accepted write did, and who may write.
\<close>

section \<open>The ways a handler can end\<close>

lemma records_write_cases:
  assumes "records_write E D resolver tenant m descriptor supplied st = Some (st', reply)"
  obtains (refused) code e where "prepare_write E resolver (fst st) tenant m = Some (Inl (code, e))"
      and "st' = st" and "reply = WriteReply code (Some e)"
  | (data) prep code e d where "prepare_write E resolver (fst st) tenant m = Some (Inr prep)"
      and "process_data E D (fst st) tenant m supplied prep (snd st) = (Inl (code, e), d)"
      and "st' = (fst st, d)" and "reply = WriteReply code (Some e)"
  | (admitted) prep stored latest d where "prepare_write E resolver (fst st) tenant m = Some (Inr prep)"
      and "process_data E D (fst st) tenant m supplied prep (snd st) = (Inr (stored, latest), d)"
      and "finish_write E D tenant stored latest prep (wd_squash descriptor = Some True) (fst st, d) = (st', reply)"
proof -
  obtain prepared where prepared: "prepare_write E resolver (fst st) tenant m = Some prepared"
    using assms unfolding records_write_def by (meson map_option_eq_Some)
  note run = assms [unfolded records_write_def prepared option.map option.inject]
  show ?thesis
  proof (cases prepared)
    case (Inl e)
    obtain code refusal where e: "e = (code, refusal)" by (rule prod.exhaust)
    show ?thesis by (rule refused [OF prepared [unfolded Inl e]]) (use run Inl e in simp_all)
  next
    case (Inr prep)
    obtain r d where r: "process_data E D (fst st) tenant m supplied prep (snd st) = (r, d)" by (rule prod.exhaust)
    show ?thesis
    proof (cases r)
      case bad: (Inl e)
      obtain code refusal where e: "e = (code, refusal)" by (rule prod.exhaust)
      show ?thesis by (rule data [OF prepared [unfolded Inr] r [unfolded bad e]]) (use run Inr r bad e in simp_all)
    next
      case ok: (Inr stored)
      obtain kept latest where stored: "stored = (kept, latest)" by (rule prod.exhaust)
      show ?thesis by (rule admitted [OF prepared [unfolded Inr] r [unfolded ok stored]]) (use run Inr r ok stored in simp)
    qed
  qed
qed

lemma finish_write_cases:
  assumes "finish_write E D tenant m latest prep squash st = (st', reply)"
  obtains (refused) code e where "write_checks E tenant m latest prep (fst st) = Inl (code, e)"
      and "st' = st" and "reply = WriteReply code (Some e)"
  | (failed) s r e where "write_checks E tenant m latest prep (fst st) = Inr (s, r)"
      and "after_commit E D tenant m prep squash (s, snd st) = (st', Some e)"
      and "reply = WriteReply 500 (Some (RefuseAccess e))"
  | (accepted) s r where "write_checks E tenant m latest prep (fst st) = Inr (s, r)"
      and "after_commit E D tenant m prep squash (s, snd st) = (st', None)"
      and "reply = WriteReply (if pw_initial prep \<and> \<not> latest then 204 else 202) None"
proof (cases "write_checks E tenant m latest prep (fst st)")
  case (Inl e)
  obtain code refusal where e: "e = (code, refusal)" by (rule prod.exhaust)
  show ?thesis by (rule refused [OF Inl [unfolded e]]) (use assms Inl e in \<open>simp_all add: finish_write_def\<close>)
next
  case (Inr committed)
  obtain s r where s: "committed = (s, r)" by (rule prod.exhaust)
  obtain st1 e where run: "after_commit E D tenant m prep squash (s, snd st) = (st1, e)" by (rule prod.exhaust)
  show ?thesis
  proof (cases e)
    case None
    then have "st' = st1 \<and> reply = WriteReply (if pw_initial prep \<and> \<not> latest then 204 else 202) None"
      using assms Inr s run by (simp add: finish_write_def)
    then show ?thesis using accepted [OF Inr [unfolded s]] run None by simp
  next
    case (Some a)
    then have "st' = st1 \<and> reply = WriteReply 500 (Some (RefuseAccess a))"
      using assms Inr s run by (simp add: finish_write_def)
    then show ?thesis using failed [OF Inr [unfolded s]] run Some by simp
  qed
qed

lemma records_delete_cases:
  assumes "records_delete E D resolver tenant m descriptor st = Some (st', reply)"
  obtains (refused) code e where "st' = st" and "reply = WriteReply code (Some e)"
  | (performed) auth existing plan first failed where
      "plan_delete E resolver (fst st) tenant m descriptor = Inr (auth, existing, plan, first)"
      and "authorize_records_delete E (fst st) tenant m first auth = Some (Inr ())"
      and "perform_records_delete E D tenant m existing first plan st = Some (st', failed)"
      and "reply = (case failed of Some e \<Rightarrow> WriteReply 500 (Some (RefuseAccess e)) | None \<Rightarrow> WriteReply 202 None)"
proof (cases "plan_delete E resolver (fst st) tenant m descriptor")
  case (Inl e)
  with assms refused show ?thesis by (cases e) (auto simp: records_delete_def)
next
  case (Inr planned)
  obtain auth existing plan first where planned: "planned = (auth, existing, plan, first)" by (cases planned) auto
  show ?thesis
  proof (cases "authorize_records_delete E (fst st) tenant m first auth")
    case None
    with assms Inr planned show ?thesis by (simp add: records_delete_def)
  next
    case (Some authorized)
    show ?thesis
    proof (cases authorized)
      case (Inl e)
      with assms Inr planned Some refused show ?thesis by (auto simp: records_delete_def)
    next
      case ok: (Inr u)
      with assms Inr planned Some obtain failed where
        "perform_records_delete E D tenant m existing first plan st = Some (st', failed)"
        and "reply = (case failed of Some e \<Rightarrow> WriteReply 500 (Some (RefuseAccess e)) | None \<Rightarrow> WriteReply 202 None)"
        by (auto simp: records_delete_def split: option.splits)
      with Inr planned Some ok performed show ?thesis by simp
    qed
  qed
qed

section \<open>Runs keep what the store's operations keep\<close>

lemma then_run_keeps:
  "P (fst (fst r)) \<Longrightarrow> (\<And>st. P (fst st) \<Longrightarrow> P (fst (fst (g st)))) \<Longrightarrow> P (fst (fst (then_run r g)))"
  by (cases "(r, g)" rule: then_run.cases) auto

lemma run_each_keeps:
  "P (fst st) \<Longrightarrow> (\<And>x st. x \<in> set xs \<Longrightarrow> P (fst st) \<Longrightarrow> P (fst (fst (g x st)))) \<Longrightarrow> P (fst (fst (run_each g xs st)))"
proof (induction xs arbitrary: st)
  case (Cons x xs)
  have "P (fst (fst (g x st)))" using Cons.prems by simp
  then show ?case unfolding run_each.simps
    by (rule then_run_keeps) (rule Cons.IH, auto intro: Cons.prems(2))
qed simp

lemma on_data_messages [simp]: "fst (fst (on_data g st)) = fst st"
  by (simp add: on_data_def split: prod.split sum.split)

locale deletion_property =
  fixes E :: "'x wext_scheme" and tenant :: string and P :: "memory_message_state \<Rightarrow> bool"
  assumes kept_by_delete: "P s \<Longrightarrow> store_delete E tenant c s = Inr s' \<Longrightarrow> P s'"
begin

lemma purge_message_keeps: "P (fst st) \<Longrightarrow> P (fst (fst (purge_message E tenant m st)))"
  by (auto simp: purge_message_def split: prod.split sum.split intro: kept_by_delete)

lemma purge_record_messages_keeps:
  "P (fst st) \<Longrightarrow> P (fst (fst (purge_record_messages E D tenant ms st)))"
  unfolding purge_record_messages_def
  by (rule then_run_keeps) (auto split: option.split sum.split intro!: run_each_keeps purge_message_keeps)

lemma purge_descendants_keeps:
  assumes "purge_descendants E D tenant idents st = Some r" and "P (fst st)"
  shows "P (fst (fst r))"
proof -
  have "E' = E \<longrightarrow> t = tenant \<longrightarrow> P (fst st) \<longrightarrow> P (fst (fst r))"
    if "purge_descendants E' D t idents st = Some r" for E' t
    using that
  proof (induction rule: purge_descendants.raw_induct [rotated, consumes 1])
    case (1 loop E' D t idents st r)
    show ?case
    proof (intro impI)
      assume same: "E' = E" "t = tenant" and st: "P (fst st)"
      show "P (fst (fst r))"
      proof (cases idents)
        case Nil
        with 1(2) st show ?thesis by auto
      next
        case (Cons ident rest)
        show ?thesis
        proof (cases "store_query E tenant (children_filters ident) None None None (fst st)")
          case (Inl e)
          with 1(2) Cons same st show ?thesis by auto
        next
          case (Inr found)
          let ?groups = "group_by_record (mq_messages found)"
          from 1(2) Cons Inr same obtain below where below: "loop E D tenant (map fst ?groups) st = Some below"
            and rest: "(case then_run below (run_each (purge_record_messages E D tenant) (map snd ?groups)) of
                (st', Some e) \<Rightarrow> Some (st', Some e) | (st', None) \<Rightarrow> loop E D tenant rest st') = Some r"
            by (auto simp: bind_eq_Some_conv)
          have "P (fst (fst below))" using 1(1) [OF below] st by simp
          then have "P (fst (fst (then_run below (run_each (purge_record_messages E D tenant) (map snd ?groups)))))"
            by (rule then_run_keeps) (rule run_each_keeps, assumption, rule purge_record_messages_keeps)
          moreover obtain st1 e where run: "then_run below (run_each (purge_record_messages E D tenant) (map snd ?groups)) = (st1, e)"
            by fastforce
          ultimately show ?thesis using rest 1(1) [of E D tenant rest st1 r] unfolding run by (cases e) auto
        qed
      qed
    qed
  qed
  with assms show ?thesis by blast
qed

lemma squash_keeps: "P (fst st) \<Longrightarrow> P (fst (fst (perform_records_squash E D tenant m st)))"
  unfolding perform_records_squash_def
  by (simp split: option.split sum.split)
     (intro allI impI, rule run_each_keeps, assumption, auto split: option.split intro!: purge_record_messages_keeps)

lemma remove_authorized_keeps: "P (fst st) \<Longrightarrow> P (fst (fst (remove_authorized_run E D tenant at m st)))"
  unfolding remove_authorized_run_def
  by (simp, intro impI, rule then_run_keeps) (auto split: option.split sum.split intro!: purge_message_keeps)

lemma post_process_keeps: "P (fst st) \<Longrightarrow> P (fst (fst (post_process_write E D tenant m st)))"
  unfolding post_process_write_def
  by (simp split: option.split sum.split)
     (intro allI impI, rule run_each_keeps, assumption, rule remove_authorized_keeps)

lemma clean_up_keeps: "P (fst st) \<Longrightarrow> P (fst (fst (clean_up_data E D tenant newest cleanup m st)))"
  by (simp add: clean_up_data_def split: sum.split)

lemma after_commit_keeps: "P (fst st) \<Longrightarrow> P (fst (fst (after_commit E D tenant m prep squash st)))"
  unfolding after_commit_def
  by (rule then_run_keeps, rule run_each_keeps, assumption, rule clean_up_keeps, assumption, rule then_run_keeps)
     (auto intro!: squash_keeps post_process_keeps)

end

locale store_property = deletion_property +
  assumes kept_by_commit: "P s \<Longrightarrow> commit_latest_state E tenant tr s = Inr (s', r) \<Longrightarrow> P s'"
begin

lemma write_checks_keeps:
  "write_checks E tenant m latest prep s = Inr (s', r) \<Longrightarrow> P s \<Longrightarrow> P s'"
  by (auto simp: write_checks_def rbind_Inr_iff intro: kept_by_commit)

lemma finish_write_keeps:
  assumes "finish_write E D tenant m latest prep squash st = (st', reply)" and "P (fst st)"
  shows "P (fst st')"
  using assms(1)
proof (cases rule: finish_write_cases)
  case (failed s r e)
  show ?thesis
    using after_commit_keeps [of "(s, snd st)" D m prep squash] write_checks_keeps [OF failed(1) assms(2)] failed(2) by simp
next
  case (accepted s r)
  show ?thesis
    using after_commit_keeps [of "(s, snd st)" D m prep squash] write_checks_keeps [OF accepted(1) assms(2)] accepted(2) by simp
qed (use assms(2) in simp)

lemma records_write_keeps:
  assumes "records_write E D resolver tenant m descriptor supplied st = Some (st', reply)" and "P (fst st)"
  shows "P (fst st')"
  using assms(1)
proof (cases rule: records_write_cases)
  case (admitted prep stored latest d)
  show ?thesis by (rule finish_write_keeps [OF admitted(3)]) (simp add: assms(2))
qed (use assms(2) in simp_all)

lemma delete_checks_keeps: "delete_checks E tenant m existing first plan s = Inr (s', r) \<Longrightarrow> P s \<Longrightarrow> P s'"
  by (auto simp: delete_checks_def rbind_Inr_iff intro: kept_by_commit)

lemma perform_delete_keeps:
  assumes "perform_records_delete E D tenant m existing first plan st = Some r" and "P (fst st)"
  shows "P (fst (fst r))"
proof (cases "delete_checks E tenant m existing first plan (fst st)")
  case (Inl e)
  with assms show ?thesis by (auto simp: perform_records_delete_def)
next
  case (Inr committed)
  obtain s cleanup d where committed: "committed = (s, cleanup, d)" by (cases committed) auto
  then have s: "P s" using delete_checks_keeps Inr assms(2) by simp
  from assms(1) Inr committed obtain purged where
    purged: "(if dd_prune d then purge_record_descendants E D tenant (dd_record_id d) (s, snd st)
             else Some ((s, snd st), None)) = Some purged"
    and r: "r = then_run purged (run_each (clean_up_data E D tenant m cleanup) existing)"
    by (auto simp: perform_records_delete_def)
  from purged s have "P (fst (fst purged))"
    by (auto simp: purge_record_descendants_def dest: purge_descendants_keeps split: if_splits)
  then show ?thesis unfolding r by (rule then_run_keeps) (rule run_each_keeps, assumption, rule clean_up_keeps)
qed

lemma records_delete_keeps:
  assumes "records_delete E D resolver tenant m descriptor st = Some (st', reply)" and "P (fst st)"
  shows "P (fst st')"
  using assms(1)
proof (cases rule: records_delete_cases)
  case (performed auth existing plan first failed)
  then show ?thesis using perform_delete_keeps [of D m existing first plan st "(st', failed)"] assms(2) by simp
qed (use assms(2) in simp)

end

section \<open>What the two operations keep\<close>

interpretation reaching: store_property E tenant "store_reachable E" for E :: "'x wext_scheme" and tenant
  by unfold_locales (auto intro: reach_step step_commit step_delete)

interpretation extending: store_property E tenant "feed_extends s\<^sub>0" for E :: "'x wext_scheme" and tenant s\<^sub>0
  by unfold_locales
     (auto simp: store_delete_def intro: feed_extends_trans delete_extends commit_extends)

text \<open>What a tenant can observe of the store: its messages, its feed and its fingerprints.\<close>

definition same_tenant :: "string \<Rightarrow> memory_message_state \<Rightarrow> memory_message_state \<Rightarrow> bool" where
  "same_tenant t s s' \<longleftrightarrow>
     (\<forall>c. bt_get (ms_messages s') (t, c) = bt_get (ms_messages s) (t, c)
        \<and> bt_get (ms_positions_by_cid s') (t, c) = bt_get (ms_positions_by_cid s) (t, c))
     \<and> head_of s' t = head_of s t
     \<and> (\<forall>p. bt_get (ms_entries s') (t, p) = bt_get (ms_entries s) (t, p))
     \<and> (\<forall>scope. bt_get (ms_fingerprints s') (t, scope) = bt_get (ms_fingerprints s) (t, scope))"

lemma same_tenant_refl: "same_tenant t s s"
  by (simp add: same_tenant_def)

lemma same_tenant_trans: "same_tenant t s s' \<Longrightarrow> same_tenant t s' s'' \<Longrightarrow> same_tenant t s s''"
  by (simp add: same_tenant_def)

lemma fold_cid_other_tenant:
  "t' \<noteq> t \<Longrightarrow> bt_get (fold_cid_into_domain E t c scopes fp) (t', scope) = bt_get fp (t', scope)"
  unfolding fold_cid_into_domain_def by (induction scopes arbitrary: fp) (simp_all add: bt_get_insert)

lemma put_other_tenant:
  assumes "put_message_state E t mu s = Inr (s', w)" and "t' \<noteq> t"
  shows "same_tenant t' s s'"
  using assms(1)
  by (cases rule: put_cases) (use assms(2) in \<open>simp_all add: same_tenant_def head_of_def bt_get_or_def bt_get_insert fold_cid_other_tenant\<close>)

lemma delete_other_tenant:
  assumes "delete_message_state E t c s = Inr s'" and "t' \<noteq> t"
  shows "same_tenant t' s s'"
  using assms(1)
  by (cases rule: delete_cases) (use assms(2) in \<open>simp_all add: same_tenant_def head_of_def bt_get_remove fold_cid_other_tenant\<close>)

lemma commit_other_tenant:
  assumes "commit_latest_state E t tr s = Inr (s', w, pos)" and "t' \<noteq> t"
  shows "same_tenant t' s s'"
proof -
  obtain s1 s2 where put: "put_message_state E t (lt_put tr) s = Inr (s1, w)"
    and ret: "try_fold (retain_message E t) (lt_retains tr) s1 = Inr s2"
    and del: "try_fold (delete_message_state E t) (lt_deletes tr) s2 = Inr s'"
    by (rule commit_parts [OF assms(1)])
  have "same_tenant t' s s2"
    using ret put_other_tenant [OF put assms(2)]
    by (rule try_fold_invariant) (blast elim: retain_cases intro: same_tenant_trans put_other_tenant [OF _ assms(2)])
  with del show ?thesis
    by (rule try_fold_invariant) (blast intro: same_tenant_trans delete_other_tenant [OF _ assms(2)])
qed

interpretation isolating: store_property E tenant "\<lambda>s. t \<noteq> tenant \<longrightarrow> same_tenant t s\<^sub>0 s"
  for E :: "'x wext_scheme" and tenant t s\<^sub>0
  by unfold_locales
     (auto simp: store_delete_def intro: same_tenant_trans delete_other_tenant commit_other_tenant)

text \<open>Deletions leave a part of the rows, and the rows that are left are as they were.\<close>

definition fewer_rows :: "memory_message_state \<Rightarrow> memory_message_state \<Rightarrow> bool" where
  "fewer_rows s s' \<longleftrightarrow> (\<forall>k row. bt_get (ms_messages s') k = Some row \<longrightarrow> bt_get (ms_messages s) k = Some row)"

interpretation shrinking: deletion_property E tenant "fewer_rows s\<^sub>0" for E :: "'x wext_scheme" and tenant s\<^sub>0
  by unfold_locales (auto simp: fewer_rows_def store_delete_def delete_look split: if_splits)

section \<open>A node\<close>

text \<open>
  The states a node goes through as its two writing handlers answer requests, of any sender, for any
  tenant, in any order, whatever the replies are.
\<close>

inductive node_step ::
  "'x wext_scheme \<Rightarrow> ('d, 'y) data_store_ops_scheme \<Rightarrow> bool \<Rightarrow> 'd stores \<Rightarrow> 'd stores \<Rightarrow> bool"
  for E :: "'x wext_scheme" and D :: "('d, 'y) data_store_ops_scheme" and resolver :: bool where
  node_write: "records_write E D resolver tenant m descriptor supplied st = Some (st', reply) \<Longrightarrow> node_step E D resolver st st'"
| node_delete: "records_delete E D resolver tenant m removal st = Some (st', reply) \<Longrightarrow> node_step E D resolver st st'"

inductive_cases node_stepE: "node_step E D resolver st st'"

inductive node_reachable ::
  "'x wext_scheme \<Rightarrow> ('d, 'y) data_store_ops_scheme \<Rightarrow> bool \<Rightarrow> 'd stores \<Rightarrow> bool"
  for E :: "'x wext_scheme" and D :: "('d, 'y) data_store_ops_scheme" and resolver :: bool where
  node_start: "store_reachable E (fst st) \<Longrightarrow> node_reachable E D resolver st"
| node_more: "node_reachable E D resolver st \<Longrightarrow> node_step E D resolver st st' \<Longrightarrow> node_reachable E D resolver st'"

lemma node_step_reachable: "node_step E D resolver st st' \<Longrightarrow> store_reachable E (fst st) \<Longrightarrow> store_reachable E (fst st')"
  by (erule node_stepE) (rule reaching.records_write_keeps reaching.records_delete_keeps; assumption)+

lemma node_step_extends: "node_step E D resolver st st' \<Longrightarrow> feed_extends (fst st) (fst st')"
  by (erule node_stepE)
     (auto intro: extending.records_write_keeps extending.records_delete_keeps feed_extends_refl)

lemma node_reachable_store: "node_reachable E D resolver st \<Longrightarrow> store_reachable E (fst st)"
  by (induction rule: node_reachable.induct) (auto intro: node_step_reachable)

section \<open>What a new state outranks\<close>

lemma scan_retained_Inr:
  "scan_retained E c ms acc = Inr (Inr states) \<Longrightarrow>
     \<exists>new. states = acc @ new \<and> list_all2 (\<lambda>m st. state_order E m = Inr st \<and> so_message_cid st \<noteq> so_message_cid c) ms new"
proof (induction ms arbitrary: acc)
  case (Cons m ms)
  then obtain st where st: "state_order E m = Inr st" "so_message_cid st \<noteq> so_message_cid c"
    and "scan_retained E c ms (acc @ [st]) = Inr (Inr states)"
    by (auto simp: rbind_Inr_iff split: if_splits)
  with Cons.IH [of "acc @ [st]"] obtain new where "states = acc @ st # new"
    and "list_all2 (\<lambda>m st. state_order E m = Inr st \<and> so_message_cid st \<noteq> so_message_cid c) ms new" by auto
  with st show ?case by (intro exI [of _ "st # new"]) simp
qed simp

lemma scan_retained_plan: "scan_retained E c ms acc = Inr (Inl plan) \<Longrightarrow> \<exists>d. plan = PlanDuplicate d"
  by (induction ms arbitrary: acc) (auto simp: rbind_Inr_iff split: if_splits)

text \<open>A state that is applied outranks every message of its record.\<close>

lemma applied_outranks_all:
  assumes "plan_records_transition E m existing = Inr (PlanApply c outranked)"
  shows "message_cid E m = Inr c"
    and "x \<in> set existing \<Longrightarrow> \<exists>cx \<in> set outranked. message_cid E x = Inr cx \<and> cx \<noteq> c"
proof -
  from assms obtain candidate r where candidate: "state_order E m = Inr candidate"
    and scan: "scan_retained E candidate existing [] = Inr r"
    and plan: "(case r of Inl plan \<Rightarrow> Inr plan | Inr states \<Rightarrow> Inr (plan_states candidate states)) = (Inr (PlanApply c outranked) :: (string, _) result)"
    by (auto simp: plan_records_transition_def rbind_Inr_iff)
  obtain states where states: "r = Inr states" "plan_states candidate states = PlanApply c outranked"
    using plan scan_retained_plan scan by (cases r) fastforce+
  have less: "\<forall>st \<in> set states. compare_order st candidate = Less"
  proof (rule ccontr)
    assume "\<not> ?thesis"
    then obtain st where "st \<in> set states" "compare_order candidate st \<noteq> Greater"
      by (auto simp: compare_order_less_iff)
    then obtain cid winner where "plan_states candidate states = PlanSuperseded cid winner"
      by (rule plan_states_superseded) blast
    with states(2) show False by simp
  qed
  have c: "c = so_message_cid candidate" and outranked: "outranked = sort (map so_message_cid states)"
    using plan_states_apply [OF less] states(2) by simp_all
  show "message_cid E m = Inr c" using message_cid_state [OF candidate] c by simp
  show "\<exists>cx \<in> set outranked. message_cid E x = Inr cx \<and> cx \<noteq> c" if x: "x \<in> set existing"
  proof -
    have "list_all2 (\<lambda>m st. state_order E m = Inr st \<and> so_message_cid st \<noteq> so_message_cid candidate) existing states"
      using scan_retained_Inr [of E candidate existing "[]" states] scan states(1) by simp
    with x obtain st where "st \<in> set states" "state_order E x = Inr st" "so_message_cid st \<noteq> so_message_cid candidate"
      unfolding list_all2_conv_all_nth by (metis in_set_conv_nth)
    then show ?thesis using outranked c message_cid_state by (intro bexI [of _ "so_message_cid st"]) auto
  qed
qed

lemma set_encoded_data_without: "set_encoded_data m e = Inr m' \<Longrightarrow> without_encoded_data m' = without_encoded_data m"
proof -
  have again: "with_encoded_data a (with_encoded_data b f) = with_encoded_data a f" for a b f by (cases f) simp
  show "set_encoded_data m e = Inr m' \<Longrightarrow> without_encoded_data m' = without_encoded_data m"
    by (cases "(with_encoded_data e, msg_fields m)" rule: update_write_fields.cases)
       (auto simp: set_encoded_data_def without_encoded_data_def write_fields_def again)
qed

lemma set_encoded_data_cid: "set_encoded_data m e = Inr m' \<Longrightarrow> message_cid E m' = message_cid E m"
  by (simp add: message_cid_def set_encoded_data_without)

lemma retain_outranked_each:
  assumes "retain_outranked E initial own outranked ms = Inr (retains, deletes)"
    and "m \<in> set ms" and "message_cid E m = Inr c" and "c \<in> set outranked"
  shows "if initial m then \<exists>mu \<in> set retains. set_encoded_data m None = Inr (lm_message mu) else c \<in> set deletes"
  using assms
proof (induction ms arbitrary: retains deletes)
  case (Cons x ms)
  show ?case
  proof (cases "x = m")
    case True
    with Cons.prems show ?thesis by (auto simp: rbind_Inr_iff split: if_splits prod.splits)
  next
    case False
    with Cons.prems obtain retains' deletes' where "retain_outranked E initial own outranked ms = Inr (retains', deletes')"
      and "set retains' \<subseteq> set retains" "set deletes' \<subseteq> set deletes"
      by (auto simp: rbind_Inr_iff subset_insertI split: if_splits prod.splits)
    with Cons.IH Cons.prems False show ?thesis by (auto split: if_splits)
  qed
qed simp

lemma retain_outranked_retains:
  assumes "retain_outranked E initial own outranked ms = Inr (retains, deletes)" and "mu \<in> set retains"
  shows "\<exists>m \<in> set ms. initial m \<and> set_encoded_data m None = Inr (lm_message mu)
    \<and> records_write_indexes E (lm_message mu) (own (lm_message mu)) False = Inr (lm_indexes mu)"
  using assms
  by (induction ms arbitrary: retains deletes) (auto simp: rbind_Inr_iff split: if_splits prod.splits)

section \<open>What an accepted write went through\<close>

lemma prepare_write_facts:
  assumes "prepare_write E resolver s tenant m = Some (Inr prep)"
  obtains ident c outranked where "record_id m = Some ident"
    and "pw_existing prep = map mr_message (query_rows E tenant (record_filters ident) None None s)"
    and "plan_records_transition E m (pw_existing prep) = Inr (PlanApply c outranked)"
    and "pw_plan prep = PlanApply c outranked"
    and "validate_authorization_signature E resolver m True = Inr (Some (pw_auth prep))"
    and "validate_records_write_integrity E m (pw_auth prep) = Inr ()"
    and "validate_referential_integrity E s tenant m (ac_author (pw_auth prep)) = Inr ()"
    and "authorize_records_write E s tenant m (pw_auth prep) = Some (Inr ())"
    and "check_initial_write E m (pw_auth prep) (pw_existing prep) = Inr (pw_initial prep)"
proof -
  let ?checked = "rbind (plan_write E s tenant m) (\<lambda>(existing, plan).
           rbind (authenticate_write E resolver m) (\<lambda>auth.
           rbind (bad_request (validate_records_write_integrity E m auth)) (\<lambda>_.
           rbind (refuse_failure (validate_referential_integrity E s tenant m (ac_author auth))) (\<lambda>_.
             Inr (existing, plan, auth)))))"
  obtain existing plan auth where checked: "?checked = Inr (existing, plan, auth)"
    using assms by (cases ?checked) (auto simp: prepare_write_def)
  from checked have plan: "plan_write E s tenant m = Inr (existing, plan)"
    and auth: "authenticate_write E resolver m = Inr auth"
    and integrity: "validate_records_write_integrity E m auth = Inr ()"
      "validate_referential_integrity E s tenant m (ac_author auth) = Inr ()"
    by (auto simp: rbind_Inr_iff)
  obtain authorized where authorized: "authorize_records_write E s tenant m auth = Some authorized"
    using assms checked unfolding prepare_write_def by (cases "authorize_records_write E s tenant m auth") simp_all
  with assms checked have ok: "authorized = Inr ()" and initial: "check_initial_write E m auth existing = Inr (pw_initial prep)"
    and superseded: "check_superseded E m existing plan = Inr ()"
    and prep: "pw_auth prep = auth" "pw_existing prep = existing" "pw_plan prep = plan"
    by (auto simp: prepare_write_def rbind_Inr_iff)
  from plan obtain ident where ident: "record_id m = Some ident"
    and existing: "fetch_record_messages E s tenant ident = Inr existing"
    and planned: "plan_records_transition E m existing = Inr plan" and "\<forall>d. plan \<noteq> PlanDuplicate d"
    by (auto simp: plan_write_def rbind_Inr_iff split: records_transition_plan.splits) (metis records_transition_plan.exhaust)
  with superseded obtain c outranked where applied: "plan = PlanApply c outranked"
    by (cases plan) (auto simp: check_superseded_def split: option.splits if_splits)
  have "validate_authorization_signature E resolver m True = Inr (Some auth)"
    using auth by (auto simp: authenticate_write_def split: sum.splits option.splits)
  moreover have "existing = map mr_message (query_rows E tenant (record_filters ident) None None s)"
    using existing by (auto simp: fetch_record_messages_def query_without_page)
  ultimately show ?thesis using that [of ident c outranked] ident planned applied authorized ok initial integrity prep by simp
qed

lemma with_stream_stored:
  assumes "process_message_with_data_stream E D s tenant m bytes d = (Inr kept, d')"
  shows "without_encoded_data kept = without_encoded_data m"
proof -
  have "\<exists>e. set_encoded_data m e = Inr kept"
    using assms unfolding process_message_with_data_stream_def
    by (simp split: sum.split_asm if_split_asm option.split_asm prod.split_asm) (auto simp: rbind_Inr_iff)
  then show ?thesis using set_encoded_data_without by blast
qed

lemma without_stream_stored:
  assumes "process_message_without_data_stream D tenant m newest d = Inr kept"
  shows "without_encoded_data kept = without_encoded_data m"
proof -
  have "\<exists>e. set_encoded_data m e = Inr kept"
    using assms unfolding process_message_without_data_stream_def by (auto simp: rbind_Inr_iff split: if_split_asm)
  then show ?thesis using set_encoded_data_without by blast
qed

lemma process_data_stored:
  assumes "process_data E D s tenant m supplied prep d = (Inr (stored, latest), d')"
  shows "without_encoded_data stored = without_encoded_data m"
proof -
  let ?bytes = "case supplied of
            Some bytes \<Rightarrow> Some bytes
          | None \<Rightarrow> (case encoded_data_bytes E m of Inr bytes \<Rightarrow> bytes | Inl _ \<Rightarrow> None)"
  show ?thesis
  proof (cases ?bytes)
    case None
    with assms show ?thesis
      by (auto simp: process_data_def rbind_Inr_iff split: if_split_asm option.split_asm dest: without_stream_stored)
  next
    case (Some bytes)
    obtain r d1 where r: "process_message_with_data_stream E D s tenant m bytes d = (r, d1)" by (rule prod.exhaust)
    with assms Some show ?thesis
      by (cases r) (auto simp: process_data_def dest: with_stream_stored)
  qed
qed

lemma write_checks_committed:
  assumes "write_checks E tenant m latest prep s = Inr (s', w, pos)" and "pw_plan prep = PlanApply c outranked"
  obtains ix retains deletes where
    "records_write_indexes E m (ac_author (pw_auth prep)) latest = Inr ix"
    and "retain_outranked E (\<lambda>w. is_initial_write E w (ac_author (pw_auth prep)) = Inr True)
      (\<lambda>_. ac_author (pw_auth prep)) outranked (pw_existing prep) = Inr (retains, deletes)"
    and "commit_latest_state E tenant \<lparr>lt_put = \<lparr>lm_message = m, lm_indexes = ix\<rparr>, lt_retains = retains, lt_deletes = deletes\<rparr> s
      = Inr (s', w, pos)"
  using assms by (auto simp: write_checks_def records_write_transition_def rbind_Inr_iff)

lemma record_row_selected:
  assumes "rows_ok E s"
  shows "x \<in> set (map mr_message (query_rows E tenant fs None None s)) \<longleftrightarrow>
    (\<exists>row. bt_get (ms_messages s) (tenant, cid_key E x) = Some row \<and> mr_message row = x
      \<and> selected E fs ''messageTimestamp'' row)"
  using row_of_key [OF assms] by (auto simp: set_query_rows message_sort_default_def)

text \<open>
  The rows of a record after the commit of a state that is applied: the state, and of what was there
  before only what is retained.
\<close>

lemma committed_record_rows:
  assumes inv: "rows_ok E s"
    and planned: "plan_records_transition E m existing = Inr (PlanApply c outranked)"
    and existing: "existing = map mr_message (query_rows E tenant (record_filters ident) None None s)"
    and retained: "retain_outranked E initial own outranked existing = Inr (retains, deletes)"
    and commit: "commit_latest_state E tenant \<lparr>lt_put = put, lt_retains = retains, lt_deletes = deletes\<rparr> s = Inr (s', w, pos)"
    and put: "cid_key E (lm_message put) = c"
    and row: "bt_get (ms_messages s') (tenant, c') = Some row"
    and sel: "selected E (record_filters ident) ''messageTimestamp'' row" and new: "c' \<noteq> c"
  obtains first where "bt_get (ms_messages s) (tenant, c') = Some first" and "initial (mr_message first)"
    and "set_encoded_data (mr_message first) None = Inr (mr_message row)"
    and "records_write_indexes E (mr_message row) (own (mr_message row)) False = Inr (mr_indexes row)"
proof (cases "\<exists>mu \<in> set retains. c' = cid_key E (lm_message mu)")
  case True
  then obtain mu where mu: "mu \<in> set retains" "c' = cid_key E (lm_message mu)" by blast
  have is_mu: "row = row_of E mu" using commit_rows(2) [OF commit, of mu] mu row by simp
  obtain x where x: "x \<in> set existing" "initial x" "set_encoded_data x None = Inr (lm_message mu)"
    "records_write_indexes E (lm_message mu) (own (lm_message mu)) False = Inr (lm_indexes mu)"
    using retain_outranked_retains [OF retained mu(1)] by blast
  obtain first where "bt_get (ms_messages s) (tenant, cid_key E x) = Some first" "mr_message first = x"
    using x(1) record_row_selected [OF inv] unfolding existing by blast
  moreover have "cid_key E x = c'" using set_encoded_data_cid [OF x(3), of E] mu(2) by (simp add: cid_key_def)
  ultimately show ?thesis using that x(2-4) is_mu by (simp add: row_of_def)
next
  case False
  have del: "c' \<notin> set deletes" using commit_rows(3) [OF commit, of c'] row by auto
  have "bt_get (ms_messages s') (tenant, c') = bt_get (ms_messages s) (tenant, c')"
    by (rule commit_rows(4) [OF commit]) (use False del new put in auto)
  with row have old: "bt_get (ms_messages s) (tenant, c') = Some row" by simp
  with inv have cid: "message_cid E (mr_message row) = Inr c'" by (simp add: rows_ok_def)
  with old sel have x: "mr_message row \<in> set existing"
    unfolding existing using record_row_selected [OF inv] by (auto simp: cid_key_def)
  have "c' \<in> set outranked" using applied_outranks_all(2) [OF planned x] cid by auto
  with retain_outranked_each [OF retained x cid] del obtain mu where "mu \<in> set retains"
    "set_encoded_data (mr_message row) None = Inr (lm_message mu)" by (auto split: if_splits)
  with set_encoded_data_cid [of "mr_message row" None "lm_message mu" E] cid False show ?thesis
    by (auto simp: cid_key_def)
qed

text \<open>What an accepted write did: it was prepared, its data was processed, one commit, and deletions.\<close>

lemma accepted_write_parts:
  assumes "records_write E D resolver tenant m descriptor supplied (s, d) = Some ((s', d'), WriteReply code None)"
  obtains prep stored latest s1 w pos where "prepare_write E resolver s tenant m = Some (Inr prep)"
    and "without_encoded_data stored = without_encoded_data m"
    and "write_checks E tenant stored latest prep s = Inr (s1, w, pos)"
    and "fewer_rows s1 s'"
  using assms
proof (cases rule: records_write_cases)
  case (admitted prep stored latest d1)
  from admitted(3) show ?thesis
  proof (cases rule: finish_write_cases)
    case (accepted s1 r)
    obtain w pos where r: "r = (w, pos)" by (rule prod.exhaust)
    have "fewer_rows s1 (fst (fst (after_commit E D tenant stored prep (wd_squash descriptor = Some True) (s1, d1))))"
      by (rule shrinking.after_commit_keeps) (simp add: fewer_rows_def)
    then have "fewer_rows s1 s'" using accepted(2) by simp
    with that admitted(1) process_data_stored [OF admitted(2)] accepted(1) r show ?thesis by simp
  qed simp_all
qed simp_all

text \<open>
  The rows of a record after an accepted write: its new state, and of what was there before only the
  initial write, as the author of the new state would have written it, without data.
\<close>

lemma accepted_write_rows:
  assumes inv: "rows_ok E s"
    and run: "records_write E D resolver tenant m descriptor supplied (s, d) = Some ((s', d'), WriteReply code None)"
  obtains auth ident c where "validate_authorization_signature E resolver m True = Inr (Some auth)"
    and "record_id m = Some ident" and "message_cid E m = Inr c"
    and "\<And>c' row. bt_get (ms_messages s') (tenant, c') = Some row \<Longrightarrow>
      selected E (record_filters ident) ''messageTimestamp'' row \<Longrightarrow> c' \<noteq> c \<Longrightarrow>
      \<exists>first. bt_get (ms_messages s) (tenant, c') = Some first
        \<and> is_initial_write E (mr_message first) (ac_author auth) = Inr True
        \<and> set_encoded_data (mr_message first) None = Inr (mr_message row)
        \<and> records_write_indexes E (mr_message row) (ac_author auth) False = Inr (mr_indexes row)"
proof -
  obtain prep stored latest s1 w pos where prep: "prepare_write E resolver s tenant m = Some (Inr prep)"
    and stored: "without_encoded_data stored = without_encoded_data m"
    and checks: "write_checks E tenant stored latest prep s = Inr (s1, w, pos)" and fewer: "fewer_rows s1 s'"
    by (rule accepted_write_parts [OF run])
  obtain ident c outranked where ident: "record_id m = Some ident"
    and existing: "pw_existing prep = map mr_message (query_rows E tenant (record_filters ident) None None s)"
    and planned: "plan_records_transition E m (pw_existing prep) = Inr (PlanApply c outranked)"
    and plan: "pw_plan prep = PlanApply c outranked"
    and auth: "validate_authorization_signature E resolver m True = Inr (Some (pw_auth prep))"
    by (rule prepare_write_facts [OF prep])
  obtain ix retains deletes where
    retained: "retain_outranked E (\<lambda>w. is_initial_write E w (ac_author (pw_auth prep)) = Inr True)
      (\<lambda>_. ac_author (pw_auth prep)) outranked (pw_existing prep) = Inr (retains, deletes)"
    and commit: "commit_latest_state E tenant \<lparr>lt_put = \<lparr>lm_message = stored, lm_indexes = ix\<rparr>,
      lt_retains = retains, lt_deletes = deletes\<rparr> s = Inr (s1, w, pos)"
    by (rule write_checks_committed [OF checks plan])
  have cid: "message_cid E m = Inr c" by (rule applied_outranks_all(1) [OF planned])
  then have put: "cid_key E (lm_message \<lparr>lm_message = stored, lm_indexes = ix\<rparr>) = c"
    using stored by (simp add: cid_key_def message_cid_def)
  show ?thesis
  proof (rule that [OF auth ident cid])
    fix c' row
    assume row: "bt_get (ms_messages s') (tenant, c') = Some row"
      and sel: "selected E (record_filters ident) ''messageTimestamp'' row" and new: "c' \<noteq> c"
    have "bt_get (ms_messages s1) (tenant, c') = Some row" using fewer row by (simp add: fewer_rows_def)
    from committed_record_rows [OF inv planned existing retained commit put this sel new]
    show "\<exists>first. bt_get (ms_messages s) (tenant, c') = Some first
        \<and> is_initial_write E (mr_message first) (ac_author (pw_auth prep)) = Inr True
        \<and> set_encoded_data (mr_message first) None = Inr (mr_message row)
        \<and> records_write_indexes E (mr_message row) (ac_author (pw_auth prep)) False = Inr (mr_indexes row)"
      by metis
  qed
qed

text \<open>What of the record is not retained is gone.\<close>

lemma accepted_write_removes:
  assumes inv: "rows_ok E s"
    and run: "records_write E D resolver tenant m descriptor supplied (s, d) = Some ((s', d'), WriteReply code None)"
  obtains auth ident where "validate_authorization_signature E resolver m True = Inr (Some auth)"
    and "record_id m = Some ident"
    and "\<And>c x. bt_get (ms_messages s) (tenant, c) = Some x \<Longrightarrow>
      selected E (record_filters ident) ''messageTimestamp'' x \<Longrightarrow>
      is_initial_write E (mr_message x) (ac_author auth) \<noteq> Inr True \<Longrightarrow> bt_get (ms_messages s') (tenant, c) = None"
proof -
  obtain prep stored latest s1 w pos where prep: "prepare_write E resolver s tenant m = Some (Inr prep)"
    and checks: "write_checks E tenant stored latest prep s = Inr (s1, w, pos)" and fewer: "fewer_rows s1 s'"
    by (rule accepted_write_parts [OF run])
  obtain ident c outranked where ident: "record_id m = Some ident"
    and existing: "pw_existing prep = map mr_message (query_rows E tenant (record_filters ident) None None s)"
    and planned: "plan_records_transition E m (pw_existing prep) = Inr (PlanApply c outranked)"
    and plan: "pw_plan prep = PlanApply c outranked"
    and auth: "validate_authorization_signature E resolver m True = Inr (Some (pw_auth prep))"
    by (rule prepare_write_facts [OF prep])
  obtain ix retains deletes where
    retained: "retain_outranked E (\<lambda>w. is_initial_write E w (ac_author (pw_auth prep)) = Inr True)
      (\<lambda>_. ac_author (pw_auth prep)) outranked (pw_existing prep) = Inr (retains, deletes)"
    and commit: "commit_latest_state E tenant \<lparr>lt_put = \<lparr>lm_message = stored, lm_indexes = ix\<rparr>,
      lt_retains = retains, lt_deletes = deletes\<rparr> s = Inr (s1, w, pos)"
    by (rule write_checks_committed [OF checks plan])
  show ?thesis
  proof (rule that [OF auth ident])
    fix c x
    assume x: "bt_get (ms_messages s) (tenant, c) = Some x" "selected E (record_filters ident) ''messageTimestamp'' x"
      "is_initial_write E (mr_message x) (ac_author (pw_auth prep)) \<noteq> Inr True"
    have cid: "message_cid E (mr_message x) = Inr c" using inv x(1) by (simp add: rows_ok_def)
    with x(1,2) have "mr_message x \<in> set (pw_existing prep)"
      unfolding existing using record_row_selected [OF inv] by (auto simp: cid_key_def)
    moreover from applied_outranks_all(2) [OF planned this] cid have "c \<in> set outranked" by auto
    ultimately have "c \<in> set deletes" using retain_outranked_each [OF retained _ cid] x(3) by simp
    then have "bt_get (ms_messages s1) (tenant, c) = None" using commit_rows(3) [OF commit, of c] by simp
    with fewer show "bt_get (ms_messages s') (tenant, c) = None"
      by (cases "bt_get (ms_messages s') (tenant, c)") (simp_all add: fewer_rows_def)
  qed
qed

section \<open>Concrete parameters\<close>

text \<open>
  Two more texts: the payload of a write with a delegated grant, which names the grant and the record,
  and the data of a grant to write records of a protocol. Data is its own encoding and its own CID.
\<close>

definition board_json :: "string \<Rightarrow> json option" where
  "board_json s =
     (case s of
        CHR ''m'' # rest \<Rightarrow>
          map_option (\<lambda>(grant, ident). JObject [(''descriptorCid'', JString ''bafyd''), (''recordId'', JString ident),
            (''contextId'', JString ident), (''delegatedGrantId'', JString grant)]) (split_once (CHR ''|'') rest)
      | CHR ''r'' # rest \<Rightarrow>
          Some (JObject [(''dateExpires'', JString ''@100''),
            (''scope'', JObject [(''interface'', JString ''Records''), (''method'', JString ''Write''),
               (''protocol'', JString rest)]),
            (''delegated'', JBool True)])
      | _ \<Rightarrow> plain_json s)"

definition plain_wext :: wext where
  "plain_wext = pext.extend (plain_pext\<lparr>json_of_bytes := (\<lambda>bytes. board_json (map (\<lambda>b. char_of (unat b)) bytes))\<rparr>)
     \<lparr>encode_base64url = map (\<lambda>b. char_of (unat b)), cid_of_data = map (\<lambda>b. char_of (unat b)),
      jwk_params = (\<lambda>_. ParamsEC), jwk_thumbprint = Some, jwk_of_json = (\<lambda>_. None), schema_accepts = (\<lambda>_ _. True)\<rparr>"

text \<open>A data store that holds nothing: the data of the examples is small enough to be kept in the message.\<close>

definition no_data :: "unit data_store_ops" where
  "no_data = \<lparr>ds_delete = (\<lambda>_ _ _ d. Inr d), ds_put = (\<lambda>_ _ _ bytes d. Inr (of_nat (length bytes), d)),
     ds_get = (\<lambda>_ _ _ _. Inr None)\<rparr>"

end
