(* ===== verification/Pruning.thy ===== *)
theory Pruning
  imports WriteEffects
begin

text \<open>
  Pruning, \<open>purge_record_descendants\<close> of \<open>handlers/records/common.rs\<close>: it ends when no record is a
  descendant of itself, and when it succeeds no descendant of the pruned record is left, at any depth.
  The argument is a rank of records that decreases from parents to children, and the invariant that
  rows disappear only together with everything below them.
\<close>

interpretation keeping: store_property E tenant "store_inv E" for E :: "'x wext_scheme" and tenant
  by unfold_locales (auto simp: store_delete_def intro: delete_preserves commit_preserves)

section \<open>Purging messages\<close>

text \<open>Only rows of the given messages disappear, and no row of them is left.\<close>

definition purged ::
  "'x mext_scheme \<Rightarrow> string \<Rightarrow> message set \<Rightarrow> memory_message_state \<Rightarrow> memory_message_state \<Rightarrow> bool" where
  "purged E tenant M s s' \<longleftrightarrow> (\<forall>k. bt_get (ms_messages s') k = bt_get (ms_messages s) k
     \<or> bt_get (ms_messages s') k = None \<and> k \<in> (\<lambda>m. (tenant, cid_key E m)) ` M)"

definition emptied :: "'x mext_scheme \<Rightarrow> string \<Rightarrow> message set \<Rightarrow> memory_message_state \<Rightarrow> bool" where
  "emptied E tenant M s \<longleftrightarrow> (\<forall>m \<in> M. bt_get (ms_messages s) (tenant, cid_key E m) = None)"

lemma purged_refl: "purged E tenant M s s"
  by (simp add: purged_def)

lemma purged_trans: "purged E tenant M s s1 \<Longrightarrow> purged E tenant M' s1 s2 \<Longrightarrow> purged E tenant (M \<union> M') s s2"
  unfolding purged_def by (metis UnI1 UnI2 image_Un)

lemma purged_mono: "purged E tenant M s s' \<Longrightarrow> M \<subseteq> M' \<Longrightarrow> purged E tenant M' s s'"
  unfolding purged_def by blast

lemma purged_fewer: "purged E tenant M s s' \<Longrightarrow> fewer_rows s s'"
  unfolding purged_def fewer_rows_def by (metis option.distinct(1))

lemma emptied_purged: "emptied E tenant M s \<Longrightarrow> purged E tenant M' s s' \<Longrightarrow> emptied E tenant M s'"
  unfolding emptied_def purged_def by metis

text \<open>A run that purges the messages of its arguments purges those of a list of arguments.\<close>

lemma run_each_purges:
  assumes "\<And>x st st' e. x \<in> set xs \<Longrightarrow> g x st = (st', e) \<Longrightarrow>
      purged E tenant (M x) (fst st) (fst st') \<and> (e = None \<longrightarrow> emptied E tenant (M x) (fst st'))"
    and "run_each g xs st = (st', e)"
  shows "purged E tenant (\<Union> (M ` set xs)) (fst st) (fst st') \<and> (e = None \<longrightarrow> emptied E tenant (\<Union> (M ` set xs)) (fst st'))"
  using assms
proof (induction xs arbitrary: st)
  case (Cons x xs)
  obtain st1 e1 where x: "g x st = (st1, e1)" by (rule prod.exhaust)
  with Cons.prems(1) [of x st st1 e1] have first: "purged E tenant (M x) (fst st) (fst st1)"
    "e1 = None \<longrightarrow> emptied E tenant (M x) (fst st1)" by auto
  show ?case
  proof (cases e1)
    case None
    with x Cons.prems(2) have "run_each g xs st1 = (st', e)" by simp
    with Cons.IH [of st1] Cons.prems(1) have rest: "purged E tenant (\<Union> (M ` set xs)) (fst st1) (fst st')"
      "e = None \<longrightarrow> emptied E tenant (\<Union> (M ` set xs)) (fst st')" by auto
    with first None purged_trans [OF first(1) rest(1)] emptied_purged [of E tenant "M x" "fst st1" _ "fst st'"]
    show ?thesis by (auto simp: emptied_def)
  next
    case (Some err)
    with x Cons.prems(2) have "st' = st1" "e = Some err" by simp_all
    with first(1) show ?thesis by (auto intro: purged_mono)
  qed
qed (simp add: purged_refl emptied_def)

lemma purge_message_purges:
  assumes "purge_message E tenant m st = (st', e)"
  shows "purged E tenant {m} (fst st) (fst st') \<and> (e = None \<longrightarrow> emptied E tenant {m} (fst st'))"
proof -
  obtain s d where st: "st = (s, d)" by (rule prod.exhaust)
  show ?thesis
  proof (cases "message_cid E m")
    case (Inl err)
    with assms st show ?thesis by (auto simp: purge_message_def purged_refl)
  next
    case (Inr c)
    show ?thesis
    proof (cases "store_delete E tenant c s")
      case (Inl err)
      with assms st Inr show ?thesis by (auto simp: purge_message_def purged_refl)
    next
      case ok: (Inr s1)
      with assms st Inr have "fst st' = s1" by (auto simp: purge_message_def)
      moreover have "bt_get (ms_messages s1) k = (if k = (tenant, c) then None else bt_get (ms_messages s) k)" for k
        using delete_look [of E tenant c s s1 k] ok by (simp add: store_delete_def)
      ultimately show ?thesis using st Inr by (simp add: purged_def emptied_def cid_key_def)
    qed
  qed
qed

lemma purge_record_messages_purges:
  assumes "purge_record_messages E D tenant ms st = (st', e)"
  shows "purged E tenant (set ms) (fst st) (fst st') \<and> (e = None \<longrightarrow> emptied E tenant (set ms) (fst st'))"
proof -
  let ?data = "case newest_message E (filter (\<lambda>m. is_ok (records_write_descriptor m)) ms) of
          None \<Rightarrow> (st, None)
        | Some newest \<Rightarrow>
            (case (record_id newest, records_write_descriptor newest) of
               (Some ident, Inr w) \<Rightarrow> on_data (ds_delete D tenant ident (wd_data_cid w)) st
             | _ \<Rightarrow> (st, None))"
  obtain st1 e1 where data: "?data = (st1, e1)" by (rule prod.exhaust)
  have "fst (fst ?data) = fst st" by (simp split: option.split sum.split)
  with data have same: "fst st1 = fst st" by simp
  show ?thesis
  proof (cases e1)
    case None
    with assms data have "run_each (purge_message E tenant) ms st1 = (st', e)"
      by (simp add: purge_record_messages_def)
    then have "purged E tenant (\<Union> ((\<lambda>m. {m}) ` set ms)) (fst st1) (fst st')
        \<and> (e = None \<longrightarrow> emptied E tenant (\<Union> ((\<lambda>m. {m}) ` set ms)) (fst st'))"
      by (rule run_each_purges [rotated]) (rule purge_message_purges)
    with same show ?thesis by simp
  next
    case (Some err)
    with assms data have "st' = st1" "e = Some err" by (simp_all add: purge_record_messages_def)
    with same show ?thesis by (simp add: purged_refl)
  qed
qed

section \<open>Records below a record\<close>

definition is_child_row :: "'x mext_scheme \<Rightarrow> string \<Rightarrow> message_row \<Rightarrow> bool" where
  "is_child_row E x row = selected E (children_filters x) ''messageTimestamp'' row"

definition child_of :: "'x mext_scheme \<Rightarrow> string \<Rightarrow> memory_message_state \<Rightarrow> string \<Rightarrow> string \<Rightarrow> bool" where
  "child_of E tenant s x y \<longleftrightarrow> (\<exists>c row. bt_get (ms_messages s) (tenant, c) = Some row \<and> is_child_row E x row
     \<and> message_record_id (mr_message row) = Some y)"

definition childless :: "'x mext_scheme \<Rightarrow> string \<Rightarrow> memory_message_state \<Rightarrow> string \<Rightarrow> bool" where
  "childless E tenant s x \<longleftrightarrow> (\<forall>c row. bt_get (ms_messages s) (tenant, c) = Some row \<longrightarrow> \<not> is_child_row E x row)"

text \<open>Nothing of what was below \<open>x\<close> in \<open>s\<close> is left in \<open>s'\<close>.\<close>

definition cleared :: "'x mext_scheme \<Rightarrow> string \<Rightarrow> memory_message_state \<Rightarrow> memory_message_state \<Rightarrow> string \<Rightarrow> bool" where
  "cleared E tenant s s' x \<longleftrightarrow> (\<forall>y. (child_of E tenant s)\<^sup>*\<^sup>* x y \<longrightarrow> childless E tenant s' y)"

text \<open>Rows of the tenant disappear only together with everything below them.\<close>

definition closed_removal :: "'x mext_scheme \<Rightarrow> string \<Rightarrow> memory_message_state \<Rightarrow> memory_message_state \<Rightarrow> bool" where
  "closed_removal E tenant s s' \<longleftrightarrow> (\<forall>c row y. bt_get (ms_messages s) (tenant, c) = Some row \<longrightarrow>
     bt_get (ms_messages s') (tenant, c) = None \<longrightarrow> message_record_id (mr_message row) = Some y \<longrightarrow>
     cleared E tenant s s' y)"

text \<open>Children have a record, of a lower rank.\<close>

definition ranked :: "'x mext_scheme \<Rightarrow> string \<Rightarrow> (string \<Rightarrow> nat) \<Rightarrow> memory_message_state \<Rightarrow> bool" where
  "ranked E tenant rank s \<longleftrightarrow> (\<forall>x c row. bt_get (ms_messages s) (tenant, c) = Some row \<longrightarrow> is_child_row E x row \<longrightarrow>
     (\<exists>y. message_record_id (mr_message row) = Some y \<and> rank y < rank x))"

lemma fewer_rows_refl: "fewer_rows s s"
  by (simp add: fewer_rows_def)

lemma fewer_rows_trans: "fewer_rows s s1 \<Longrightarrow> fewer_rows s1 s2 \<Longrightarrow> fewer_rows s s2"
  by (simp add: fewer_rows_def)

lemma fewer_rows_gone: "fewer_rows s s' \<Longrightarrow> bt_get (ms_messages s) k = None \<Longrightarrow> bt_get (ms_messages s') k = None"
  unfolding fewer_rows_def by (metis not_None_eq)

lemma ranked_fewer: "ranked E tenant rank s \<Longrightarrow> fewer_rows s s' \<Longrightarrow> ranked E tenant rank s'"
  unfolding ranked_def fewer_rows_def by blast

lemma childless_fewer: "childless E tenant s x \<Longrightarrow> fewer_rows s s' \<Longrightarrow> childless E tenant s' x"
  unfolding childless_def fewer_rows_def by blast

lemma cleared_fewer: "cleared E tenant s s1 x \<Longrightarrow> fewer_rows s1 s2 \<Longrightarrow> cleared E tenant s s2 x"
  unfolding cleared_def by (blast intro: childless_fewer)

lemma cleared_below: "cleared E tenant s s' x \<Longrightarrow> child_of E tenant s x z \<Longrightarrow> cleared E tenant s s' z"
  unfolding cleared_def by (meson converse_rtranclp_into_rtranclp)

text \<open>
  What is cleared after some rows were removed is cleared before: a path that was cut led through a
  row that disappeared, and everything below it disappeared with it.
\<close>

lemma cleared_before:
  assumes fewer: "fewer_rows s s1" "fewer_rows s1 s2" and closed: "closed_removal E tenant s s1"
    and cleared: "cleared E tenant s1 s2 x"
  shows "cleared E tenant s s2 x"
  unfolding cleared_def
proof (intro allI impI)
  fix y
  assume "(child_of E tenant s)\<^sup>*\<^sup>* x y"
  then show "childless E tenant s2 y" using cleared
  proof (induction rule: converse_rtranclp_induct)
    case base
    then show ?case by (simp add: cleared_def)
  next
    case (step x z)
    from step(1) obtain c row where row: "bt_get (ms_messages s) (tenant, c) = Some row" "is_child_row E x row"
      "message_record_id (mr_message row) = Some z" by (auto simp: child_of_def)
    show ?case
    proof (cases "bt_get (ms_messages s1) (tenant, c)")
      case None
      with closed row have "cleared E tenant s s1 z" unfolding closed_removal_def by blast
      with step(2) have "childless E tenant s1 y" by (simp add: cleared_def)
      then show ?thesis using fewer(2) by (rule childless_fewer)
    next
      case (Some row1)
      with fewer(1) row(1) have "row1 = row" unfolding fewer_rows_def by (metis option.inject)
      with Some row have "child_of E tenant s1 x z" by (auto simp: child_of_def)
      with step.prems have "cleared E tenant s1 s2 z" by (rule cleared_below)
      with step.IH show ?thesis by blast
    qed
  qed
qed

lemma closed_removal_trans:
  assumes fewer: "fewer_rows s s1" "fewer_rows s1 s2"
    and closed: "closed_removal E tenant s s1" "closed_removal E tenant s1 s2"
  shows "closed_removal E tenant s s2"
  unfolding closed_removal_def
proof (intro allI impI)
  fix c row y
  assume row: "bt_get (ms_messages s) (tenant, c) = Some row" "bt_get (ms_messages s2) (tenant, c) = None"
    "message_record_id (mr_message row) = Some y"
  show "cleared E tenant s s2 y"
  proof (cases "bt_get (ms_messages s1) (tenant, c)")
    case None
    with closed(1) row have "cleared E tenant s s1 y" unfolding closed_removal_def by blast
    then show ?thesis using fewer(2) by (rule cleared_fewer)
  next
    case (Some row1)
    with fewer(1) row(1) have "row1 = row" unfolding fewer_rows_def by (metis option.inject)
    with Some closed(2) row have "cleared E tenant s1 s2 y" unfolding closed_removal_def by blast
    then show ?thesis by (rule cleared_before [OF fewer closed(1)])
  qed
qed

section \<open>The loop\<close>

lemma group_step:
  "group_by_record (ms @ [m]) = (case message_record_id m of
     None \<Rightarrow> group_by_record ms
   | Some ident \<Rightarrow> bt_insert ident (bt_get_or [] (group_by_record ms) ident @ [m]) (group_by_record ms))"
  unfolding group_by_record_def by simp

lemma group_by_record_sorted: "bt_sorted (group_by_record ms)"
  by (induction ms rule: rev_induct) (auto simp: group_step split: option.split, simp add: group_by_record_def)

lemma group_by_record_get:
  "bt_get_or [] (group_by_record ms) y = filter (\<lambda>m. message_record_id m = Some y) ms"
proof (induction ms rule: rev_induct)
  case (snoc m ms)
  then show ?case by (auto simp: group_step bt_get_or_def bt_get_insert split: option.splits)
qed (simp add: group_by_record_def bt_get_or_def)

lemma group_by_record_keys:
  "y \<in> fst ` set (group_by_record ms) \<longleftrightarrow> (\<exists>m \<in> set ms. message_record_id m = Some y)"
proof (induction ms rule: rev_induct)
  case (snoc m ms)
  have keys: "fst ` set (bt_insert k v g) = insert k (fst ` set g)" for k and v :: "message list" and g
    using set_keys_insert [of k v g] by simp
  show ?case
  proof (cases "message_record_id m")
    case None
    with snoc show ?thesis by (simp add: group_step)
  next
    case (Some ident)
    with snoc show ?thesis by (auto simp only: group_step option.case keys set_append list.set Un_iff insert_iff)
  qed
qed (simp add: group_by_record_def)

lemma group_by_record_messages:
  "\<Union> (set ` set (map snd (group_by_record ms))) = {m \<in> set ms. message_record_id m \<noteq> None}"
proof -
  have "g = filter (\<lambda>m. message_record_id m = Some y) ms" if "(y, g) \<in> set (group_by_record ms)" for y g
    using that group_by_record_get [of ms y] bt_get_iff_in [OF group_by_record_sorted, of ms y g]
    by (simp add: bt_get_or_def)
  then have "(\<exists>p \<in> set (group_by_record ms). m \<in> set (snd p)) \<longleftrightarrow> m \<in> set ms \<and> message_record_id m \<noteq> None" for m
    using group_by_record_keys [of _ ms] by (force simp: image_iff)
  then show ?thesis by auto
qed

lemma child_found:
  assumes "store_inv E s" and "bt_get (ms_messages s) (tenant, c) = Some row"
  shows "is_child_row E x row \<longleftrightarrow> mr_message row \<in> set (map mr_message (query_rows E tenant (children_filters x) None None s))"
proof -
  have "cid_key E (mr_message row) = c"
    using store_invD(1) [OF assms(1)] assms(2) by (simp add: rows_ok_def cid_key_def)
  with record_row_selected [OF store_invD(1) [OF assms(1)], of "mr_message row" tenant "children_filters x"] assms(2)
  show ?thesis by (auto simp: is_child_row_def)
qed

text \<open>One record: once everything below its children is cleared, its children are removed.\<close>

lemma purge_children:
  assumes inv: "store_inv E s" and rank: "ranked E tenant rank s"
    and found: "found = map mr_message (query_rows E tenant (children_filters x) None None s)"
    and below: "fewer_rows s s1" "closed_removal E tenant s s1"
      "\<forall>y \<in> fst ` set (group_by_record found). cleared E tenant s s1 y"
    and run: "purged E tenant {m \<in> set found. message_record_id m \<noteq> None} s1 s2"
      "emptied E tenant {m \<in> set found. message_record_id m \<noteq> None} s2"
  shows "closed_removal E tenant s s2 \<and> cleared E tenant s s2 x"
proof
  have fewer: "fewer_rows s1 s2" by (rule purged_fewer [OF run(1)])
  have kid: "cleared E tenant s s2 y" if "m \<in> set found" "message_record_id m = Some y" for m y
    using that below(3) fewer group_by_record_keys cleared_fewer by metis
  show "closed_removal E tenant s s2"
    unfolding closed_removal_def
  proof (intro allI impI)
    fix c row y
    assume row: "bt_get (ms_messages s) (tenant, c) = Some row" "bt_get (ms_messages s2) (tenant, c) = None"
      "message_record_id (mr_message row) = Some y"
    show "cleared E tenant s s2 y"
    proof (cases "bt_get (ms_messages s1) (tenant, c)")
      case None
      with below(2) row have "cleared E tenant s s1 y" unfolding closed_removal_def by blast
      then show ?thesis using fewer by (rule cleared_fewer)
    next
      case (Some row1)
      with run(1) row(2) obtain m where m: "m \<in> set found" "c = cid_key E m" unfolding purged_def
        by (metis (no_types, lifting) Pair_inject imageE mem_Collect_eq option.distinct(1))
      from m record_row_selected [OF store_invD(1) [OF inv], of m tenant "children_filters x"] row(1) found
      have "mr_message row = m" by auto
      with m row(3) kid show ?thesis by blast
    qed
  qed
  show "cleared E tenant s s2 x"
    unfolding cleared_def
  proof (intro allI impI)
    fix y
    assume "(child_of E tenant s)\<^sup>*\<^sup>* x y"
    then show "childless E tenant s2 y"
    proof (cases rule: converse_rtranclpE)
      case base
      have "\<not> is_child_row E x row" if row: "bt_get (ms_messages s2) (tenant, c) = Some row" for c row
      proof
        assume child: "is_child_row E x row"
        have old: "bt_get (ms_messages s) (tenant, c) = Some row"
          using row fewer below(1) by (simp add: fewer_rows_def)
        then have "mr_message row \<in> set found" using child child_found [OF inv old] found by simp
        moreover have "message_record_id (mr_message row) \<noteq> None" using rank old child unfolding ranked_def by blast
        moreover have "cid_key E (mr_message row) = c"
          using store_invD(1) [OF inv] old by (simp add: rows_ok_def cid_key_def)
        ultimately show False using run(2) row by (auto simp: emptied_def)
      qed
      with base show ?thesis by (simp add: childless_def)
    next
      case (step z)
      from step(1) obtain c row where "bt_get (ms_messages s) (tenant, c) = Some row" "is_child_row E x row"
        "message_record_id (mr_message row) = Some z" by (auto simp: child_of_def)
      with child_found [OF inv] found kid have "cleared E tenant s s2 z" by blast
      with step(2) show ?thesis by (simp add: cleared_def)
    qed
  qed
qed

text \<open>The outcome of purging below some records: it ended, and if it succeeded everything is cleared.\<close>

definition purge_outcome ::
  "'x mext_scheme \<Rightarrow> string \<Rightarrow> string list \<Rightarrow> memory_message_state \<Rightarrow> 'd effect option \<Rightarrow> bool" where
  "purge_outcome E tenant idents s r \<longleftrightarrow> (\<exists>s' d' e. r = Some ((s', d'), e) \<and> fewer_rows s s' \<and> store_inv E s'
     \<and> (e = None \<longrightarrow> closed_removal E tenant s s' \<and> (\<forall>x \<in> set idents. cleared E tenant s s' x)))"

lemma purge_outcome_Cons:
  assumes "fewer_rows s s2" and "closed_removal E tenant s s2" and "cleared E tenant s s2 x"
    and "purge_outcome E tenant xs s2 r"
  shows "purge_outcome E tenant (x # xs) s r"
proof -
  obtain s' d' e where r: "r = Some ((s', d'), e)" "fewer_rows s2 s'" "store_inv E s'"
    "e = None \<longrightarrow> closed_removal E tenant s2 s' \<and> (\<forall>x \<in> set xs. cleared E tenant s2 s' x)"
    using assms(4) by (auto simp: purge_outcome_def)
  moreover have "fewer_rows s s'" using assms(1) r(2) by (rule fewer_rows_trans)
  moreover have "cleared E tenant s s' x" using assms(3) r(2) by (rule cleared_fewer)
  ultimately show ?thesis
    unfolding purge_outcome_def
    using closed_removal_trans [OF assms(1) r(2) assms(2)] cleared_before [OF assms(1) r(2) assms(2)] by auto
qed

text \<open>Removing the children of a record, after the run below them.\<close>

lemma purge_groups:
  fixes E :: "'x wext_scheme"
  assumes "run_each (purge_record_messages E D tenant) (map snd (group_by_record found)) (s1, d1) = ((s2, d2), e)"
    and "store_inv E s1"
  shows "purged E tenant {m \<in> set found. message_record_id m \<noteq> None} s1 s2"
    and "e = None \<Longrightarrow> emptied E tenant {m \<in> set found. message_record_id m \<noteq> None} s2"
    and "store_inv E s2"
proof -
  have "purged E tenant (\<Union> (set ` set (map snd (group_by_record found)))) (fst (s1, d1)) (fst (s2, d2))
      \<and> (e = None \<longrightarrow> emptied E tenant (\<Union> (set ` set (map snd (group_by_record found)))) (fst (s2, d2)))"
    using assms(1) by (rule run_each_purges [rotated]) (rule purge_record_messages_purges)
  then show "purged E tenant {m \<in> set found. message_record_id m \<noteq> None} s1 s2"
    and "e = None \<Longrightarrow> emptied E tenant {m \<in> set found. message_record_id m \<noteq> None} s2"
    by (simp_all only: group_by_record_messages fst_conv)
  have "store_inv E (fst (fst (run_each (purge_record_messages E D tenant) (map snd (group_by_record found)) (s1, d1))))"
    by (rule run_each_keeps) (simp_all add: assms(2) keeping.purge_record_messages_keeps)
  with assms(1) show "store_inv E s2" by simp
qed

lemma children_rank:
  assumes "store_inv E s" and "ranked E tenant rank s"
    and "y \<in> set (map fst (group_by_record (map mr_message (query_rows E tenant (children_filters x) None None s))))"
  shows "rank y < rank x"
proof -
  obtain m where m: "m \<in> set (map mr_message (query_rows E tenant (children_filters x) None None s))"
    "message_record_id m = Some y" using assms(3) group_by_record_keys by (metis set_map)
  then obtain row where "bt_get (ms_messages s) (tenant, cid_key E m) = Some row" "mr_message row = m" "is_child_row E x row"
    using record_row_selected [OF store_invD(1) [OF assms(1)]] unfolding is_child_row_def by blast
  with assms(2) m(2) show ?thesis unfolding ranked_def by fastforce
qed

lemma purge_descendants_outcome:
  fixes E :: "'x wext_scheme"
  shows "store_inv E (fst st) \<Longrightarrow> ranked E tenant rank (fst st) \<Longrightarrow> \<forall>x \<in> set idents. rank x < n \<Longrightarrow>
    purge_outcome E tenant idents (fst st) (purge_descendants E D tenant idents st)"
proof (induction n arbitrary: idents st rule: less_induct)
  case (less n)
  note outer = less.IH
  from less.prems show ?case
  proof (induction idents arbitrary: st)
    case Nil
    obtain s d where st: "st = (s, d)" by (rule prod.exhaust)
    have "closed_removal E tenant s s" by (simp add: closed_removal_def)
    with Nil st show ?case
      by (subst purge_descendants.simps) (auto simp: purge_outcome_def fewer_rows_refl)
  next
    case (Cons x xs)
    obtain s d where st: "st = (s, d)" by (rule prod.exhaust)
    define found where "found = map mr_message (query_rows E tenant (children_filters x) None None s)"
    have inv: "store_inv E s" and rank: "ranked E tenant rank s" using Cons.prems st by simp_all
    have "\<forall>y \<in> set (map fst (group_by_record found)). rank y < rank x"
      using children_rank [OF inv rank] found_def by simp
    with outer [of "rank x" st "map fst (group_by_record found)"] Cons.prems
    have "purge_outcome E tenant (map fst (group_by_record found)) s
      (purge_descendants E D tenant (map fst (group_by_record found)) st)" using st by simp
    then obtain s1 d1 e1 where run1: "purge_descendants E D tenant (map fst (group_by_record found)) st = Some ((s1, d1), e1)"
      and below: "fewer_rows s s1" "store_inv E s1"
        "e1 = None \<longrightarrow> closed_removal E tenant s s1 \<and> (\<forall>y \<in> fst ` set (group_by_record found). cleared E tenant s s1 y)"
      by (auto simp: purge_outcome_def)
    obtain s2 d2 e2 where run2: "run_each (purge_record_messages E D tenant) (map snd (group_by_record found)) (s1, d1) = ((s2, d2), e2)"
      by (metis prod.exhaust)
    note groups = purge_groups [OF run2 below(2)]
    have fewer: "fewer_rows s s2" by (rule fewer_rows_trans [OF below(1) purged_fewer [OF groups(1)]])
    have unfold: "purge_descendants E D tenant (x # xs) st =
      (case e1 of Some e \<Rightarrow> Some ((s1, d1), Some e)
       | None \<Rightarrow> (case e2 of Some e \<Rightarrow> Some ((s2, d2), Some e) | None \<Rightarrow> purge_descendants E D tenant xs (s2, d2)))"
      using run1 run2 by (subst purge_descendants.simps) (simp add: st query_without_page found_def split: option.split)
    show ?case
    proof (cases "e1 = None \<and> e2 = None")
      case True
      with purge_children [OF inv rank found_def below(1) _ _ groups(1)] groups(2) below(3)
      have "closed_removal E tenant s s2" "cleared E tenant s s2 x" by auto
      moreover have "purge_outcome E tenant xs s2 (purge_descendants E D tenant xs (s2, d2))"
        using Cons.IH [of "(s2, d2)"] Cons.prems groups(3) ranked_fewer [OF rank fewer] by simp
      ultimately show ?thesis using purge_outcome_Cons [OF fewer] True unfold st by simp
    next
      case False
      then show ?thesis using unfold st below(1,2) fewer groups(3) by (auto simp: purge_outcome_def split: option.splits)
    qed
  qed
qed

section \<open>Properties\<close>

text \<open>
  C10: pruning is complete. Where every record below another has a lower rank, so that no record is
  below itself, purging the descendants of a record ends; and when it ends without an error, no message
  of a child is left of the record or of anything that was below it, however deep.
\<close>

theorem prune_removes_descendants:
  fixes E :: "'x wext_scheme"
  assumes "store_inv E s"
    and "\<forall>x c row. bt_get (ms_messages s) (tenant, c) = Some row \<and> selected E (children_filters x) ''messageTimestamp'' row
      \<longrightarrow> (\<exists>y. message_record_id (mr_message row) = Some y \<and> rank y < (rank x :: nat))"
  shows "\<exists>s' d' failed. purge_record_descendants E D tenant ident (s, d) = Some ((s', d'), failed)
    \<and> (failed = None \<longrightarrow> (\<forall>x c row. (child_of E tenant s)\<^sup>*\<^sup>* ident x \<and> bt_get (ms_messages s') (tenant, c) = Some row
          \<longrightarrow> \<not> selected E (children_filters x) ''messageTimestamp'' row))"
proof -
  have "ranked E tenant rank s" using assms(2) by (simp add: ranked_def is_child_row_def)
  then have "purge_outcome E tenant [ident] s (purge_record_descendants E D tenant ident (s, d))"
    using purge_descendants_outcome [of E "(s, d)" tenant rank "[ident]" "Suc (rank ident)"] assms(1)
    by (simp add: purge_record_descendants_def)
  then show ?thesis
    by (auto simp: purge_outcome_def cleared_def childless_def is_child_row_def)
qed

section \<open>Example\<close>

declare purge_descendants.simps [code]

text \<open>A post of Alice's, a reply to it, and a reply to the reply.\<close>

definition thread_message :: "string \<Rightarrow> string option \<Rightarrow> instant \<Rightarrow> message" where
  "thread_message ident parent at =
     \<lparr>msg_descriptor = DescriptorRecords (RecordsWrite
        \<lparr>wd_protocol = ''http://board'', wd_protocol_path = ''post'', wd_recipient = None, wd_schema = None, wd_tags = None,
         wd_parent_id = parent, wd_data_cid = ''text'', wd_data_size = 4, wd_date_created = at, wd_message_timestamp = at,
         wd_published = None, wd_date_published = None, wd_data_format = ''text'', wd_permission_grant_id = None, wd_squash = None\<rparr>),
      msg_fields = FieldsWrite (WriteFields authorization_default (Some ident) (Some ident) None None None)\<rparr>"

definition put_thread :: "message \<Rightarrow> memory_message_state \<Rightarrow> memory_message_state" where
  "put_thread m s =
     (case records_write_indexes plain_wext m ''did:alice'' True of
        Inl _ \<Rightarrow> s | Inr ix \<Rightarrow> try_put plain_wext ''did:alice'' m ix s)"

definition thread_store :: memory_message_state where
  "thread_store =
     put_thread (thread_message ''R2'' (Some ''R1'') 7) (put_thread (thread_message ''R1'' (Some ''P'') 6)
       (put_thread (thread_message ''P'' None 5) (store_open ''epoch'' memory_message_state_default)))"

definition thread_rank :: "string \<Rightarrow> nat" where
  "thread_rank x = (if x = ''P'' then 2 else if x = ''R1'' then 1 else 0)"

lemma thread_store_inv: "store_inv plain_wext thread_store"
proof -
  have put: "store_reachable plain_wext s \<Longrightarrow> store_reachable plain_wext (put_thread m s)" for m s
    by (simp add: put_thread_def reach_try_put split: sum.split)
  have "store_reachable plain_wext (store_open ''epoch'' memory_message_state_default)"
    by (rule reach_step [OF reach_start step_open])
  then show ?thesis unfolding thread_store_def by (intro reachable_inv put)
qed

definition below_parent :: "message_row \<Rightarrow> bool" where
  "below_parent row =
     (case bt_get (mr_indexes row) ''parentId'' of
        None \<Rightarrow> True
      | Some (VString x) \<Rightarrow>
          (case message_record_id (mr_message row) of None \<Rightarrow> False | Some y \<Rightarrow> thread_rank y < thread_rank x)
      | _ \<Rightarrow> False)"

lemma thread_facts:
  "(\<forall>row \<in> set (tenant_rows thread_store ''did:alice''). below_parent row)
   \<and> list_ex (\<lambda>row. selected plain_wext (children_filters ''P'') ''messageTimestamp'' row
        \<and> message_record_id (mr_message row) = Some ''R1'') (tenant_rows thread_store ''did:alice'')
   \<and> (case purge_record_descendants plain_wext no_data ''did:alice'' ''P'' (thread_store, ()) of
        Some (_, None) \<Rightarrow> True | _ \<Rightarrow> False)"
  by code_simp

theorem prune_removes_descendants_witness:
  "\<exists>s' d'. purge_record_descendants plain_wext no_data ''did:alice'' ''P'' (thread_store, ()) = Some ((s', d'), None)
     \<and> (\<forall>c row. bt_get (ms_messages s') (''did:alice'', c) = Some row \<longrightarrow>
          \<not> selected plain_wext (children_filters ''R1'') ''messageTimestamp'' row)"
proof -
  have ranks: "\<exists>y. message_record_id (mr_message row) = Some y \<and> thread_rank y < thread_rank x"
    if row: "bt_get (ms_messages thread_store) (''did:alice'', c) = Some row"
      and child: "selected plain_wext (children_filters x) ''messageTimestamp'' row" for x c row
  proof -
    have "row \<in> set (tenant_rows thread_store ''did:alice'')" using row by (auto simp: in_tenant_rows dest: bt_get_SomeD)
    then have "below_parent row" using thread_facts by blast
    moreover have "matches_set plain_wext (mr_indexes row)
        (filter_map [(''interface'', string_filter ''Records''), (''parentId'', string_filter x)])"
      using child by (simp add: selected_def matches_filters_def children_filters_def)
    then obtain v where "bt_get (mr_indexes row) ''parentId'' = Some v" "matches_filter plain_wext v (string_filter x)"
      by (subst (asm) matches_filter_map) auto
    ultimately show ?thesis by (cases v) (auto simp: below_parent_def split: option.splits)
  qed
  obtain row where row: "row \<in> set (tenant_rows thread_store ''did:alice'')"
    "is_child_row plain_wext ''P'' row" "message_record_id (mr_message row) = Some ''R1''"
    using thread_facts by (auto simp: list_ex_iff is_child_row_def)
  then have "(child_of plain_wext ''did:alice'' thread_store)\<^sup>*\<^sup>* ''P'' ''R1''"
    using row_of_key [OF store_invD(1) [OF thread_store_inv]] by (intro r_into_rtranclp) (auto simp: child_of_def)
  moreover have "\<forall>x c row. bt_get (ms_messages thread_store) (''did:alice'', c) = Some row
      \<and> selected plain_wext (children_filters x) ''messageTimestamp'' row
      \<longrightarrow> (\<exists>y. message_record_id (mr_message row) = Some y \<and> thread_rank y < thread_rank x)"
    using ranks by blast
  note prune_removes_descendants [OF thread_store_inv this, of no_data "''P''" "()"]
  ultimately show ?thesis using thread_facts by (auto split: option.splits)
qed

end
