(* ===== verification/WriteProperties.thy ===== *)
theory WriteProperties
  imports Pruning
begin

text \<open>
  Properties of the handlers of RecordsWrite and RecordsDelete: what a refused request leaves behind,
  who may write, which messages of a record an accepted write or delete keeps, what a prune removes,
  and that nothing a handler does reaches another tenant or breaks the store. Two theorems record
  where the handlers fall short of their intent: an update by someone other than the creator drops
  the initial write, and a delegated grant is never checked against the node it is used on.
\<close>

section \<open>Refusals\<close>

text \<open>
  C11: a refused request changes nothing. A write that is refused with anything but an internal error
  leaves the message store as it was, and a refused delete leaves the data store as it was, too.
\<close>

theorem refused_requests_change_nothing:
  assumes "reply_refusal reply \<noteq> None" and "reply_code reply \<noteq> 500"
  shows "(records_write E D resolver tenant m descriptor supplied st = Some (st', reply) \<longrightarrow> fst st' = fst st)
    \<and> (records_delete E D resolver tenant m removal st = Some (st', reply) \<longrightarrow> st' = st)"
proof (intro conjI impI)
  show "fst st' = fst st" if "records_write E D resolver tenant m descriptor supplied st = Some (st', reply)"
    using that
  proof (cases rule: records_write_cases)
    case (admitted prep stored latest d)
    from admitted(3) show ?thesis by (cases rule: finish_write_cases) (use assms in simp_all)
  qed simp_all
  show "st' = st" if "records_delete E D resolver tenant m removal st = Some (st', reply)"
    using that by (cases rule: records_delete_cases) (use assms in \<open>auto split: option.splits\<close>)
qed

section \<open>Authority\<close>

text \<open>
  C6: who may write. An accepted write carries a valid signature whose payload names its record, it
  satisfies the protocol in force, and its author is the tenant, or the tenant granted the author the
  write, or the protocol allows it to the author, or the author delegated the write to its signer;
  control records have rules of their own. An accepted write is the initial write of its record by its
  author, or it changes no immutable property of the stored initial write.
\<close>

theorem accepted_write_is_authorized:
  assumes run: "records_write E D resolver tenant m descriptor supplied (s, d) = Some (st', WriteReply code None)"
  shows "\<exists>auth. validate_authorization_signature E resolver m True = Inr (Some auth)
    \<and> validate_records_write_integrity E m auth = Inr ()
    \<and> validate_referential_integrity E s tenant m (ac_author auth) = Inr ()
    \<and> (control_kind_of m \<noteq> None \<or> ac_author auth = tenant
       \<or> (\<exists>g. ac_author_delegated_grant auth = Some g
            \<and> is_ok (authorize_records_write_with_grant E s m (ac_author auth) (ac_signer auth) g))
       \<or> (\<exists>ident g. ac_permission_grant_id auth = Some ident \<and> fetch_grant E s tenant ident = Inr g
            \<and> is_ok (authorize_records_write_with_grant E s m tenant (ac_author auth) g))
       \<or> authorize_against_protocol E s tenant m auth AuthWrite None = Some (Inr ()))
    \<and> (is_initial_write E m (ac_author auth) = Inr True
       \<or> (\<exists>ident first. record_id m = Some ident
            \<and> find_initial_write E (map mr_message (query_rows E tenant (record_filters ident) None None s)) = Some first
            \<and> verify_immutable_properties first m = Inr ()))"
proof -
  obtain s' d' where st': "st' = (s', d')" by (rule prod.exhaust)
  obtain prep stored latest s1 w pos where prep: "prepare_write E resolver s tenant m = Some (Inr prep)"
    by (rule accepted_write_parts [OF run [unfolded st']])
  let ?auth = "pw_auth prep"
  obtain ident c outranked where ident: "record_id m = Some ident"
    and existing: "pw_existing prep = map mr_message (query_rows E tenant (record_filters ident) None None s)"
    and auth: "validate_authorization_signature E resolver m True = Inr (Some ?auth)"
      "validate_records_write_integrity E m ?auth = Inr ()"
      "validate_referential_integrity E s tenant m (ac_author ?auth) = Inr ()"
    and authorized: "authorize_records_write E s tenant m ?auth = Some (Inr ())"
    and initial: "check_initial_write E m ?auth (pw_existing prep) = Inr (pw_initial prep)"
    by (rule prepare_write_facts [OF prep])
  from authorized have "control_kind_of m \<noteq> None \<or> ac_author ?auth = tenant
       \<or> (\<exists>g. ac_author_delegated_grant ?auth = Some g
            \<and> is_ok (authorize_records_write_with_grant E s m (ac_author ?auth) (ac_signer ?auth) g))
       \<or> (\<exists>ident g. ac_permission_grant_id ?auth = Some ident \<and> fetch_grant E s tenant ident = Inr g
            \<and> is_ok (authorize_records_write_with_grant E s m tenant (ac_author ?auth) g))
       \<or> authorize_against_protocol E s tenant m ?auth AuthWrite None = Some (Inr ())"
    by (auto simp: authorize_records_write_def authorize_delegated_records_write_def
        authorize_records_write_with_grant_id_def rbind_Inr_iff
        split: option.splits sum.splits if_splits bool.splits)
  moreover from initial have "is_initial_write E m (ac_author ?auth) = Inr True
      \<or> (\<exists>first. find_initial_write E (pw_existing prep) = Some first \<and> verify_immutable_properties first m = Inr ())"
    by (auto simp: check_initial_write_def rbind_Inr_iff split: if_splits)
  ultimately show ?thesis using auth ident existing by (intro exI [of _ ?auth]) auto
qed

text \<open>
  C12: a delegated grant is not checked against the node it is used on. For a request signed under an
  embedded delegated grant, the decision to write, delete, read or query is the same on every tenant's
  node: it asks whether the author granted the signer such a request, and never whether the author may
  do it here. Whoever issues themselves a delegated grant for a second DID is let in everywhere.
\<close>

theorem delegated_requests_ignore_the_node:
  assumes "ac_author_delegated_grant auth = Some g"
  shows "(authorize_records_write_with_grant E s m (ac_author auth) (ac_signer auth) g = Inr () \<and> control_kind_of m = None
        \<longrightarrow> authorize_records_write E s tenant m auth = Some (Inr ()))
    \<and> (perform_base_validation E s m (ac_author auth) (ac_signer auth) g = Inr ()
          \<and> verify_records_scope first (gr_scope g) = Inr () \<and> is_ok (describe_write first)
        \<longrightarrow> authorize_records_delete E s tenant m first auth = Some (Inr ())
          \<and> authorize_records_read E s tenant m (Some auth) first = Some (Inr ()))
    \<and> authorize_records_query_or_subscribe_with_grant E s tenant m f auth
        = authorize_records_query_or_subscribe_with_grant E s (ac_author auth) m f auth"
  using assms
  by (auto simp: authorize_records_write_def authorize_delegated_records_write_def authorize_records_delete_def
      authorize_records_delete_with_grant_def authorize_records_read_def authorize_records_read_with_grant_def
      authorize_records_query_or_subscribe_with_grant_def invoked_grant_def is_ok_iff)

section \<open>The messages of a record\<close>


text \<open>
  C13: an update by someone other than the creator loses the initial write. The transition looks for the
  initial write with the author of the incoming message, so that an accepted update whose author did
  not create the record deletes the initial write instead of keeping it.
\<close>

theorem foreign_update_loses_initial_write:
  assumes inv: "store_inv E s"
    and run: "records_write E D resolver tenant m descriptor supplied (s, d) = Some ((s', d'), WriteReply code None)"
    and auth: "validate_authorization_signature E resolver m True = Inr (Some auth)"
    and ident: "record_id m = Some ident"
    and first: "bt_get (ms_messages s) (tenant, c) = Some first" "selected E (record_filters ident) ''messageTimestamp'' first"
    and foreign: "is_initial_write E (mr_message first) (ac_author auth) \<noteq> Inr True"
  shows "bt_get (ms_messages s') (tenant, c) = None"
proof -
  obtain auth' ident' where same: "validate_authorization_signature E resolver m True = Inr (Some auth')" "record_id m = Some ident'"
    and removed: "\<And>c x. bt_get (ms_messages s) (tenant, c) = Some x \<Longrightarrow>
      selected E (record_filters ident') ''messageTimestamp'' x \<Longrightarrow>
      is_initial_write E (mr_message x) (ac_author auth') \<noteq> Inr True \<Longrightarrow> bt_get (ms_messages s') (tenant, c) = None"
    by (rule accepted_write_removes [OF store_invD(1) [OF inv] run]) blast
  have "auth' = auth" "ident' = ident" using same auth ident by simp_all
  with removed [of c first] first foreign show ?thesis by simp
qed

section \<open>Tenants and the store\<close>

text \<open>
  C9: nothing a request to one tenant does reaches another. Whatever the reply, every other tenant
  keeps its messages, its feed with its positions and its head, and its fingerprints.
\<close>

theorem handlers_isolate_tenants:
  assumes "records_write E D resolver tenant m descriptor supplied st = Some (st', reply)
      \<or> records_delete E D resolver tenant m removal st = Some (st', reply)"
    and "other \<noteq> tenant"
  shows "store_get other c (fst st') = store_get other c (fst st)
    \<and> head_of (fst st') other = head_of (fst st) other
    \<and> bt_get (ms_entries (fst st')) (other, p) = bt_get (ms_entries (fst st)) (other, p)
    \<and> bt_get (ms_fingerprints (fst st')) (other, scope) = bt_get (ms_fingerprints (fst st)) (other, scope)"
proof -
  have "same_tenant other (fst st) (fst st')"
    using assms isolating.records_write_keeps [of E D resolver tenant m descriptor supplied st st' reply other "fst st"]
      isolating.records_delete_keeps [of E D resolver tenant m removal st st' reply other "fst st"]
    by (auto simp: same_tenant_refl)
  then show ?thesis by (simp add: same_tenant_def store_get_alt)
qed


section \<open>Examples\<close>

declare climb.simps [code]

text \<open>A board on Alice's node where anyone may post and reply.\<close>

definition board_definition :: protocol_definition where
  "board_definition =
     \<lparr>pd_protocol = ''http://board'', pd_published = True, pd_uses = None, pd_key_agreement = None,
      pd_types = [(''post'', \<lparr>ts_schema = None, ts_data_formats = None, ts_encryption_required = None\<rparr>),
        (''secret'', \<lparr>ts_schema = None, ts_data_formats = None, ts_encryption_required = None\<rparr>)],
      pd_structure =
        [(''post'', RuleSet None [ActionWho \<lparr>aw_who = WhoAnyone, aw_of = None, aw_can = [CanCreate]\<rparr>]
            None None None None None None None None []),
         (''secret'', RuleSet None [] None None None None None None None None [])]\<rparr>"

definition board_configure :: message where
  "board_configure =
     \<lparr>msg_descriptor = DescriptorProtocols (ProtocolsConfigure
        \<lparr>cd_message_timestamp = 1, cd_definition = board_definition, cd_permission_grant_id = None\<rparr>),
      msg_fields = FieldsAuthorization authorization_default\<rparr>"

definition board_store :: memory_message_state where
  "board_store =
     try_put plain_wext ''did:alice'' board_configure
       (configure_indexes plain_wext \<lparr>cd_message_timestamp = 1, cd_definition = board_definition, cd_permission_grant_id = None\<rparr>
          (Some ''did:alice'') True)
       (store_open ''epoch'' memory_message_state_default)"

definition post_descriptor :: "string \<Rightarrow> string \<Rightarrow> instant \<Rightarrow> write_descriptor" where
  "post_descriptor path text at =
     \<lparr>wd_protocol = ''http://board'', wd_protocol_path = path, wd_recipient = None,
      wd_schema = None, wd_tags = None, wd_parent_id = None, wd_data_cid = text,
      wd_data_size = of_nat (length text), wd_date_created = 5, wd_message_timestamp = at, wd_published = None,
      wd_date_published = None, wd_data_format = ''text'', wd_permission_grant_id = None, wd_squash = None\<rparr>"

definition post_by :: "string \<Rightarrow> write_message option \<Rightarrow> string \<Rightarrow> string \<Rightarrow> write_descriptor \<Rightarrow> message" where
  "post_by kid grant payload ident d =
     \<lparr>msg_descriptor = DescriptorRecords (RecordsWrite d),
      msg_fields = FieldsWrite (WriteFields (Authorization (sample_jws kid payload) grant None None)
        (Some ident) (Some ident) None None None)\<rparr>"

text \<open>Bob's post, and an edit of it by Alice.\<close>

definition bobs_post :: message where
  "bobs_post = post_by ''did:bob#1'' None ''wbafydid:bobhello'' ''bafydid:bobhello'' (post_descriptor ''post'' ''hello'' 5)"

definition alices_edit :: message where
  "alices_edit = post_by ''did:alice#1'' None ''wbafydid:bobhello'' ''bafydid:bobhello'' (post_descriptor ''post'' ''howdy'' 9)"

definition put_record :: "message \<Rightarrow> string \<Rightarrow> memory_message_state \<Rightarrow> memory_message_state" where
  "put_record m author s =
     (case records_write_indexes plain_wext m author True of
        Inl _ \<Rightarrow> s | Inr ix \<Rightarrow> try_put plain_wext ''did:alice'' m ix s)"

definition posted_store :: memory_message_state where
  "posted_store = put_record bobs_post ''did:bob'' board_store"

definition post_on :: "message \<Rightarrow> string \<Rightarrow> unit stores \<Rightarrow> (unit stores \<times> write_reply) option" where
  "post_on m text st =
     (case describe_write m of
        Inl _ \<Rightarrow> None
      | Inr w \<Rightarrow> records_write plain_wext no_data True ''did:alice'' m w (Some (as_bytes text)) st)"

text \<open>
  Mallory's grant to a helper to write on the board, and what the helper writes on Alice's node with
  it, to a path at which the protocol lets nobody but Alice write.
\<close>

definition mallorys_grant :: write_message where
  "mallorys_grant = WriteMessage
     \<lparr>wd_protocol = permissions_protocol_uri, wd_protocol_path = permissions_grant_path,
      wd_recipient = Some ''did:helper'', wd_schema = None, wd_tags = None, wd_parent_id = None,
      wd_data_cid = ''bafydata'', wd_data_size = 2, wd_date_created = 2, wd_message_timestamp = 2,
      wd_published = None, wd_date_published = None, wd_data_format = ''application/json'',
      wd_permission_grant_id = None, wd_squash = None\<rparr>
     (WriteFields (Authorization (sample_jws ''did:mallory#1'' ''wr2'') None None None)
        (Some ''r2'') (Some ''r2'') None None (Some ''rhttp://board''))"

definition mallorys_post :: message where
  "mallorys_post = post_by ''did:mallory#1'' None ''wbafydid:mallorylies'' ''bafydid:mallorylies'' (post_descriptor ''secret'' ''lies'' 5)"

definition helpers_post :: message where
  "helpers_post = post_by ''did:helper#1'' (Some mallorys_grant) ''mbafyRecordsWrite2|bafydid:mallorylies''
     ''bafydid:mallorylies'' (post_descriptor ''secret'' ''lies'' 5)"

lemma posted_store_reachable: "store_reachable plain_wext posted_store"
proof -
  have "store_reachable plain_wext board_store"
    unfolding board_store_def by (intro reach_try_put reach_step [OF reach_start step_open])
  then show ?thesis by (simp add: posted_store_def put_record_def reach_try_put split: sum.split)
qed

lemma edit_run:
  "(case post_on alices_edit ''howdy'' (posted_store, ()) of
      Some ((s, _), WriteReply code None) \<Rightarrow> code = 202
        \<and> list_ex (\<lambda>row. mr_cid row = ''bafyRecordsWrite9''
             \<and> selected plain_wext (record_filters ''bafydid:bobhello'') ''messageTimestamp'' row) (tenant_rows s ''did:alice'')
    | _ \<Rightarrow> False)
   \<and> list_ex (\<lambda>row. mr_message row = bobs_post \<and> mr_cid row = ''bafyRecordsWrite5''
        \<and> selected plain_wext (record_filters ''bafydid:bobhello'') ''messageTimestamp'' row
        \<and> is_initial_write plain_wext bobs_post ''did:bob'' = Inr True
        \<and> is_initial_write plain_wext bobs_post ''did:alice'' = Inr False) (tenant_rows posted_store ''did:alice'')
   \<and> (case validate_authorization_signature plain_wext True alices_edit True of
        Inr (Some a) \<Rightarrow> ac_author a = ''did:alice'' | _ \<Rightarrow> False)"
  by code_simp

lemma mallory_refused:
  "case post_on mallorys_post ''lies'' (posted_store, ()) of
     Some (_, WriteReply code (Some _)) \<Rightarrow> code = 401 | _ \<Rightarrow> False"
  by code_simp

lemma helper_admitted:
  "(case validate_authorization_signature plain_wext True helpers_post True of
      Inr (Some a) \<Rightarrow> ac_author a = ''did:mallory'' \<and> ac_signer a = ''did:helper''
        \<and> (case ac_author_delegated_grant a of
             Some g \<Rightarrow> authorize_records_write_with_grant plain_wext posted_store helpers_post ''did:mallory'' ''did:helper'' g = Inr ()
           | None \<Rightarrow> False)
    | _ \<Rightarrow> False)
   \<and> control_kind_of helpers_post = None"
  by code_simp

lemma row_at_cid:
  "rows_ok E s \<Longrightarrow> row \<in> set (tenant_rows s t) \<Longrightarrow> bt_get (ms_messages s) (t, mr_cid row) = Some row"
  using row_of_key [of E s row t] unfolding rows_ok_def by metis

lemma edit_accepted:
  obtains s where "records_write plain_wext no_data True ''did:alice'' alices_edit (post_descriptor ''post'' ''howdy'' 9)
      (Some (as_bytes ''howdy'')) (posted_store, ()) = Some ((s, ()), WriteReply 202 None)"
    and "\<exists>row. bt_get (ms_messages s) (''did:alice'', ''bafyRecordsWrite9'') = Some row
      \<and> selected plain_wext (record_filters ''bafydid:bobhello'') ''messageTimestamp'' row"
proof -
  have "post_on alices_edit ''howdy'' (posted_store, ()) = records_write plain_wext no_data True ''did:alice'' alices_edit
      (post_descriptor ''post'' ''howdy'' 9) (Some (as_bytes ''howdy'')) (posted_store, ())"
    by (simp add: post_on_def alices_edit_def post_by_def describe_write_def records_write_descriptor_def)
  with edit_run obtain s where run: "records_write plain_wext no_data True ''did:alice'' alices_edit
      (post_descriptor ''post'' ''howdy'' 9) (Some (as_bytes ''howdy'')) (posted_store, ()) = Some ((s, ()), WriteReply 202 None)"
    and row: "list_ex (\<lambda>row. mr_cid row = ''bafyRecordsWrite9''
      \<and> selected plain_wext (record_filters ''bafydid:bobhello'') ''messageTimestamp'' row) (tenant_rows s ''did:alice'')"
    by (auto split: option.splits write_reply.splits)
  have ok: "rows_ok plain_wext s"
    using reaching.records_write_keeps [OF run] posted_store_reachable reachable_inv store_invD(1) by fastforce
  from row obtain r where r: "r \<in> set (tenant_rows s ''did:alice'')" "mr_cid r = ''bafyRecordsWrite9''"
    "selected plain_wext (record_filters ''bafydid:bobhello'') ''messageTimestamp'' r"
    by (auto simp: list_ex_iff)
  from row_at_cid [OF ok r(1)] r(2,3) run that show ?thesis by fastforce
qed

lemma edit_record: "record_id alices_edit = Some ''bafydid:bobhello''"
  by (simp add: alices_edit_def post_by_def record_id_def write_fields_def)

theorem refused_requests_change_nothing_witness:
  "\<exists>st' reply. post_on mallorys_post ''lies'' (posted_store, ()) = Some (st', reply) \<and> reply_code reply = 401
     \<and> fst st' = posted_store"
proof -
  obtain st' reply where run: "post_on mallorys_post ''lies'' (posted_store, ()) = Some (st', reply)"
    and refused: "case reply of WriteReply code (Some _) \<Rightarrow> code = 401 | _ \<Rightarrow> False"
    using mallory_refused by (cases "post_on mallorys_post ''lies'' (posted_store, ())") auto
  obtain e where "reply = WriteReply 401 (Some e)" using refused by (cases reply) (auto split: option.splits)
  with run have "post_on mallorys_post ''lies'' (posted_store, ()) = Some (st', WriteReply 401 (Some e))" by simp
  with refused_requests_change_nothing [of "WriteReply 401 (Some e)" plain_wext no_data True "''did:alice''" mallorys_post _ _
      "(posted_store, ())" st'] show ?thesis
    by (auto simp: post_on_def split: sum.splits)
qed

theorem accepted_write_is_authorized_witness:
  "\<exists>auth. validate_authorization_signature plain_wext True alices_edit True = Inr (Some auth)
     \<and> validate_referential_integrity plain_wext posted_store ''did:alice'' alices_edit (ac_author auth) = Inr ()"
proof -
  obtain s where "records_write plain_wext no_data True ''did:alice'' alices_edit (post_descriptor ''post'' ''howdy'' 9)
      (Some (as_bytes ''howdy'')) (posted_store, ()) = Some ((s, ()), WriteReply 202 None)"
    by (rule edit_accepted)
  from accepted_write_is_authorized [OF this] show ?thesis by blast
qed

theorem delegated_requests_ignore_the_node_witness:
  "\<exists>auth. validate_authorization_signature plain_wext True helpers_post True = Inr (Some auth)
     \<and> ac_author auth = ''did:mallory''
     \<and> authorize_records_write plain_wext posted_store ''did:alice'' helpers_post auth = Some (Inr ())"
proof -
  obtain auth g where auth: "validate_authorization_signature plain_wext True helpers_post True = Inr (Some auth)"
    "ac_author auth = ''did:mallory''" "ac_signer auth = ''did:helper''" "ac_author_delegated_grant auth = Some g"
    "authorize_records_write_with_grant plain_wext posted_store helpers_post ''did:mallory'' ''did:helper'' g = Inr ()"
    using helper_admitted by (auto split: sum.splits option.splits)
  with delegated_requests_ignore_the_node [OF auth(4), of plain_wext posted_store helpers_post "''did:alice''"] helper_admitted
  show ?thesis by auto
qed


theorem foreign_update_loses_initial_write_witness:
  "\<exists>s. records_write plain_wext no_data True ''did:alice'' alices_edit (post_descriptor ''post'' ''howdy'' 9)
         (Some (as_bytes ''howdy'')) (posted_store, ()) = Some ((s, ()), WriteReply 202 None)
     \<and> store_get ''did:alice'' ''bafyRecordsWrite5'' posted_store = Some bobs_post
     \<and> is_initial_write plain_wext bobs_post ''did:bob'' = Inr True
     \<and> bt_get (ms_messages s) (''did:alice'', ''bafyRecordsWrite5'') = None"
proof -
  obtain s where run: "records_write plain_wext no_data True ''did:alice'' alices_edit (post_descriptor ''post'' ''howdy'' 9)
      (Some (as_bytes ''howdy'')) (posted_store, ()) = Some ((s, ()), WriteReply 202 None)"
    by (rule edit_accepted)
  obtain auth where auth: "validate_authorization_signature plain_wext True alices_edit True = Inr (Some auth)"
    "ac_author auth = ''did:alice''"
    using edit_run by (auto split: sum.splits option.splits)
  have inv: "store_inv plain_wext posted_store" by (rule reachable_inv [OF posted_store_reachable])
  obtain first where first: "first \<in> set (tenant_rows posted_store ''did:alice'')" "mr_message first = bobs_post"
    "mr_cid first = ''bafyRecordsWrite5''"
    "selected plain_wext (record_filters ''bafydid:bobhello'') ''messageTimestamp'' first"
    "is_initial_write plain_wext bobs_post ''did:bob'' = Inr True" "is_initial_write plain_wext bobs_post ''did:alice'' = Inr False"
    using edit_run by (auto simp: list_ex_iff)
  then have at: "bt_get (ms_messages posted_store) (''did:alice'', ''bafyRecordsWrite5'') = Some first"
    using row_at_cid [OF store_invD(1) [OF inv] first(1)] by simp
  from foreign_update_loses_initial_write [OF inv run auth(1) edit_record at first(4)] auth(2) first run at
  show ?thesis by (auto simp: store_get_alt)
qed

theorem handlers_isolate_tenants_witness:
  "\<exists>s. records_write plain_wext no_data True ''did:alice'' alices_edit (post_descriptor ''post'' ''howdy'' 9)
         (Some (as_bytes ''howdy'')) (posted_store, ()) = Some ((s, ()), WriteReply 202 None)
     \<and> store_get ''did:carol'' ''bafyRecordsWrite5'' s = store_get ''did:carol'' ''bafyRecordsWrite5'' posted_store"
proof -
  obtain s where run: "records_write plain_wext no_data True ''did:alice'' alices_edit (post_descriptor ''post'' ''howdy'' 9)
      (Some (as_bytes ''howdy'')) (posted_store, ()) = Some ((s, ()), WriteReply 202 None)"
    by (rule edit_accepted)
  from handlers_isolate_tenants [OF disjI1 [OF run], of "''did:carol''" "''bafyRecordsWrite5''"] run show ?thesis by auto
qed


end
