(* ===== verification/Spec2Isabelle.thy ===== *)
theory Spec2Isabelle
  imports FeedReading RecordsState EventLog TaskStore StateIndex WriteProperties
begin

text \<open>
  A verification of the core of \<open>enbox-rust-core\<close>, a decentralised web node (DWN) in Rust.
  Paths below are relative to \<open>src/crates/dwn-rs-core/src\<close>.

  \<^bold>\<open>The program.\<close> A node keeps messages per tenant. A message is a descriptor plus fields and is
  named by its content identifier (CID). Records messages change the latest state of a record,
  protocols prescribe who may do what on which path, and a replication feed gives every stored
  message a position, so that other nodes can follow along with progress tokens and compare
  fingerprints.

  \<^bold>\<open>Theories.\<close>
  \<^item> \<open>Prelude\<close>: results, orderings, sorting, machine integers and their decimal text, strings,
    ordered maps and sets; the locales \<open>comparison\<close> and \<open>keyed_update\<close>.
  \<^item> \<open>Values\<close>: \<open>value.rs\<close>, JSON and comparison of values.
  \<^item> \<open>Filters\<close>: \<open>filters/*.rs\<close>, filter parsing and matching, context scopes, control paths.
  \<^item> \<open>Protocols\<close>: \<open>interfaces/messages/protocols.rs\<close>, definitions and their validation.
  \<^item> \<open>Messages\<close>: descriptors, fields, kinds and accessors.
  \<^item> \<open>RecordsState\<close>: \<open>handlers/records/state.rs\<close>, the convergence order and the planner.
  \<^item> \<open>Feed\<close>: \<open>stores/replication_feed_reader.rs\<close> and the store errors and event types.
  \<^item> \<open>Occupancy\<close>: \<open>stores/occupancy.rs\<close>, record limits.
  \<^item> \<open>MessageStore\<close>: the message store of \<open>stores/memory.rs\<close>; \<open>StoreInvariant\<close>,
    \<open>StoreOperations\<close> and \<open>FeedReading\<close> prove its properties.
  \<^item> \<open>Paging\<close>: the contract of a paged reader and the loop that drains it.
  \<^item> \<open>EventLog\<close> and \<open>TaskStore\<close>: the event log and the resumable task store of \<open>stores/memory.rs\<close>.
  \<^item> \<open>StateIndex\<close>: \<open>stores/state_index.rs\<close>, membership and the sparse Merkle tree.
  \<^item> \<open>Serde\<close>: what the derived deserialisers of the code do with missing and unknown fields.
  \<^item> \<open>Scopes\<close>: \<open>permissions/scopes.rs\<close>, permission scopes and their JSON form.
  \<^item> \<open>Grants\<close> and \<open>Signatures\<close>: the grants of \<open>permissions/mod.rs\<close> and the authentication of a message.
  \<^item> \<open>Permissions\<close>: the rest of \<open>permissions/mod.rs\<close>, the checks behind an invoked grant and revocation.
  \<^item> \<open>RecordsIndexes\<close>: the index entries of \<open>handlers/records/common.rs\<close> and the integrity of a write.
  \<^item> \<open>ProtocolHandlers\<close>: the definitions the node carries itself and the lookup of the one in force,
    from \<open>handlers/protocols\<close>.
  \<^item> \<open>RecordsAccess\<close>: roles, action rules and the plan of a collection request, from
    \<open>handlers/records/common.rs\<close> and \<open>visibility.rs\<close>.
  \<^item> \<open>GrantKeys\<close>: \<open>permissions/grant_key_coverage.rs\<close>.
  \<^item> \<open>RecordsReading\<close>: visibility of encryption control records and the handlers of RecordsQuery and
    RecordsCount.
  \<^item> \<open>Admission\<close>: what a write must satisfy before it is stored: \<open>handlers/records/integrity.rs\<close> and
    \<open>policy.rs\<close>, \<open>control/admission.rs\<close>, and the deliveries of \<open>encryption/protocol.rs\<close>.
  \<^item> \<open>RecordsWriting\<close>: the handlers of RecordsWrite and RecordsDelete with the data store, squashing
    and purging: \<open>handlers/records/write.rs\<close>, \<open>delete.rs\<close>, \<open>data.rs\<close> and \<open>squash.rs\<close>.
  \<^item> \<open>WriteEffects\<close>: the effects of the two handlers. The locales \<open>deletion_property\<close> and
    \<open>store_property\<close> carry a property of the store through every step of a handler; they are
    interpreted for reachability, for the growth of the feed, for the isolation of tenants and for the
    rows that remain. A node is a step relation over these requests.
  \<^item> \<open>Pruning\<close>: the purge of descendants. \<open>WriteProperties\<close>: the properties of the two handlers.

  \<^bold>\<open>What is shown.\<close> The stores keep their invariants in every reachable state and their reads are exact;
  record state converges whatever the order of delivery; definitions that pass validation have the
  access properties their rules promise; a message that passes authentication is committed to by its
  signature; an invoked grant authorises exactly what its window, scope and revocations say; a query
  returns only what its requester may see, with one exception that is proved as well; a refused request
  changes nothing, an accepted write is authorised and leaves one latest state of its record, a request
  reaches no other tenant, and a node that answers requests keeps the invariant of its store. Two theorems
  show where writing falls short: a delegated grant is not checked against the node it is used on, and
  an update by someone other than the creator loses the initial write. Loops without a bound of their
  own (climbing to parent records, filling a page, purging descendants) are partial functions with
  \<open>None\<close> for not returning; draining a paged reader and the loops of validation are proved to end, and
  so is the purge of descendants where no record is below itself.

  \<^bold>\<open>Conventions.\<close> A fallible function returns \<open>'e + 'a\<close>, the error on the left. A \<open>BTreeMap\<close> is an
  association list with ascending keys, a \<open>BTreeSet\<close> an ascending list. \<open>u64\<close> is \<open>64 word\<close> and
  wraps, as the release profile does (\<open>overflow-checks = false\<close> in \<open>Cargo.toml\<close>); checked and
  saturating operations are written out. Instants are integers, CIDs are their text. Functions of
  third-party crates (date and CID parsing, hashing, CID computation) are fields of the records
  \<open>ext\<close>, \<open>mext\<close>, \<open>pext\<close> and \<open>wext\<close> that the definitions take as an argument; \<open>plain_ext\<close>, \<open>plain_mext\<close>,
  \<open>plain_pext\<close> and \<open>plain_wext\<close> are concrete instances. The data store is any implementation of the
  operations of its trait, a record of functions. An effect that fails part of the way returns the state
  it had reached. The stores take their lock for the whole of an operation, so an operation
  of a store is one step. Errors of protocol validation carry their code without the prose.

  \<^bold>\<open>Not modelled.\<close> The handlers of reads and subscriptions, of the Protocols and the Messages
  interface, resumable tasks and synchronisation; DID resolution, key wrapping and stream encryption,
  the SQLite stores, servers, the remote client and the foreign function interface: these last are I/O
  or calls of cryptographic and database libraries around what is modelled. Requests handled at the
  same time may interleave between the store operations they make; a node here answers one at a time.
\<close>

end
